(* ===== verification/Prelude.thy ===== *)
theory Prelude
  imports Main "HOL-Library.Word" "HOL-Library.Char_ord" "HOL-Library.List_Lexorder"
begin

unbundle bit_operations_syntax

text \<open>
  Shared vocabulary of the development: the machine types of the Rust sources, the error values
  every kernel module returns, the decimal and hexadecimal printing of \<^verbatim>\<open>format!\<close>, the saturating
  arithmetic the sources call, and a locale that turns a one-step invariant argument into a
  statement about every reachable state.

  Conventions of the translation:
  \<^item> \<^verbatim>\<open>u8\<close>, \<^verbatim>\<open>u16\<close>, \<^verbatim>\<open>u32\<close>, \<^verbatim>\<open>u64\<close> are words of that width, with wrap-around;
  \<^item> \<^verbatim>\<open>usize\<close> values are lengths of in-memory buffers and counts, and are \<open>nat\<close>; where the source
    saturates at \<^verbatim>\<open>usize::MAX\<close> the saturation is written out;
  \<^item> \<^verbatim>\<open>i32\<close> values (signals, exit codes, \<^verbatim>\<open>waitpid\<close> selectors) are \<open>int\<close>;
  \<^item> \<^verbatim>\<open>String\<close> is \<open>string\<close>: Rust strings are byte sequences ordered bytewise, as \<open>char list\<close> is here;
  \<^item> \<^verbatim>\<open>Result<T, E>\<close> is a sum with the error on the left.
\<close>

subsection \<open>Machine types\<close>

type_synonym u8 = "8 word"
type_synonym u16 = "16 word"
type_synonym u32 = "32 word"
type_synonym u64 = "64 word"
type_synonym bytes = "u8 list"

definition usize_max :: nat where
  "usize_max = 2 ^ 64 - 1"

definition usize_saturating_add :: "nat \<Rightarrow> nat \<Rightarrow> nat" where
  "usize_saturating_add a b = min (a + b) usize_max"

definition word_saturating_add :: "'a::len word \<Rightarrow> 'a word \<Rightarrow> 'a word" where
  "word_saturating_add a b = (if a \<le> - 1 - b then a + b else - 1)"

subsection \<open>Errors\<close>

text \<open>
  Each module of the kernel has its own error struct, always a static code string and a message.
  They share one type here; the code is an enumeration because callers compare codes. \<open>PANIC\<close> is no code of
  the source: it marks the branches in which the program panics.
\<close>

datatype errno =
    E2BIG | EACCES | EADDRINUSE | EADDRNOTAVAIL | EAGAIN | EBADF | EBUSY | ECHILD | ECONNREFUSED
  | EEXIST | EHOSTUNREACH | EINVAL | EIO | EISDIR | ELOOP | EMFILE | ENAMETOOLONG | ENFILE | ENOENT | ENOEXEC
  | ENOMEM | ENOSPC | ENOSYS | ENOTCONN | ENOTDIR | ENOTEMPTY | EPERM | EPIPE | EROFS | ESPIPE
  | ESRCH | EWOULDBLOCK | EXDEV | PANIC

datatype sys_error = SysError (err_code: errno) (err_message: string)

type_synonym 'a result = "sys_error + 'a"

definition ok_or :: "'a option \<Rightarrow> sys_error \<Rightarrow> 'a result" where
  "ok_or x e = (case x of None \<Rightarrow> Inl e | Some v \<Rightarrow> Inr v)"

lemma ok_or_simps [simp]:
  "ok_or None e = Inl e"
  "ok_or (Some v) e = Inr v"
  by (simp_all add: ok_or_def)

lemma ok_or_eq_iff [simp]:
  "ok_or x e = Inr v \<longleftrightarrow> x = Some v"
  "ok_or x e = Inl e' \<longleftrightarrow> x = None \<and> e' = e"
  by (auto simp: ok_or_def split: option.splits)

definition unwrap_or :: "'a option \<Rightarrow> 'a \<Rightarrow> 'a" where
  "unwrap_or x d = (case x of None \<Rightarrow> d | Some v \<Rightarrow> v)"

lemma unwrap_or_simps [simp]:
  "unwrap_or None d = d"
  "unwrap_or (Some v) d = v"
  by (simp_all add: unwrap_or_def)

definition is_ok :: "'a result \<Rightarrow> bool" where
  "is_ok r = (case r of Inl _ \<Rightarrow> False | Inr _ \<Rightarrow> True)"

lemma is_ok_simps [simp]:
  "is_ok (Inr x)"
  "\<not> is_ok (Inl e)"
  by (simp_all add: is_ok_def)

subsection \<open>Printing numbers\<close>

definition digit_char :: "nat \<Rightarrow> char" where
  "digit_char d = (if d < 10 then char_of (48 + d) else char_of (87 + d))"

fun show_base :: "nat \<Rightarrow> nat \<Rightarrow> string" where
  "show_base b n = (if b < 2 \<or> n < b then [digit_char n]
                    else show_base b (n div b) @ [digit_char (n mod b)])"

declare show_base.simps [simp del]

definition show_nat :: "nat \<Rightarrow> string" where
  "show_nat n = show_base 10 n"

definition show_hex :: "nat \<Rightarrow> string" where
  "show_hex n = ''0x'' @ show_base 16 n"

definition show_word :: "'a::len word \<Rightarrow> string" where
  "show_word w = show_nat (unat w)"

definition show_int :: "int \<Rightarrow> string" where
  "show_int i = (if i < 0 then CHR ''-'' # show_nat (nat (- i)) else show_nat (nat i))"

lemma show_base_nonempty [simp]: "show_base b n \<noteq> []"
  by (subst show_base.simps) simp

lemma digit_char_inj: "a < 16 \<Longrightarrow> b < 16 \<Longrightarrow> digit_char a = digit_char b \<Longrightarrow> a = b"
  by (auto simp: digit_char_def of_char_of dest: arg_cong [where f = "of_char :: char \<Rightarrow> nat"]
      split: if_splits)


subsection \<open>Blocking operations\<close>

text \<open>
  A loop around a condition variable runs one pass of its body under the lock, then either returns
  or sleeps and tries again. One pass is a function; \<open>Blocked\<close> is the outcome in which it sleeps.
\<close>

datatype 'a attempt = Return 'a | Blocked

subsection \<open>Words\<close>

lemma unat_plus_1: "n \<noteq> - 1 \<Longrightarrow> unat (n + 1 :: 'a::len word) = Suc (unat n)"
  by (metis add.commute add_eq_0_iff unatSuc)

lemma word_less_plus_1: "n \<noteq> - 1 \<Longrightarrow> (k::'a::len word) \<le> n \<Longrightarrow> k < n + 1"
  by (simp add: word_less_nat_alt word_le_nat_alt unat_plus_1)

lemma word_less_plus_1_cases: "n \<noteq> - 1 \<Longrightarrow> (k::'a::len word) < n + 1 \<longleftrightarrow> k \<le> n"
  by (simp add: word_less_nat_alt word_le_nat_alt unat_plus_1 less_Suc_eq_le)

subsection \<open>Reachable states\<close>

text \<open>
  The interface of a component seen as a state machine: an initial state, the steps its operations
  make, and an invariant that the initial state has and every step keeps. Whatever a client does,
  the component stays in states that satisfy the invariant.
\<close>

locale invariant_system =
  fixes init :: "'s"
    and step :: "'s \<Rightarrow> 's \<Rightarrow> bool"
    and inv :: "'s \<Rightarrow> bool"
  assumes init_inv: "inv init"
    and step_inv: "inv s \<Longrightarrow> step s t \<Longrightarrow> inv t"
begin

lemma run_inv: "step\<^sup>*\<^sup>* s t \<Longrightarrow> inv s \<Longrightarrow> inv t"
  by (induction rule: rtranclp_induct) (auto intro: step_inv)

lemma reachable_inv: "step\<^sup>*\<^sup>* init t \<Longrightarrow> inv t"
  by (rule run_inv [OF _ init_inv])

end

end
