(* ===== verification/Poll.thy ===== *)
theory Poll
  imports Prelude
begin

text \<open>
  \<^verbatim>\<open>poll.rs\<close>: the event bit sets of \<^verbatim>\<open>poll\<close> and the generation counter that wakes pollers. The
  counter is behind a mutex and a condition variable; a waiting thread is modelled by the sequence
  of counter values it reads when it is woken, spurious wake-ups included.
\<close>

subsection \<open>Event sets\<close>

type_synonym poll_events = u16

definition poll_empty :: poll_events where
  "poll_empty = 0"

definition poll_is_empty :: "poll_events \<Rightarrow> bool" where
  "poll_is_empty e \<longleftrightarrow> e = 0"

definition poll_contains :: "poll_events \<Rightarrow> poll_events \<Rightarrow> bool" where
  "poll_contains e other \<longleftrightarrow> e AND other = other"

definition poll_intersects :: "poll_events \<Rightarrow> poll_events \<Rightarrow> bool" where
  "poll_intersects e other \<longleftrightarrow> e AND other \<noteq> 0"

definition poll_bitor :: "poll_events \<Rightarrow> poll_events \<Rightarrow> poll_events" where
  "poll_bitor e other = e OR other"

definition POLLIN :: poll_events where "POLLIN = 0x0001"
definition POLLOUT :: poll_events where "POLLOUT = 0x0004"
definition POLLERR :: poll_events where "POLLERR = 0x0008"
definition POLLHUP :: poll_events where "POLLHUP = 0x0010"
definition POLLNVAL :: poll_events where "POLLNVAL = 0x0020"

lemmas poll_consts = POLLIN_def POLLOUT_def POLLERR_def POLLHUP_def POLLNVAL_def

subsection \<open>The notifier\<close>

record poll_notifier =
  notifier_generation :: u64

definition poll_notifier_default :: poll_notifier where
  "poll_notifier_default = \<lparr>notifier_generation = 0\<rparr>"

definition poll_notify :: "poll_notifier \<Rightarrow> poll_notifier" where
  "poll_notify n = n\<lparr>notifier_generation := word_saturating_add (notifier_generation n) 1\<rparr>"

definition poll_snapshot :: "poll_notifier \<Rightarrow> u64" where
  "poll_snapshot n = notifier_generation n"

text \<open>
  \<^verbatim>\<open>wait_for_change\<close> returns at once when the generation already differs from the observed one.
  Otherwise it loops around the condition variable. The list holds the wake-ups of the thread: for
  each, whether the clock had passed the deadline when the turn of the loop began, the generation
  read after the wake-up, and whether the wait itself timed out. \<open>None\<close> is a thread still waiting.
\<close>

datatype poll_timeout = NoTimeout | ZeroTimeout | Timeout

datatype poll_wake = PollWake (past_deadline: bool) (woken_generation: u64) (wait_timed_out: bool)

fun wait_forever :: "u64 \<Rightarrow> u64 \<Rightarrow> poll_wake list \<Rightarrow> bool option" where
  "wait_forever observed generation [] = (if generation = observed then None else Some True)"
| "wait_forever observed generation (w # ws) =
     (if generation = observed then wait_forever observed (woken_generation w) ws else Some True)"

fun wait_until :: "u64 \<Rightarrow> u64 \<Rightarrow> poll_wake list \<Rightarrow> bool option" where
  "wait_until observed generation [] = None"
| "wait_until observed generation (w # ws) =
     (if past_deadline w then Some (generation \<noteq> observed)
      else if woken_generation w \<noteq> observed then Some True
      else if wait_timed_out w then Some False
      else wait_until observed (woken_generation w) ws)"

definition wait_for_change :: "u64 \<Rightarrow> u64 \<Rightarrow> poll_timeout \<Rightarrow> poll_wake list \<Rightarrow> bool option" where
  "wait_for_change observed generation timeout wakes =
     (if generation \<noteq> observed then Some True
      else case timeout of
        NoTimeout \<Rightarrow> wait_forever observed generation wakes
      | ZeroTimeout \<Rightarrow> Some (generation \<noteq> observed)
      | Timeout \<Rightarrow> wait_until observed generation wakes)"

lemma wait_forever_returns_iff:
  "wait_forever observed g ws = Some True \<longleftrightarrow> (\<exists>h \<in> set (g # map woken_generation ws). h \<noteq> observed)"
  by (induction observed g ws rule: wait_forever.induct) auto

lemma wait_forever_not_False: "wait_forever observed g ws \<noteq> Some False"
  by (induction observed g ws rule: wait_forever.induct) auto

lemma wait_until_False:
  "wait_until observed g ws = Some False \<Longrightarrow>
     (\<exists>w \<in> set ws. past_deadline w \<or> wait_timed_out w)"
  by (induction observed g ws rule: wait_until.induct) (auto split: if_splits)

text \<open>
  A notification is never lost: unless the counter is saturated, it moves the generation away from
  every snapshot taken before it, so a poller that then waits on its old snapshot returns at once.
\<close>

lemma poll_notify_changes:
  "notifier_generation n \<noteq> - 1 \<Longrightarrow> poll_snapshot (poll_notify n) \<noteq> poll_snapshot n"
  by (simp add: poll_snapshot_def poll_notify_def word_saturating_add_def)

lemma poll_notify_not_lost:
  "notifier_generation n \<noteq> - 1 \<Longrightarrow>
     wait_for_change (poll_snapshot n) (poll_snapshot (poll_notify n)) timeout ws = Some True"
  using poll_notify_changes [of n] by (simp add: wait_for_change_def)

end
