(* ===== verification/User.thy ===== *)
theory User
  imports Prelude
begin

text \<open>
  \<^verbatim>\<open>user.rs\<close>: the VM's single user. A configuration with optional fields is completed to a user
  record; the record renders passwd and group lines and the identity processes are started with.
\<close>

record process_identity =
  ident_uid :: u32
  ident_gid :: u32
  ident_euid :: u32
  ident_egid :: u32
  ident_supplementary_gids :: "u32 list"

definition process_identity_default :: process_identity where
  "process_identity_default = \<lparr>ident_uid = 1000, ident_gid = 1000, ident_euid = 1000,
     ident_egid = 1000, ident_supplementary_gids = [1000]\<rparr>"

record user_config =
  cfg_uid :: "u32 option"
  cfg_gid :: "u32 option"
  cfg_euid :: "u32 option"
  cfg_egid :: "u32 option"
  cfg_username :: "string option"
  cfg_homedir :: "string option"
  cfg_shell :: "string option"
  cfg_gecos :: "string option"
  cfg_group_name :: "string option"
  cfg_supplementary_gids :: "u32 list"

definition user_config_default :: user_config where
  "user_config_default = \<lparr>cfg_uid = None, cfg_gid = None, cfg_euid = None, cfg_egid = None,
     cfg_username = None, cfg_homedir = None, cfg_shell = None, cfg_gecos = None,
     cfg_group_name = None, cfg_supplementary_gids = []\<rparr>"

record user_manager =
  um_uid :: u32
  um_gid :: u32
  um_euid :: u32
  um_egid :: u32
  um_username :: string
  um_homedir :: string
  um_shell :: string
  um_gecos :: string
  um_group_name :: string
  um_supplementary_gids :: "u32 list"

fun push_new_gids :: "u32 list \<Rightarrow> u32 list \<Rightarrow> u32 list" where
  "push_new_gids normalized [] = normalized"
| "push_new_gids normalized (gid # gids) =
     push_new_gids (if gid \<in> set normalized then normalized else normalized @ [gid]) gids"

definition normalize_supplementary_gids :: "u32 \<Rightarrow> u32 list \<Rightarrow> u32 list" where
  "normalize_supplementary_gids primary_gid supplementary_gids = push_new_gids [primary_gid] supplementary_gids"

definition user_from_config :: "user_config \<Rightarrow> user_manager" where
  "user_from_config c =
     (let uid = unwrap_or (cfg_uid c) 1000;
          gid = unwrap_or (cfg_gid c) 1000;
          username = unwrap_or (cfg_username c) ''user''
      in \<lparr>um_uid = uid, um_gid = gid,
          um_euid = unwrap_or (cfg_euid c) uid, um_egid = unwrap_or (cfg_egid c) gid,
          um_username = username,
          um_homedir = unwrap_or (cfg_homedir c) ''/home/user'',
          um_shell = unwrap_or (cfg_shell c) ''/bin/sh'',
          um_gecos = unwrap_or (cfg_gecos c) [],
          um_group_name = unwrap_or (cfg_group_name c) username,
          um_supplementary_gids = normalize_supplementary_gids gid (cfg_supplementary_gids c)\<rparr>)"

definition user_identity :: "user_manager \<Rightarrow> process_identity" where
  "user_identity u = \<lparr>ident_uid = um_uid u, ident_gid = um_gid u, ident_euid = um_euid u,
     ident_egid = um_egid u, ident_supplementary_gids = um_supplementary_gids u\<rparr>"

definition user_getgroups :: "user_manager \<Rightarrow> u32 list" where
  "user_getgroups u = um_supplementary_gids u"

definition user_getpwuid :: "user_manager \<Rightarrow> u32 \<Rightarrow> string option" where
  "user_getpwuid u uid =
     (if uid = um_uid u
      then Some (um_username u @ '':x:'' @ show_word (um_uid u) @ '':'' @ show_word (um_gid u) @ '':''
                 @ um_gecos u @ '':'' @ um_homedir u @ '':'' @ um_shell u)
      else None)"

definition user_getgrgid :: "user_manager \<Rightarrow> u32 \<Rightarrow> string option" where
  "user_getgrgid u gid =
     (if gid = um_gid u
      then Some (um_group_name u @ '':x:'' @ show_word (um_gid u) @ '':'' @ um_username u)
      else if gid \<in> set (um_supplementary_gids u)
      then Some (''group'' @ show_word gid @ '':x:'' @ show_word gid @ '':'' @ um_username u)
      else None)"

lemma push_new_gids_prefix: "\<exists>rest. push_new_gids acc gids = acc @ rest"
  by (induction acc gids rule: push_new_gids.induct) (auto split: if_splits)

lemma set_push_new_gids: "set (push_new_gids acc gids) = set acc \<union> set gids"
  by (induction acc gids rule: push_new_gids.induct) auto

lemma distinct_push_new_gids: "distinct acc \<Longrightarrow> distinct (push_new_gids acc gids)"
  by (induction acc gids rule: push_new_gids.induct) auto

lemma normalize_supplementary_gids_spec:
  "hd (normalize_supplementary_gids g gids) = g"
  "set (normalize_supplementary_gids g gids) = insert g (set gids)"
  "distinct (normalize_supplementary_gids g gids)"
  using push_new_gids_prefix [of "[g]" gids]
  by (auto simp: normalize_supplementary_gids_def set_push_new_gids distinct_push_new_gids)

end
