(* ===== verification/BTree_Map.thy ===== *)
theory BTree_Map
  imports Prelude
begin

text \<open>
  The standard library's \<^verbatim>\<open>BTreeMap\<close> and \<^verbatim>\<open>BTreeSet\<close>: finite maps whose iteration order is the
  order of the keys. The kernel relies on that order (the first free descriptor, the children a
  \<^verbatim>\<open>waitpid\<close> looks at, the first socket of a shared UDP port), so a map is represented by its
  entries in strictly increasing key order. The type carries the ordering invariant; two maps
  with the same lookups are equal. The locale \<open>ordered_map\<close> states what the clients use.
\<close>

subsection \<open>Entry lists\<close>

fun put_entry :: "'k::linorder \<Rightarrow> 'v \<Rightarrow> ('k \<times> 'v) list \<Rightarrow> ('k \<times> 'v) list" where
  "put_entry k v [] = [(k, v)]"
| "put_entry k v ((k', v') # es) =
     (if k' < k then (k', v') # put_entry k v es
      else if k' = k then (k, v) # es
      else (k, v) # (k', v') # es)"

definition drop_entry :: "'k \<Rightarrow> ('k \<times> 'v) list \<Rightarrow> ('k \<times> 'v) list" where
  "drop_entry k es = filter (\<lambda>(k', _). k' \<noteq> k) es"

abbreviation ordered_keys :: "('k::linorder \<times> 'v) list \<Rightarrow> bool" where
  "ordered_keys es \<equiv> sorted_wrt (<) (map fst es)"

lemma set_put_entry_keys: "fst ` set (put_entry k v es) = insert k (fst ` set es)"
  by (induction k v es rule: put_entry.induct) auto

lemma ordered_put_entry: "ordered_keys es \<Longrightarrow> ordered_keys (put_entry k v es)"
proof (induction k v es rule: put_entry.induct)
  case (2 k v k' v' es)
  have keys: "x \<in> set (put_entry k v es) \<Longrightarrow> fst x = k \<or> fst x \<in> fst ` set es" for x
    using set_put_entry_keys [of k v es] by blast
  from 2 show ?case
    by (auto dest!: keys)
qed simp

lemma map_of_put_entry: "ordered_keys es \<Longrightarrow> map_of (put_entry k v es) = (map_of es)(k \<mapsto> v)"
  by (induction k v es rule: put_entry.induct) auto

lemma ordered_drop_entry: "ordered_keys es \<Longrightarrow> ordered_keys (drop_entry k es)"
  by (auto simp: drop_entry_def sorted_wrt_map intro: sorted_wrt_filter)

lemma map_of_drop_entry: "map_of (drop_entry k es) = (map_of es)(k := None)"
  by (induction es) (auto simp: drop_entry_def)

lemma ordered_distinct: "ordered_keys es \<Longrightarrow> distinct (map fst es)"
  by (simp add: strict_sorted_iff)

lemma entries_from_keys:
  "distinct (map fst es) \<Longrightarrow> map (\<lambda>k. (k, the (map_of es k))) (map fst es) = es"
  by (auto simp: comp_def intro!: map_idI)

lemma ordered_keys_unique:
  assumes "ordered_keys es" "ordered_keys fs" "map_of es = map_of fs"
  shows "es = fs"
proof -
  have d: "distinct (map fst es)" "distinct (map fst fs)"
    using assms by (simp_all add: ordered_distinct)
  have "fst ` set es = fst ` set fs"
    using assms(3) by (metis dom_map_of_conv_image_fst)
  then have "map fst es = map fst fs"
    using assms(1,2) by (metis list.set_map strict_sorted_equal)
  then show ?thesis
    using entries_from_keys [OF d(1)] entries_from_keys [OF d(2)] assms(3) by simp
qed

subsection \<open>The map type\<close>

typedef (overloaded) ('k::linorder, 'v) btree =
  "{es :: ('k \<times> 'v) list. ordered_keys es}"
  morphisms bt_entries BTree
  by (rule exI [of _ "[]"]) simp

setup_lifting type_definition_btree

lift_definition bt_empty :: "('k::linorder, 'v) btree" is "[]"
  by simp

lift_definition bt_get :: "('k::linorder, 'v) btree \<Rightarrow> 'k \<Rightarrow> 'v option" is map_of .

lift_definition bt_insert :: "'k::linorder \<Rightarrow> 'v \<Rightarrow> ('k, 'v) btree \<Rightarrow> ('k, 'v) btree" is put_entry
  by (rule ordered_put_entry)

lift_definition bt_remove :: "'k::linorder \<Rightarrow> ('k, 'v) btree \<Rightarrow> ('k, 'v) btree" is drop_entry
  by (rule ordered_drop_entry)

lift_definition bt_mapv :: "('k::linorder \<Rightarrow> 'v \<Rightarrow> 'w) \<Rightarrow> ('k, 'v) btree \<Rightarrow> ('k, 'w) btree" is
  "\<lambda>f. map (\<lambda>(k, v). (k, f k v))"
  by (simp add: case_prod_beta comp_def)

lift_definition bt_retain :: "('k::linorder \<Rightarrow> 'v \<Rightarrow> bool) \<Rightarrow> ('k, 'v) btree \<Rightarrow> ('k, 'v) btree" is
  "\<lambda>p. filter (\<lambda>(k, v). p k v)"
  by (auto simp: sorted_wrt_map intro: sorted_wrt_filter)

definition bt_keys :: "('k::linorder, 'v) btree \<Rightarrow> 'k list" where
  "bt_keys m = map fst (bt_entries m)"

definition bt_values :: "('k::linorder, 'v) btree \<Rightarrow> 'v list" where
  "bt_values m = map snd (bt_entries m)"

definition bt_len :: "('k::linorder, 'v) btree \<Rightarrow> nat" where
  "bt_len m = length (bt_entries m)"

definition bt_contains :: "('k::linorder, 'v) btree \<Rightarrow> 'k \<Rightarrow> bool" where
  "bt_contains m k \<longleftrightarrow> bt_get m k \<noteq> None"

definition bt_is_empty :: "('k::linorder, 'v) btree \<Rightarrow> bool" where
  "bt_is_empty m \<longleftrightarrow> bt_entries m = []"

definition bt_modify :: "'k::linorder \<Rightarrow> ('v \<Rightarrow> 'v) \<Rightarrow> ('k, 'v) btree \<Rightarrow> ('k, 'v) btree" where
  "bt_modify k f m = (case bt_get m k of None \<Rightarrow> m | Some v \<Rightarrow> bt_insert k (f v) m)"

text \<open>The equations that evaluate closed maps: every operation on the entry list.\<close>

lemma bt_entries_eqs [simp, code abstract]:
  "bt_entries bt_empty = []"
  "bt_entries (bt_insert k v m) = put_entry k v (bt_entries m)"
  "bt_entries (bt_remove k m) = drop_entry k (bt_entries m)"
  "bt_entries (bt_mapv f m) = map (\<lambda>(k, v). (k, f k v)) (bt_entries m)"
  "bt_entries (bt_retain p m) = filter (\<lambda>(k, v). p k v) (bt_entries m)"
  by (transfer, simp)+

lemma bt_get_entries: "bt_get m = map_of (bt_entries m)"
  by transfer simp

lemma ordered_bt_entries [simp]: "ordered_keys (bt_entries m)"
  by transfer simp

lemma distinct_bt_keys [simp]: "distinct (bt_keys m)"
  by (simp add: bt_keys_def ordered_distinct)

lemma sorted_bt_keys [simp]: "sorted_wrt (<) (bt_keys m)"
  by (simp add: bt_keys_def)

subsection \<open>Lookup laws\<close>

lemma bt_get_empty [simp]: "bt_get bt_empty k = None"
  by (simp add: bt_get_entries)

lemma bt_get_insert [simp]: "bt_get (bt_insert k v m) k' = (if k' = k then Some v else bt_get m k')"
  by (simp add: bt_get_entries map_of_put_entry)

lemma bt_get_remove [simp]: "bt_get (bt_remove k m) k' = (if k' = k then None else bt_get m k')"
  by (simp add: bt_get_entries map_of_drop_entry)

lemma bt_get_mapv [simp]: "bt_get (bt_mapv f m) k = map_option (f k) (bt_get m k)"
proof -
  have "map_of (map (\<lambda>(k, v). (k, f k v)) es) k = map_option (f k) (map_of es k)" for es
    by (induction es) auto
  then show ?thesis by (simp add: bt_get_entries)
qed

lemma bt_get_retain [simp]:
  "bt_get (bt_retain p m) k = (case bt_get m k of None \<Rightarrow> None | Some v \<Rightarrow> if p k v then Some v else None)"
proof -
  have "distinct (map fst es) \<Longrightarrow> map_of (filter (\<lambda>(k, v). p k v) es) k =
      (case map_of es k of None \<Rightarrow> None | Some v \<Rightarrow> if p k v then Some v else None)" for es
    by (induction es) (auto split: option.splits simp: map_of_eq_None_iff rev_image_eqI)
  then show ?thesis by (simp add: bt_get_entries ordered_distinct)
qed

lemma bt_get_modify [simp]:
  "bt_get (bt_modify k f m) k' = (if k' = k then map_option f (bt_get m k) else bt_get m k')"
  by (simp add: bt_modify_def split: option.splits)

lemma bt_eqI: "(\<And>k. bt_get m k = bt_get n k) \<Longrightarrow> m = n"
  by (metis bt_entries_inject bt_get_entries ext ordered_bt_entries ordered_keys_unique)

lemma bt_insert_remove [simp]: "bt_insert k v (bt_remove k m) = bt_insert k v m"
  by (rule bt_eqI) simp

lemma bt_insert_again [simp]: "bt_insert k v (bt_insert k w m) = bt_insert k v m"
  by (rule bt_eqI) simp

lemma bt_remove_insert [simp]: "bt_remove k (bt_insert k v m) = bt_remove k m"
  by (rule bt_eqI) simp

lemma bt_remove_idle: "bt_get m k = None \<Longrightarrow> bt_remove k m = m"
  by (rule bt_eqI) auto

lemma bt_insert_idle: "bt_get m k = Some v \<Longrightarrow> bt_insert k v m = m"
  by (rule bt_eqI) auto

subsection \<open>Keys, values and sizes\<close>

lemma set_bt_keys: "set (bt_keys m) = dom (bt_get m)"
  by (simp add: bt_keys_def bt_get_entries dom_map_of_conv_image_fst)

lemma in_bt_keys_iff [simp]: "k \<in> set (bt_keys m) \<longleftrightarrow> bt_get m k \<noteq> None"
  by (auto simp: set_bt_keys)

lemma finite_dom_bt_get [simp]: "finite (dom (bt_get m))"
  by (metis List.finite_set set_bt_keys)

lemma in_bt_entries_iff: "(k, v) \<in> set (bt_entries m) \<longleftrightarrow> bt_get m k = Some v"
  by (simp add: bt_get_entries ordered_distinct)

lemma in_bt_values_iff: "v \<in> set (bt_values m) \<longleftrightarrow> (\<exists>k. bt_get m k = Some v)"
  unfolding bt_values_def by (auto simp flip: in_bt_entries_iff intro: rev_image_eqI)

lemma bt_values_keys: "bt_values m = map (\<lambda>k. the (bt_get m k)) (bt_keys m)"
proof -
  have "map snd (map (\<lambda>k. (k, the (map_of (bt_entries m) k))) (map fst (bt_entries m))) = map snd (bt_entries m)"
    by (simp only: entries_from_keys ordered_distinct ordered_bt_entries)
  then show ?thesis
    by (simp add: bt_values_def bt_keys_def bt_get_entries comp_def)
qed

lemma bt_len_keys: "bt_len m = card (dom (bt_get m))"
  by (metis bt_keys_def bt_len_def distinct_bt_keys distinct_card length_map set_bt_keys)

lemma bt_len_empty [simp]: "bt_len bt_empty = 0"
  by (simp add: bt_len_def)

lemma bt_keys_empty [simp]: "bt_keys bt_empty = []"
  by (simp add: bt_keys_def)

lemma bt_values_empty [simp]: "bt_values bt_empty = []"
  by (simp add: bt_values_def)

lemma bt_is_empty_iff: "bt_is_empty m \<longleftrightarrow> m = bt_empty"
  by (metis bt_entries_eqs(1) bt_entries_inject bt_is_empty_def)

lemma bt_len_insert:
  "bt_len (bt_insert k v m) = (if bt_get m k = None then Suc (bt_len m) else bt_len m)"
proof -
  have "dom (bt_get (bt_insert k v m)) = insert k (dom (bt_get m))"
    by (auto simp: fun_eq_iff split: if_splits)
  then show ?thesis
    by (auto simp: bt_len_keys card_insert_if)
qed

lemma bt_len_remove:
  "bt_len (bt_remove k m) = (if bt_get m k = None then bt_len m else bt_len m - 1)"
proof -
  have "dom (bt_get (bt_remove k m)) = dom (bt_get m) - {k}"
    by (auto simp: fun_eq_iff split: if_splits)
  then show ?thesis
    by (auto simp: bt_len_keys card_Diff_singleton_if)
qed

subsection \<open>Sums over the values\<close>

definition bt_sum :: "('v \<Rightarrow> nat) \<Rightarrow> ('k::linorder, 'v) btree \<Rightarrow> nat" where
  "bt_sum f m = sum_list (map f (bt_values m))"

lemma bt_sum_empty [simp]: "bt_sum f bt_empty = 0"
  by (simp add: bt_sum_def)

lemma bt_sum_set: "bt_sum f m = (\<Sum>k \<in> dom (bt_get m). f (the (bt_get m k)))"
  by (simp add: bt_sum_def bt_values_keys comp_def sum_list_distinct_conv_sum_set set_bt_keys)

lemma bt_sum_remove:
  "bt_sum f m = bt_sum f (bt_remove k m) + (case bt_get m k of None \<Rightarrow> 0 | Some v \<Rightarrow> f v)"
proof (cases "bt_get m k")
  case None
  then show ?thesis by (simp add: bt_remove_idle)
next
  case (Some v)
  have "dom (bt_get (bt_remove k m)) = dom (bt_get m) - {k}"
    by (auto split: if_splits)
  moreover have "(\<Sum>j \<in> dom (bt_get m) - {k}. f (the (bt_get (bt_remove k m) j)))
      = (\<Sum>j \<in> dom (bt_get m) - {k}. f (the (bt_get m j)))"
    by (rule sum.cong) auto
  ultimately show ?thesis
    using Some by (simp add: bt_sum_set sum.remove [of _ k] domI)
qed

lemma bt_sum_insert: "bt_sum f (bt_insert k v m) = bt_sum f (bt_remove k m) + f v"
  using bt_sum_remove [of f "bt_insert k v m" k] by simp

lemma bt_sum_insert_fresh [simp]:
  "bt_get m k = None \<Longrightarrow> bt_sum f (bt_insert k v m) = bt_sum f m + f v"
  by (simp add: bt_sum_insert bt_remove_idle)

lemma bt_sum_ge: "bt_get m k = Some v \<Longrightarrow> f v \<le> bt_sum f m"
  using bt_sum_remove [of f m k] by simp

lemma bt_sum_zero_iff: "bt_sum f m = 0 \<longleftrightarrow> (\<forall>k v. bt_get m k = Some v \<longrightarrow> f v = 0)"
  by (auto simp: bt_sum_def in_bt_values_iff)

subsection \<open>The contract of an ordered map\<close>

text \<open>
  What the kernel modules use of a \<^verbatim>\<open>BTreeMap\<close>: lookups after insertion and removal, and iteration
  over exactly the present keys in increasing order. From these laws alone the position of the
  least key satisfying a predicate, which several modules search for, is determined.
\<close>

locale ordered_map =
  fixes get :: "'m \<Rightarrow> 'k::linorder \<Rightarrow> 'v option"
    and put :: "'k \<Rightarrow> 'v \<Rightarrow> 'm \<Rightarrow> 'm"
    and del :: "'k \<Rightarrow> 'm \<Rightarrow> 'm"
    and keys :: "'m \<Rightarrow> 'k list"
  assumes get_put: "get (put k v m) k' = (if k' = k then Some v else get m k')"
    and get_del: "get (del k m) k' = (if k' = k then None else get m k')"
    and set_keys: "set (keys m) = {k. get m k \<noteq> None}"
    and keys_increasing: "sorted_wrt (<) (keys m)"
begin

lemma keys_determined: "(\<And>k. get m k = None \<longleftrightarrow> get n k = None) \<Longrightarrow> keys m = keys n"
  by (rule strict_sorted_equal) (auto simp: set_keys keys_increasing)

lemma find_least_key:
  "find p (keys m) = Some k \<longleftrightarrow> get m k \<noteq> None \<and> p k \<and> (\<forall>j. get m j \<noteq> None \<and> p j \<longrightarrow> k \<le> j)"
proof -
  have "sorted_wrt (<) ks \<Longrightarrow>
      find p ks = Some k \<longleftrightarrow> k \<in> set ks \<and> p k \<and> (\<forall>j \<in> set ks. p j \<longrightarrow> k \<le> j)" for ks
  proof (induction ks)
    case (Cons a ks)
    then show ?case
      by (cases "p a") (auto simp: less_imp_le dest: leD)
  qed simp
  then show ?thesis
    using keys_increasing [of m] by (auto simp: set_keys)
qed

lemma find_no_key: "find p (keys m) = None \<longleftrightarrow> (\<forall>k. get m k \<noteq> None \<longrightarrow> \<not> p k)"
  using set_keys [of m] by (auto simp: find_None_iff simp del: not_None_eq)

end

interpretation bt: ordered_map bt_get bt_insert bt_remove bt_keys
  by unfold_locales (auto simp: set_bt_keys)

subsection \<open>Sets\<close>

type_synonym 'k bset = "('k, unit) btree"

abbreviation bs_empty :: "'k::linorder bset" where
  "bs_empty \<equiv> bt_empty"

definition bs_insert :: "'k::linorder \<Rightarrow> 'k bset \<Rightarrow> 'k bset" where
  "bs_insert k s = bt_insert k () s"

definition bs_remove :: "'k::linorder \<Rightarrow> 'k bset \<Rightarrow> 'k bset" where
  "bs_remove k s = bt_remove k s"

definition bs_member :: "'k::linorder bset \<Rightarrow> 'k \<Rightarrow> bool" where
  "bs_member s k = bt_contains s k"

definition bs_elems :: "'k::linorder bset \<Rightarrow> 'k list" where
  "bs_elems s = bt_keys s"

definition bs_first :: "'k::linorder bset \<Rightarrow> 'k option" where
  "bs_first s = (case bs_elems s of [] \<Rightarrow> None | k # _ \<Rightarrow> Some k)"

lemma bs_member_simps [simp]:
  "\<not> bs_member bs_empty k"
  "bs_member (bs_insert k s) k' \<longleftrightarrow> k' = k \<or> bs_member s k'"
  "bs_member (bs_remove k s) k' \<longleftrightarrow> k' \<noteq> k \<and> bs_member s k'"
  by (auto simp: bs_member_def bt_contains_def bs_insert_def bs_remove_def)

lemma set_bs_elems [simp]: "k \<in> set (bs_elems s) \<longleftrightarrow> bs_member s k"
  by (simp add: bs_elems_def bs_member_def bt_contains_def)

lemma bs_eqI: "(\<And>k. bs_member s k = bs_member t k) \<Longrightarrow> s = t"
  by (rule bt_eqI) (auto simp: bs_member_def bt_contains_def, metis old.unit.exhaust option.exhaust)

lemma bs_is_empty_iff: "bt_is_empty s \<longleftrightarrow> (\<forall>k. \<not> bs_member s k)"
  by (metis bs_eqI bs_member_simps(1) bt_is_empty_iff)

lemma bs_first_eq_None [simp]: "bs_first s = None \<longleftrightarrow> s = bs_empty"
  by (auto simp: bs_first_def bs_elems_def bt_keys_def split: list.splits)
    (metis bt_is_empty_def bt_is_empty_iff)

lemma bs_first_member: "bs_first s = Some k \<Longrightarrow> bs_member s k"
  by (auto simp: bs_first_def simp flip: set_bs_elems split: list.splits)

lemma bs_first_least:
  assumes "bs_first s = Some k" "bs_member s j"
  shows "k \<le> j"
proof -
  from assms(1) obtain ks where ks: "bs_elems s = k # ks"
    by (auto simp: bs_first_def split: list.splits)
  moreover have "j \<in> set (bs_elems s)"
    using assms(2) by simp
  ultimately show ?thesis
    using sorted_bt_keys [of s] by (auto simp: bs_elems_def)
qed

end
