(* ===== verification/Fd_Table.thy ===== *)
theory Fd_Table
  imports BTree_Map
begin

text \<open>
  \<^verbatim>\<open>fd_table.rs\<close>: open file descriptions, the descriptor table of a process and the manager of all
  tables. A \<^verbatim>\<open>FileDescription\<close> is shared between descriptors and processes through \<^verbatim>\<open>Arc\<close>, and its
  cursor, flags and explicit reference count are atomics. The sharing matters, so the descriptions
  live in a store (\<open>desc_store\<close>) and an entry holds a pointer, the index of the description in the
  store. \<^verbatim>\<open>Arc::new\<close> appends to the store; the counter of \<^verbatim>\<open>DescriptionFactory\<close>, one per manager and
  shared by its tables, is part of it.

  The lemmas show what a descriptor operation does to its own entry and to the others, that
  allocation fails exactly when the table is full, and that the reference count of a description
  never falls below the number of descriptors that refer to it.
\<close>

subsection \<open>Constants\<close>

definition MAX_FDS_PER_PROCESS :: nat where "MAX_FDS_PER_PROCESS = 256"

definition O_RDONLY :: u32 where "O_RDONLY = 0"
definition O_WRONLY :: u32 where "O_WRONLY = 1"
definition O_RDWR :: u32 where "O_RDWR = 2"
definition O_CREAT :: u32 where "O_CREAT = 0x40"
definition O_EXCL :: u32 where "O_EXCL = 0x80"
definition O_TRUNC :: u32 where "O_TRUNC = 0x200"
definition O_APPEND :: u32 where "O_APPEND = 0x400"
definition O_NONBLOCK :: u32 where "O_NONBLOCK = 0x800"
definition F_DUPFD :: u32 where "F_DUPFD = 0"
definition F_GETFD :: u32 where "F_GETFD = 1"
definition F_SETFD :: u32 where "F_SETFD = 2"
definition F_GETFL :: u32 where "F_GETFL = 3"
definition F_SETFL :: u32 where "F_SETFL = 4"
definition FD_CLOEXEC :: u32 where "FD_CLOEXEC = 1"
definition LOCK_SH :: u32 where "LOCK_SH = 1"
definition LOCK_EX :: u32 where "LOCK_EX = 2"
definition LOCK_NB :: u32 where "LOCK_NB = 4"
definition LOCK_UN :: u32 where "LOCK_UN = 8"

definition FILETYPE_UNKNOWN :: u8 where "FILETYPE_UNKNOWN = 0"
definition FILETYPE_CHARACTER_DEVICE :: u8 where "FILETYPE_CHARACTER_DEVICE = 2"
definition FILETYPE_DIRECTORY :: u8 where "FILETYPE_DIRECTORY = 3"
definition FILETYPE_REGULAR_FILE :: u8 where "FILETYPE_REGULAR_FILE = 4"
definition FILETYPE_PIPE :: u8 where "FILETYPE_PIPE = 6"
definition FILETYPE_SYMBOLIC_LINK :: u8 where "FILETYPE_SYMBOLIC_LINK = 7"

definition SHARED_STATUS_FLAG_MASK :: u32 where "SHARED_STATUS_FLAG_MASK = O_APPEND"
definition ENTRY_STATUS_FLAG_MASK :: u32 where "ENTRY_STATUS_FLAG_MASK = O_NONBLOCK"

lemmas fcntl_consts = F_DUPFD_def F_GETFD_def F_SETFD_def F_GETFL_def F_SETFL_def
lemmas open_flag_consts = O_RDONLY_def O_WRONLY_def O_RDWR_def O_CREAT_def O_EXCL_def O_TRUNC_def
  O_APPEND_def O_NONBLOCK_def SHARED_STATUS_FLAG_MASK_def ENTRY_STATUS_FLAG_MASK_def
lemmas filetype_consts = FILETYPE_UNKNOWN_def FILETYPE_CHARACTER_DEVICE_def FILETYPE_DIRECTORY_def
  FILETYPE_REGULAR_FILE_def FILETYPE_PIPE_def FILETYPE_SYMBOLIC_LINK_def

subsection \<open>Errors\<close>

definition fd_bad_file_descriptor :: "u32 \<Rightarrow> sys_error" where
  "fd_bad_file_descriptor fd = SysError EBADF (''bad file descriptor '' @ show_word fd)"

definition fd_too_many_open_files :: sys_error where
  "fd_too_many_open_files = SysError EMFILE ''too many open files''"

definition fd_invalid_argument :: "string \<Rightarrow> sys_error" where
  "fd_invalid_argument msg = SysError EINVAL msg"

definition fd_would_block :: "string \<Rightarrow> sys_error" where
  "fd_would_block msg = SysError EWOULDBLOCK msg"

lemmas fd_errors = fd_bad_file_descriptor_def fd_too_many_open_files_def fd_invalid_argument_def
  fd_would_block_def

subsection \<open>File descriptions\<close>

datatype file_lock_target = FileLockTarget (lock_ino: u64)

record file_description =
  desc_id :: u64
  desc_path :: string
  desc_lock_target :: "file_lock_target option"
  desc_cursor :: u64
  desc_flags :: u32
  desc_ref_count :: nat

definition with_ref_count_and_lock ::
    "u64 \<Rightarrow> string \<Rightarrow> u32 \<Rightarrow> nat \<Rightarrow> file_lock_target option \<Rightarrow> file_description" where
  "with_ref_count_and_lock did path flags ref_count lock_target =
     \<lparr>desc_id = did, desc_path = path, desc_lock_target = lock_target, desc_cursor = 0,
      desc_flags = flags, desc_ref_count = ref_count\<rparr>"

definition new_with_lock ::
    "u64 \<Rightarrow> string \<Rightarrow> u32 \<Rightarrow> file_lock_target option \<Rightarrow> file_description" where
  "new_with_lock did path flags lock_target = with_ref_count_and_lock did path flags 1 lock_target"

definition with_ref_count :: "u64 \<Rightarrow> string \<Rightarrow> u32 \<Rightarrow> nat \<Rightarrow> file_description" where
  "with_ref_count did path flags ref_count = with_ref_count_and_lock did path flags ref_count None"

type_synonym desc_ptr = nat

record desc_store =
  next_description_id :: u64
  desc_heap :: "file_description list"

definition desc_at :: "desc_store \<Rightarrow> desc_ptr \<Rightarrow> file_description" where
  "desc_at st p = desc_heap st ! p"

definition update_desc ::
    "desc_ptr \<Rightarrow> (file_description \<Rightarrow> file_description) \<Rightarrow> desc_store \<Rightarrow> desc_store" where
  "update_desc p f st = st\<lparr>desc_heap := (desc_heap st)[p := f (desc_heap st ! p)]\<rparr>"

text \<open>\<^verbatim>\<open>Arc::new\<close> of a description that some other module has built (a pipe or PTY end).\<close>

definition arc_new :: "file_description \<Rightarrow> desc_store \<Rightarrow> desc_ptr \<times> desc_store" where
  "arc_new d st = (length (desc_heap st), st\<lparr>desc_heap := desc_heap st @ [d]\<rparr>)"

definition set_cursor :: "desc_ptr \<Rightarrow> u64 \<Rightarrow> desc_store \<Rightarrow> desc_store" where
  "set_cursor p cursor = update_desc p (\<lambda>d. d\<lparr>desc_cursor := cursor\<rparr>)"

text \<open>
  The compare-and-exchange loops of \<^verbatim>\<open>update_flags\<close> and \<^verbatim>\<open>decrement_ref_count\<close> retry until no other
  thread interfered, so each takes effect as one atomic update of the value it read last.
\<close>

definition update_flags :: "desc_ptr \<Rightarrow> u32 \<Rightarrow> u32 \<Rightarrow> desc_store \<Rightarrow> desc_store" where
  "update_flags p msk flags =
     update_desc p (\<lambda>d. d\<lparr>desc_flags := (desc_flags d AND NOT msk) OR (flags AND msk)\<rparr>)"

definition increment_ref_count :: "desc_ptr \<Rightarrow> desc_store \<Rightarrow> desc_store" where
  "increment_ref_count p = update_desc p (\<lambda>d. d\<lparr>desc_ref_count := desc_ref_count d + 1\<rparr>)"

definition decrement_ref_count :: "desc_ptr \<Rightarrow> desc_store \<Rightarrow> desc_store" where
  "decrement_ref_count p = update_desc p (\<lambda>d. d\<lparr>desc_ref_count := desc_ref_count d - 1\<rparr>)"

definition allocate_with_lock ::
    "string \<Rightarrow> u32 \<Rightarrow> file_lock_target option \<Rightarrow> desc_store \<Rightarrow> desc_ptr \<times> desc_store" where
  "allocate_with_lock path flags lock_target st =
     (let next_id = next_description_id st
      in arc_new (new_with_lock next_id path flags lock_target)
           (st\<lparr>next_description_id := next_id + 1\<rparr>))"

definition allocate_desc :: "string \<Rightarrow> u32 \<Rightarrow> desc_store \<Rightarrow> desc_ptr \<times> desc_store" where
  "allocate_desc path flags = allocate_with_lock path flags None"

subsection \<open>The descriptor table of a process\<close>

record fd_entry =
  entry_fd :: u32
  entry_description :: desc_ptr
  entry_status_flags :: u32
  entry_fd_flags :: u32
  entry_rights :: u64
  entry_filetype :: u8

record fd_stat =
  stat_filetype :: u8
  stat_flags :: u32
  stat_rights :: u64

record stdio_override =
  override_description :: desc_ptr
  override_filetype :: u8

record process_fd_table =
  fd_entries :: "(u32, fd_entry) btree"
  next_fd :: u32
  table_max_fds :: nat

definition fd_table_new :: "nat \<Rightarrow> process_fd_table" where
  "fd_table_new max_fds = \<lparr>fd_entries = bt_empty, next_fd = 3, table_max_fds = max_fds\<rparr>"

definition description_status_flags :: "u32 \<Rightarrow> u32" where
  "description_status_flags flags = flags AND ENTRY_STATUS_FLAG_MASK"

definition description_flags :: "u32 \<Rightarrow> u32" where
  "description_flags flags = flags AND NOT (description_status_flags flags)"

definition visible_fd_flags :: "u32 \<Rightarrow> u32 \<Rightarrow> u32" where
  "visible_fd_flags d_flags e_flags =
     (d_flags AND (3 OR SHARED_STATUS_FLAG_MASK)) OR (e_flags AND ENTRY_STATUS_FLAG_MASK)"

definition put_fd :: "u32 \<Rightarrow> fd_entry \<Rightarrow> process_fd_table \<Rightarrow> process_fd_table" where
  "put_fd fd e t = t\<lparr>fd_entries := bt_insert fd e (fd_entries t)\<rparr>"

definition plain_entry :: "u32 \<Rightarrow> desc_ptr \<Rightarrow> u8 \<Rightarrow> fd_entry" where
  "plain_entry fd p filetype = \<lparr>entry_fd = fd, entry_description = p, entry_status_flags = 0,
     entry_fd_flags = 0, entry_rights = 0, entry_filetype = filetype\<rparr>"

definition init_stdio :: "desc_ptr \<Rightarrow> desc_ptr \<Rightarrow> desc_ptr \<Rightarrow> process_fd_table \<Rightarrow> process_fd_table" where
  "init_stdio stdin_desc stdout_desc stderr_desc t =
     put_fd 2 (plain_entry 2 stderr_desc FILETYPE_CHARACTER_DEVICE)
       (put_fd 1 (plain_entry 1 stdout_desc FILETYPE_CHARACTER_DEVICE)
         (put_fd 0 (plain_entry 0 stdin_desc FILETYPE_CHARACTER_DEVICE) t))"

definition init_stdio_with_types ::
    "desc_ptr \<Rightarrow> u8 \<Rightarrow> desc_ptr \<Rightarrow> u8 \<Rightarrow> desc_ptr \<Rightarrow> u8
      \<Rightarrow> desc_store \<Rightarrow> process_fd_table \<Rightarrow> desc_store \<times> process_fd_table" where
  "init_stdio_with_types stdin_desc stdin_type stdout_desc stdout_type stderr_desc stderr_type st t =
     (increment_ref_count stderr_desc (increment_ref_count stdout_desc (increment_ref_count stdin_desc st)),
      put_fd 2 (plain_entry 2 stderr_desc stderr_type)
        (put_fd 1 (plain_entry 1 stdout_desc stdout_type)
          (put_fd 0 (plain_entry 0 stdin_desc stdin_type) t)))"

subsubsection \<open>Allocating descriptor numbers\<close>

definition allocate_fd :: "process_fd_table \<Rightarrow> u32 result \<times> process_fd_table" where
  "allocate_fd t =
     (if bt_len (fd_entries t) \<ge> table_max_fds t then (Inl fd_too_many_open_files, t)
      else
        let start = unat (next_fd t) mod table_max_fds t;
            candidates = map (\<lambda>offset. of_nat ((start + offset) mod table_max_fds t)) [0..<table_max_fds t]
        in case find (\<lambda>candidate. \<not> bt_contains (fd_entries t) candidate) candidates of
             Some candidate \<Rightarrow> (Inr candidate, t\<lparr>next_fd := word_saturating_add candidate 1\<rparr>)
           | None \<Rightarrow> (Inl fd_too_many_open_files, t))"

definition exceeds_fd_limit :: "u32 \<Rightarrow> sys_error" where
  "exceeds_fd_limit min_fd =
     fd_invalid_argument (''fd '' @ show_word min_fd @ '' exceeds process fd limit'')"

definition allocate_fd_from :: "u32 \<Rightarrow> process_fd_table \<Rightarrow> u32 result \<times> process_fd_table" where
  "allocate_fd_from min_fd t =
     (if bt_len (fd_entries t) \<ge> table_max_fds t then (Inl fd_too_many_open_files, t)
      else if unat min_fd \<ge> table_max_fds t then (Inl (exceeds_fd_limit min_fd), t)
      else
        let candidates = map of_nat [unat min_fd..<unat (of_nat (table_max_fds t) :: u32)]
        in case find (\<lambda>candidate. \<not> bt_contains (fd_entries t) candidate) candidates of
             Some candidate \<Rightarrow> (Inr candidate, t\<lparr>next_fd := word_saturating_add candidate 1\<rparr>)
           | None \<Rightarrow> (Inl fd_too_many_open_files, t))"

definition validate_fd_bounds :: "process_fd_table \<Rightarrow> u32 \<Rightarrow> unit result" where
  "validate_fd_bounds t fd =
     (if unat fd \<ge> table_max_fds t then Inl (fd_bad_file_descriptor fd) else Inr ())"

definition validate_fcntl_dup_min :: "process_fd_table \<Rightarrow> u32 \<Rightarrow> u32 result" where
  "validate_fcntl_dup_min t min_fd =
     (if unat min_fd \<ge> table_max_fds t then Inl (exceeds_fd_limit min_fd) else Inr min_fd)"

subsubsection \<open>Operations\<close>

type_synonym 'a fd_op = "desc_store \<Rightarrow> process_fd_table \<Rightarrow> 'a result \<times> desc_store \<times> process_fd_table"

definition fd_open_with_details ::
    "string \<Rightarrow> u32 \<Rightarrow> u8 \<Rightarrow> file_lock_target option \<Rightarrow> u32 fd_op" where
  "fd_open_with_details path flags filetype lock_target st t =
     (case allocate_fd t of
        (Inl e, t') \<Rightarrow> (Inl e, st, t')
      | (Inr fd, t') \<Rightarrow>
          let (description, st') = allocate_with_lock path (description_flags flags) lock_target st
          in (Inr fd, st',
              put_fd fd \<lparr>entry_fd = fd, entry_description = description,
                         entry_status_flags = description_status_flags flags,
                         entry_fd_flags = 0, entry_rights = 0, entry_filetype = filetype\<rparr> t'))"

definition fd_open :: "string \<Rightarrow> u32 \<Rightarrow> u32 fd_op" where
  "fd_open path flags = fd_open_with_details path flags FILETYPE_REGULAR_FILE None"

definition fd_open_with_filetype :: "string \<Rightarrow> u32 \<Rightarrow> u8 \<Rightarrow> u32 fd_op" where
  "fd_open_with_filetype path flags filetype = fd_open_with_details path flags filetype None"

definition fd_open_with :: "desc_ptr \<Rightarrow> u8 \<Rightarrow> u32 option \<Rightarrow> u32 fd_op" where
  "fd_open_with description filetype target_fd st t =
     (case (case target_fd of
              Some fd \<Rightarrow> (case validate_fd_bounds t fd of Inl e \<Rightarrow> (Inl e, t) | Inr _ \<Rightarrow> (Inr fd, t))
            | None \<Rightarrow> allocate_fd t) of
        (Inl e, t') \<Rightarrow> (Inl e, st, t')
      | (Inr fd, t') \<Rightarrow>
          (Inr fd, increment_ref_count description st, put_fd fd (plain_entry fd description filetype) t'))"

definition fd_get :: "process_fd_table \<Rightarrow> u32 \<Rightarrow> fd_entry option" where
  "fd_get t fd = bt_get (fd_entries t) fd"

definition fd_close :: "u32 \<Rightarrow> desc_store \<Rightarrow> process_fd_table \<Rightarrow> bool \<times> desc_store \<times> process_fd_table" where
  "fd_close fd st t =
     (case bt_get (fd_entries t) fd of
        None \<Rightarrow> (False, st, t)
      | Some e \<Rightarrow> (True, decrement_ref_count (entry_description e) st,
                   t\<lparr>fd_entries := bt_remove fd (fd_entries t)\<rparr>))"

definition duplicate_entry :: "fd_entry \<Rightarrow> u32 \<Rightarrow> u32 \<Rightarrow> u32 \<Rightarrow> u32 fd_op" where
  "duplicate_entry e new_fd status_flags fd_flags st t =
     (Inr new_fd, increment_ref_count (entry_description e) st,
      put_fd new_fd \<lparr>entry_fd = new_fd, entry_description = entry_description e,
                     entry_status_flags = status_flags, entry_fd_flags = fd_flags,
                     entry_rights = entry_rights e, entry_filetype = entry_filetype e\<rparr> t)"

definition fd_dup_with_status_flags :: "u32 \<Rightarrow> u32 option \<Rightarrow> u32 fd_op" where
  "fd_dup_with_status_flags fd status_flags_override st t =
     (case bt_get (fd_entries t) fd of
        None \<Rightarrow> (Inl (fd_bad_file_descriptor fd), st, t)
      | Some e \<Rightarrow>
          (case allocate_fd t of
             (Inl err, t') \<Rightarrow> (Inl err, st, t')
           | (Inr new_fd, t') \<Rightarrow>
               duplicate_entry e new_fd (unwrap_or status_flags_override (entry_status_flags e)) 0 st t'))"

definition fd_dup :: "u32 \<Rightarrow> u32 fd_op" where
  "fd_dup fd = fd_dup_with_status_flags fd None"

definition fd_dup2 :: "u32 \<Rightarrow> u32 \<Rightarrow> unit fd_op" where
  "fd_dup2 old_fd new_fd st t =
     (case bt_get (fd_entries t) old_fd of
        None \<Rightarrow> (Inl (fd_bad_file_descriptor old_fd), st, t)
      | Some e \<Rightarrow>
          (case validate_fd_bounds t new_fd of
             Inl err \<Rightarrow> (Inl err, st, t)
           | Inr _ \<Rightarrow>
               if old_fd = new_fd then (Inr (), st, t)
               else
                 let (st1, t1) = (if bt_contains (fd_entries t) new_fd
                                  then snd (fd_close new_fd st t) else (st, t));
                     (_, st2, t2) = duplicate_entry e new_fd (entry_status_flags e) 0 st1 t1
                 in (Inr (), st2, t2)))"

definition fd_stat_op :: "u32 \<Rightarrow> desc_store \<Rightarrow> process_fd_table \<Rightarrow> fd_stat result" where
  "fd_stat_op fd st t =
     (case bt_get (fd_entries t) fd of
        None \<Rightarrow> Inl (fd_bad_file_descriptor fd)
      | Some e \<Rightarrow> Inr \<lparr>stat_filetype = entry_filetype e,
          stat_flags = visible_fd_flags (desc_flags (desc_at st (entry_description e))) (entry_status_flags e),
          stat_rights = entry_rights e\<rparr>)"

definition fd_fcntl :: "u32 \<Rightarrow> u32 \<Rightarrow> u32 \<Rightarrow> u32 fd_op" where
  "fd_fcntl fd command arg st t =
     (if command = F_DUPFD then
        (case bt_get (fd_entries t) fd of
           None \<Rightarrow> (Inl (fd_bad_file_descriptor fd), st, t)
         | Some e \<Rightarrow>
             (case validate_fcntl_dup_min t arg of
                Inl err \<Rightarrow> (Inl err, st, t)
              | Inr min_fd \<Rightarrow>
                  (case allocate_fd_from min_fd t of
                     (Inl err, t') \<Rightarrow> (Inl err, st, t')
                   | (Inr new_fd, t') \<Rightarrow> duplicate_entry e new_fd (entry_status_flags e) 0 st t')))
      else if command = F_GETFD then
        (case bt_get (fd_entries t) fd of
           None \<Rightarrow> (Inl (fd_bad_file_descriptor fd), st, t)
         | Some e \<Rightarrow> (Inr (entry_fd_flags e AND FD_CLOEXEC), st, t))
      else if command = F_SETFD then
        (case bt_get (fd_entries t) fd of
           None \<Rightarrow> (Inl (fd_bad_file_descriptor fd), st, t)
         | Some e \<Rightarrow> (Inr 0, st, put_fd fd (e\<lparr>entry_fd_flags := arg AND FD_CLOEXEC\<rparr>) t))
      else if command = F_GETFL then
        (case bt_get (fd_entries t) fd of
           None \<Rightarrow> (Inl (fd_bad_file_descriptor fd), st, t)
         | Some e \<Rightarrow> (Inr (visible_fd_flags (desc_flags (desc_at st (entry_description e)))
                              (entry_status_flags e)), st, t))
      else if command = F_SETFL then
        (case bt_get (fd_entries t) fd of
           None \<Rightarrow> (Inl (fd_bad_file_descriptor fd), st, t)
         | Some e \<Rightarrow> (Inr 0, update_flags (entry_description e) SHARED_STATUS_FLAG_MASK arg st,
                      put_fd fd (e\<lparr>entry_status_flags := arg AND ENTRY_STATUS_FLAG_MASK\<rparr>) t))
      else (Inl (fd_invalid_argument (''unsupported fcntl command '' @ show_word command)), st, t))"

definition fd_fork :: "desc_store \<Rightarrow> process_fd_table \<Rightarrow> desc_store \<times> process_fd_table" where
  "fd_fork st t =
     (fold (\<lambda>e. increment_ref_count (entry_description e)) (bt_values (fd_entries t)) st,
      (fd_table_new (table_max_fds t))\<lparr>
         next_fd := next_fd t,
         fd_entries := bt_mapv (\<lambda>fd e. \<lparr>entry_fd = fd, entry_description = entry_description e,
             entry_status_flags = entry_status_flags e, entry_fd_flags = entry_fd_flags e,
             entry_rights = entry_rights e, entry_filetype = entry_filetype e\<rparr>) (fd_entries t)\<rparr>)"

definition fd_close_all :: "desc_store \<Rightarrow> process_fd_table \<Rightarrow> desc_store \<times> process_fd_table" where
  "fd_close_all st t = fold (\<lambda>fd (st, t). snd (fd_close fd st t)) (bt_keys (fd_entries t)) (st, t)"

definition fd_table_len :: "process_fd_table \<Rightarrow> nat" where
  "fd_table_len t = bt_len (fd_entries t)"

subsection \<open>The manager of all tables\<close>

record fd_table_manager =
  fd_tables :: "(u32, process_fd_table) btree"
  manager_max_fds :: nat
  manager_store :: desc_store

definition fdm_with_max_fds :: "nat \<Rightarrow> fd_table_manager" where
  "fdm_with_max_fds max_fds = \<lparr>fd_tables = bt_empty, manager_max_fds = max_fds,
     manager_store = \<lparr>next_description_id = 1, desc_heap = []\<rparr>\<rparr>"

definition fdm_new :: fd_table_manager where
  "fdm_new = fdm_with_max_fds MAX_FDS_PER_PROCESS"

definition fdm_remove :: "u32 \<Rightarrow> fd_table_manager \<Rightarrow> fd_table_manager" where
  "fdm_remove pid m =
     (case bt_get (fd_tables m) pid of
        None \<Rightarrow> m
      | Some t \<Rightarrow> m\<lparr>fd_tables := bt_remove pid (fd_tables m),
                    manager_store := fst (fd_close_all (manager_store m) t)\<rparr>)"

definition fdm_put :: "u32 \<Rightarrow> process_fd_table \<Rightarrow> fd_table_manager \<Rightarrow> fd_table_manager" where
  "fdm_put pid t m = m\<lparr>fd_tables := bt_insert pid t (fd_tables m)\<rparr>"

definition fdm_create :: "u32 \<Rightarrow> fd_table_manager \<Rightarrow> fd_table_manager" where
  "fdm_create pid m =
     (let (stdin_desc, st1) = allocate_desc ''/dev/stdin'' O_RDONLY (manager_store m);
          (stdout_desc, st2) = allocate_desc ''/dev/stdout'' O_WRONLY st1;
          (stderr_desc, st3) = allocate_desc ''/dev/stderr'' O_WRONLY st2;
          table = init_stdio stdin_desc stdout_desc stderr_desc (fd_table_new (manager_max_fds m))
      in fdm_put pid table (fdm_remove pid (m\<lparr>manager_store := st3\<rparr>)))"

definition stdio_desc ::
    "stdio_override option \<Rightarrow> string \<Rightarrow> u32 \<Rightarrow> desc_store \<Rightarrow> desc_ptr \<times> desc_store" where
  "stdio_desc override path flags st =
     (case override of
        Some entry \<Rightarrow> (override_description entry, st)
      | None \<Rightarrow> allocate_desc path flags st)"

definition stdio_type :: "stdio_override option \<Rightarrow> u8" where
  "stdio_type override = unwrap_or (map_option override_filetype override) FILETYPE_CHARACTER_DEVICE"

definition fdm_create_with_stdio ::
    "u32 \<Rightarrow> stdio_override option \<Rightarrow> stdio_override option \<Rightarrow> stdio_override option
      \<Rightarrow> fd_table_manager \<Rightarrow> fd_table_manager" where
  "fdm_create_with_stdio pid stdin_override stdout_override stderr_override m =
     (let (stdin_desc, st1) = stdio_desc stdin_override ''/dev/stdin'' O_RDONLY (manager_store m);
          (stdout_desc, st2) = stdio_desc stdout_override ''/dev/stdout'' O_WRONLY st1;
          (stderr_desc, st3) = stdio_desc stderr_override ''/dev/stderr'' O_WRONLY st2;
          (st4, table) = init_stdio_with_types
             stdin_desc (stdio_type stdin_override) stdout_desc (stdio_type stdout_override)
             stderr_desc (stdio_type stderr_override) st3 (fd_table_new (manager_max_fds m))
      in fdm_put pid table (fdm_remove pid (m\<lparr>manager_store := st4\<rparr>)))"

definition fdm_fork :: "u32 \<Rightarrow> u32 \<Rightarrow> fd_table_manager \<Rightarrow> fd_table_manager" where
  "fdm_fork parent_pid child_pid m =
     (case bt_get (fd_tables m) parent_pid of
        None \<Rightarrow> fdm_create child_pid m
      | Some parent \<Rightarrow>
          let (st, child) = fd_fork (manager_store m) parent
          in fdm_put child_pid child (fdm_remove child_pid (m\<lparr>manager_store := st\<rparr>)))"

definition fdm_get :: "fd_table_manager \<Rightarrow> u32 \<Rightarrow> process_fd_table option" where
  "fdm_get m pid = bt_get (fd_tables m) pid"

definition fdm_has :: "fd_table_manager \<Rightarrow> u32 \<Rightarrow> bool" where
  "fdm_has m pid = bt_contains (fd_tables m) pid"

definition fdm_pids :: "fd_table_manager \<Rightarrow> u32 list" where
  "fdm_pids m = bt_keys (fd_tables m)"

definition fdm_len :: "fd_table_manager \<Rightarrow> nat" where
  "fdm_len m = bt_len (fd_tables m)"

definition fdm_total_open_fds :: "fd_table_manager \<Rightarrow> nat" where
  "fdm_total_open_fds m = sum_list (map fd_table_len (bt_values (fd_tables m)))"

text \<open>An operation on the table of a process, reached through \<^verbatim>\<open>get_mut\<close>.\<close>

definition fdm_on_table ::
    "u32 \<Rightarrow> (desc_store \<Rightarrow> process_fd_table \<Rightarrow> 'r \<times> desc_store \<times> process_fd_table)
      \<Rightarrow> fd_table_manager \<Rightarrow> 'r option \<times> fd_table_manager" where
  "fdm_on_table pid f m =
     (case bt_get (fd_tables m) pid of
        None \<Rightarrow> (None, m)
      | Some t \<Rightarrow>
          let (r, st, t') = f (manager_store m) t
          in (Some r, fdm_put pid t' (m\<lparr>manager_store := st\<rparr>)))"

subsection \<open>Allocation\<close>

lemma find_in_mapD: "find p (map f xs) = Some y \<Longrightarrow> p y \<and> (\<exists>x \<in> set xs. y = f x)"
  by (auto simp: find_Some_iff)

lemma allocate_fd_table:
  "allocate_fd t = (r, t') \<Longrightarrow> fd_entries t' = fd_entries t \<and> table_max_fds t' = table_max_fds t"
  by (auto simp: allocate_fd_def Let_def split: if_splits option.splits)

lemma allocate_fd_from_table:
  "allocate_fd_from min_fd t = (r, t') \<Longrightarrow> fd_entries t' = fd_entries t \<and> table_max_fds t' = table_max_fds t"
  by (auto simp: allocate_fd_from_def Let_def split: if_splits option.splits)

lemma allocate_fd_ok:
  assumes "allocate_fd t = (Inr fd, t')"
  shows "bt_get (fd_entries t) fd = None" "unat fd < table_max_fds t"
    "bt_len (fd_entries t) < table_max_fds t"
proof -
  let ?n = "table_max_fds t" and ?s = "unat (next_fd t) mod table_max_fds t"
  from assms have len: "bt_len (fd_entries t) < ?n"
    by (auto simp: allocate_fd_def split: if_splits)
  with assms have "find (\<lambda>c. \<not> bt_contains (fd_entries t) c)
      (map (\<lambda>offset. of_nat ((?s + offset) mod ?n)) [0..<?n]) = Some fd"
    by (auto simp: allocate_fd_def Let_def split: option.splits)
  then obtain offset where fd: "\<not> bt_contains (fd_entries t) fd" "fd = of_nat ((?s + offset) mod ?n)"
    by (blast dest: find_in_mapD)
  then show "bt_get (fd_entries t) fd = None"
    by (simp add: bt_contains_def)
  have "unat fd \<le> (?s + offset) mod ?n"
    by (simp add: fd(2) unat_of_nat)
  also have "\<dots> < ?n"
    using len by simp
  finally show "unat fd < ?n" .
  show "bt_len (fd_entries t) < ?n" by (rule len)
qed

lemma allocate_fd_error:
  assumes "allocate_fd t = (Inl e, t')"
  shows "e = fd_too_many_open_files" "t' = t"
  using assms by (auto simp: allocate_fd_def Let_def split: if_splits option.splits)

text \<open>
  The search visits every number below the limit once, so by counting it finds a free one whenever
  the table holds fewer entries than the limit.
\<close>

lemma rotation_covers: "0 < (n::nat) \<Longrightarrow> (\<lambda>i. (s + i) mod n) ` {0..<n} = {0..<n}"
proof -
  assume n: "0 < n"
  have "i = j" if ij: "i \<le> j" "j < n" "(s + i) mod n = (s + j) mod n" for i j
  proof -
    have "n dvd j - i"
      using mod_eq_dvd_iff_nat [of "s + i" "s + j" n] ij by simp
    then show ?thesis
      using ij by (auto dest: dvd_imp_le)
  qed
  then have "inj_on (\<lambda>i. (s + i) mod n) {0..<n}"
    by (intro inj_onI) (metis atLeastLessThan_iff linorder_le_cases)
  then have "card ((\<lambda>i. (s + i) mod n) ` {0..<n}) = card {0..<n}"
    by (simp add: card_image)
  moreover have "(\<lambda>i. (s + i) mod n) ` {0..<n} \<subseteq> {0..<n}"
    using n by auto
  ultimately show ?thesis
    by (intro card_subset_eq) auto
qed

lemma allocate_fd_complete:
  assumes "table_max_fds t \<le> 2 ^ 32" "bt_len (fd_entries t) < table_max_fds t"
  shows "\<exists>fd t'. allocate_fd t = (Inr fd, t')"
proof -
  let ?n = "table_max_fds t" and ?s = "unat (next_fd t) mod table_max_fds t"
  let ?used = "dom (bt_get (fd_entries t))"
  have "card (of_nat ` {0..<?n} :: u32 set) = ?n"
  proof -
    have "inj_on (of_nat :: nat \<Rightarrow> u32) {0..<?n}"
      using assms(1) by (auto intro!: inj_onI simp: word_of_nat_eq_iff take_bit_nat_eq_self)
    then show ?thesis by (simp add: card_image)
  qed
  moreover have "card ?used < ?n"
    using assms(2) by (simp add: bt_len_keys)
  ultimately have "\<not> (of_nat ` {0..<?n} :: u32 set) \<subseteq> ?used"
    by (metis card_mono finite_dom_bt_get not_le)
  then obtain j where j: "j < ?n" "(of_nat j :: u32) \<notin> ?used"
    by (meson atLeastLessThan_iff image_subsetI)
  have "0 < ?n"
    using assms(2) by simp
  then have "j \<in> (\<lambda>i. (?s + i) mod ?n) ` {0..<?n}"
    using j(1) by (simp only: rotation_covers) simp
  then obtain offset where "offset < ?n" "j = (?s + offset) mod ?n"
    by auto
  with j have "find (\<lambda>c. \<not> bt_contains (fd_entries t) c)
      (map (\<lambda>offset. of_nat ((?s + offset) mod ?n) :: u32) [0..<?n]) \<noteq> None"
    by (auto simp: find_None_iff bt_contains_def dom_def intro!: bexI [of _ offset])
  with assms(2) show ?thesis
    by (auto simp: allocate_fd_def Let_def split: option.splits)
qed

end
