(* ===== verification/Fd_Refs.thy ===== *)
theory Fd_Refs
  imports Fd_Table
begin

text \<open>
  Reference counting of file descriptions. The kernel releases the pipe, PTY and lock resources of
  a description when its count reaches zero (\<^verbatim>\<open>close_special_resource_if_needed\<close> in \<^verbatim>\<open>kernel.rs\<close>), so
  the count must never be below the number of descriptors, over all processes, that still refer to
  it. The first part relates every table operation to the counts; the second lifts this to the
  manager as an invariant of everything its clients can do, and states which operations keep the
  count exact.
\<close>

subsection \<open>Counts and references\<close>

definition ref_count_of :: "desc_store \<Rightarrow> desc_ptr \<Rightarrow> nat" where
  "ref_count_of st p = (if p < length (desc_heap st) then desc_ref_count (desc_heap st ! p) else 0)"

definition entry_refs :: "desc_ptr \<Rightarrow> fd_entry \<Rightarrow> nat" where
  "entry_refs p e = (if entry_description e = p then 1 else 0)"

definition table_refs :: "desc_ptr \<Rightarrow> process_fd_table \<Rightarrow> nat" where
  "table_refs p t = bt_sum (entry_refs p) (fd_entries t)"

definition table_wf :: "desc_store \<Rightarrow> process_fd_table \<Rightarrow> bool" where
  "table_wf st t \<longleftrightarrow> (\<forall>fd e. bt_get (fd_entries t) fd = Some e \<longrightarrow>
     entry_fd e = fd \<and> entry_description e < length (desc_heap st))"

lemma length_update_desc [simp]: "length (desc_heap (update_desc p f st)) = length (desc_heap st)"
  by (simp add: update_desc_def)

lemma ref_count_of_update:
  "p < length (desc_heap st) \<Longrightarrow> ref_count_of (update_desc p f st) q =
     (if q = p then desc_ref_count (f (desc_heap st ! p)) else ref_count_of st q)"
  by (simp add: ref_count_of_def update_desc_def nth_list_update)

lemma heap_length_simps [simp]:
  "length (desc_heap (increment_ref_count p st)) = length (desc_heap st)"
  "length (desc_heap (decrement_ref_count p st)) = length (desc_heap st)"
  "length (desc_heap (update_flags p m f st)) = length (desc_heap st)"
  "length (desc_heap (set_cursor p c st)) = length (desc_heap st)"
  by (simp_all add: increment_ref_count_def decrement_ref_count_def update_flags_def set_cursor_def)

lemma ref_count_of_increment [simp]:
  "p < length (desc_heap st) \<Longrightarrow>
     ref_count_of (increment_ref_count p st) q = ref_count_of st q + (if q = p then 1 else 0)"
  by (simp add: increment_ref_count_def ref_count_of_update) (simp add: ref_count_of_def)

lemma ref_count_of_decrement [simp]:
  "p < length (desc_heap st) \<Longrightarrow>
     ref_count_of (decrement_ref_count p st) q = ref_count_of st q - (if q = p then 1 else 0)"
  by (simp add: decrement_ref_count_def ref_count_of_update) (simp add: ref_count_of_def)

lemma ref_count_of_update_flags [simp]: "ref_count_of (update_flags p m f st) q = ref_count_of st q"
  by (cases "q = p") (simp_all add: update_flags_def ref_count_of_def update_desc_def)

lemma ref_count_of_set_cursor [simp]: "ref_count_of (set_cursor p c st) q = ref_count_of st q"
  by (cases "q = p") (simp_all add: set_cursor_def ref_count_of_def update_desc_def)

lemma ref_count_of_append:
  "ref_count_of (st\<lparr>desc_heap := desc_heap st @ [d]\<rparr>) q =
     (if q = length (desc_heap st) then desc_ref_count d else ref_count_of st q)"
  by (auto simp: ref_count_of_def nth_append)

lemma allocate_with_lock_eqs:
  assumes "allocate_with_lock path flags lock st = (p, st')"
  shows "p = length (desc_heap st)" "length (desc_heap st') = Suc (length (desc_heap st))"
    "ref_count_of st' q = (if q = p then 1 else ref_count_of st q)"
  using assms
  by (auto simp: allocate_with_lock_def arc_new_def new_with_lock_def with_ref_count_and_lock_def
      Let_def ref_count_of_def nth_append)

lemma table_refs_put:
  "table_refs p (put_fd fd e t) + (case bt_get (fd_entries t) fd of None \<Rightarrow> 0 | Some e' \<Rightarrow> entry_refs p e')
     = table_refs p t + entry_refs p e"
  using bt_sum_remove [of "entry_refs p" "fd_entries t" fd]
  by (simp add: table_refs_def put_fd_def bt_sum_insert)

lemma table_refs_unused:
  "table_wf st t \<Longrightarrow> table_refs (length (desc_heap st)) t = 0"
  by (fastforce simp: table_refs_def bt_sum_zero_iff table_wf_def entry_refs_def)

lemma table_wf_put:
  "table_wf st t \<Longrightarrow> entry_fd e = fd \<Longrightarrow> entry_description e < length (desc_heap st) \<Longrightarrow>
     table_wf st (put_fd fd e t)"
  by (auto simp: table_wf_def put_fd_def)

lemma table_wf_mono:
  "table_wf st t \<Longrightarrow> length (desc_heap st) \<le> length (desc_heap st') \<Longrightarrow> table_wf st' t"
  by (auto simp: table_wf_def dest: order_less_le_trans)

lemma table_wf_cong: "fd_entries t' = fd_entries t \<Longrightarrow> table_wf st t' = table_wf st t"
  by (simp add: table_wf_def)

lemma table_refs_cong: "fd_entries t' = fd_entries t \<Longrightarrow> table_refs p t' = table_refs p t"
  by (simp add: table_refs_def)

subsection \<open>Balanced operations\<close>

text \<open>
  An operation is balanced when the count of every description changes exactly as the number of
  references of this table does.
\<close>

definition fd_balanced ::
    "desc_store \<Rightarrow> process_fd_table \<Rightarrow> desc_store \<Rightarrow> process_fd_table \<Rightarrow> bool" where
  "fd_balanced st t st' t' \<longleftrightarrow>
     length (desc_heap st) \<le> length (desc_heap st') \<and> table_wf st' t' \<and>
     (\<forall>p. ref_count_of st' p + table_refs p t = ref_count_of st p + table_refs p t')"

lemma fd_balanced_refl: "table_wf st t \<Longrightarrow> fd_balanced st t st t"
  by (simp add: fd_balanced_def)

lemma fd_balancedD:
  assumes "fd_balanced st t st' t'"
  shows "length (desc_heap st) \<le> length (desc_heap st')" "table_wf st' t'"
    "ref_count_of st' p + table_refs p t = ref_count_of st p + table_refs p t'"
  using assms by (auto simp: fd_balanced_def)

lemma fd_balanced_trans:
  assumes "fd_balanced st t st1 t1" "fd_balanced st1 t1 st2 t2"
  shows "fd_balanced st t st2 t2"
proof -
  have "ref_count_of st2 p + table_refs p t = ref_count_of st p + table_refs p t2" for p
    using fd_balancedD(3) [OF assms(1), of p] fd_balancedD(3) [OF assms(2), of p] by linarith
  then show ?thesis
    using fd_balancedD(1,2) [OF assms(1)] fd_balancedD(1,2) [OF assms(2)] by (simp add: fd_balanced_def)
qed

lemma fd_balanced_cong:
  "fd_entries t1 = fd_entries t \<Longrightarrow> fd_balanced st t1 st' t' = fd_balanced st t st' t'"
  by (simp add: fd_balanced_def table_refs_cong [of t1 t])

lemma fd_balanced_put_fresh:
  assumes "table_wf st t" "bt_get (fd_entries t) fd = None" "entry_fd e = fd"
    "entry_description e < length (desc_heap st)"
  shows "fd_balanced st t (increment_ref_count (entry_description e) st) (put_fd fd e t)"
proof -
  have "table_wf (increment_ref_count (entry_description e) st) t"
    by (rule table_wf_mono [OF assms(1)]) simp
  then have "table_wf (increment_ref_count (entry_description e) st) (put_fd fd e t)"
    using assms by (intro table_wf_put) simp_all
  then show ?thesis
    using assms(2,4) table_refs_put [of _ fd e t] by (simp add: fd_balanced_def entry_refs_def)
qed

lemma fd_balanced_close:
  assumes "table_wf st t" "\<And>p. table_refs p t \<le> ref_count_of st p" "fd_close fd st t = (r, st', t')"
  shows "fd_balanced st t st' t'"
proof (cases "bt_get (fd_entries t) fd")
  case None
  with assms show ?thesis by (simp add: fd_close_def fd_balanced_refl)
next
  case (Some e)
  let ?q = "entry_description e"
  have st': "st' = decrement_ref_count ?q st" and t': "t' = t\<lparr>fd_entries := bt_remove fd (fd_entries t)\<rparr>"
    using Some assms(3) by (auto simp: fd_close_def)
  have q: "?q < length (desc_heap st)"
    using assms(1) Some by (auto simp: table_wf_def)
  have refs: "table_refs p t = table_refs p t' + entry_refs p e" for p
    using bt_sum_remove [of "entry_refs p" "fd_entries t" fd] Some by (simp add: table_refs_def t')
  have "table_wf st' t'"
    using assms(1) by (auto simp: st' t' table_wf_def)
  moreover have "ref_count_of st' p + table_refs p t = ref_count_of st p + table_refs p t'" for p
    using refs [of p] assms(2) [of p] q by (auto simp: st' entry_refs_def)
  ultimately show ?thesis
    by (simp add: fd_balanced_def st')
qed

lemma fd_balanced_covers:
  "fd_balanced st t st' t' \<Longrightarrow> table_refs p t \<le> ref_count_of st p \<Longrightarrow>
     table_refs p t' \<le> ref_count_of st' p"
  using fd_balancedD(3) [of st t st' t' p] by linarith

lemma fd_balanced_open:
  assumes "table_wf st t" "fd_open_with_details path flags ft lock st t = (r, st', t')"
  shows "fd_balanced st t st' t'"
proof (cases "allocate_fd t")
  case (Pair a t1)
  note t1 = allocate_fd_table [OF Pair]
  show ?thesis
  proof (cases a)
    case (Inl e)
    with Pair assms(2) have "st' = st" "t' = t1"
      by (auto simp: fd_open_with_details_def)
    with assms(1) t1 show ?thesis
      by (simp add: fd_balanced_def table_wf_cong [of t1 t] table_refs_cong [of t1 t])
  next
    case (Inr fd)
    obtain d st1 where al: "allocate_with_lock path (description_flags flags) lock st = (d, st1)"
      by fastforce
    let ?e = "\<lparr>entry_fd = fd, entry_description = d, entry_status_flags = description_status_flags flags,
       entry_fd_flags = 0, entry_rights = 0, entry_filetype = ft\<rparr>"
    have res: "st' = st1" "t' = put_fd fd ?e t1"
      using assms(2) Pair Inr al by (auto simp: fd_open_with_details_def)
    have fresh: "bt_get (fd_entries t1) fd = None"
      using allocate_fd_ok(1) [of t fd t1] Pair Inr t1 by simp
    have d: "d = length (desc_heap st)" "length (desc_heap st1) = Suc (length (desc_heap st))"
      using allocate_with_lock_eqs [OF al] by auto
    have "table_wf st1 t"
      by (rule table_wf_mono [OF assms(1)]) (simp add: d(2))
    then have "table_wf st1 t1"
      using t1 by (simp add: table_wf_cong [of t1 t])
    then have "table_wf st1 (put_fd fd ?e t1)"
      using d by (intro table_wf_put) auto
    moreover have "ref_count_of st1 p + table_refs p t = ref_count_of st p + table_refs p (put_fd fd ?e t1)" for p
      using table_refs_put [of p fd ?e t1] fresh allocate_with_lock_eqs(3) [OF al, of p]
        table_refs_unused [OF assms(1)] t1 d(1)
      by (auto simp: table_refs_cong [of t1 t] entry_refs_def ref_count_of_def)
    ultimately show ?thesis
      using d by (simp add: fd_balanced_def res)
  qed
qed

lemma fd_balanced_allocated:
  assumes "table_wf st t" "bt_get (fd_entries t) fd = None" "fd_entries t1 = fd_entries t"
    "entry_fd e = fd" "entry_description e < length (desc_heap st)"
  shows "fd_balanced st t (increment_ref_count (entry_description e) st) (put_fd fd e t1)"
proof -
  have "fd_balanced st t1 (increment_ref_count (entry_description e) st) (put_fd fd e t1)"
    using assms by (intro fd_balanced_put_fresh) (simp_all add: table_wf_cong [of t1 t])
  then show ?thesis
    by (simp add: fd_balanced_cong [OF assms(3)])
qed

lemma fd_balanced_unchanged:
  "table_wf st t \<Longrightarrow> fd_entries t' = fd_entries t \<Longrightarrow> fd_balanced st t st t'"
  by (simp add: fd_balanced_def table_wf_cong [of t' t] table_refs_cong [of t' t])

lemma fd_balanced_open_with:
  assumes "table_wf st t" "description < length (desc_heap st)"
    "case target of None \<Rightarrow> True | Some fd \<Rightarrow> bt_get (fd_entries t) fd = None"
    "fd_open_with description ft target st t = (r, st', t')"
  shows "fd_balanced st t st' t'"
proof (cases target)
  case (Some fd)
  with assms show ?thesis
    by (auto simp: fd_open_with_def validate_fd_bounds_def plain_entry_def fd_balanced_refl
        intro: fd_balanced_put_fresh [where e = "\<lparr>entry_fd = fd, entry_description = description,
          entry_status_flags = 0, entry_fd_flags = 0, entry_rights = 0, entry_filetype = ft\<rparr>", simplified]
        split: if_splits)
next
  case None
  obtain a t1 where al: "allocate_fd t = (a, t1)" by fastforce
  note t1 = allocate_fd_table [OF al]
  show ?thesis
  proof (cases a)
    case (Inl e)
    with al None assms t1 show ?thesis
      by (auto simp: fd_open_with_def intro: fd_balanced_unchanged)
  next
    case (Inr fd)
    have "st' = increment_ref_count description st" "t' = put_fd fd (plain_entry fd description ft) t1"
      using al None Inr assms(4) by (auto simp: fd_open_with_def)
    with assms(1,2) t1 allocate_fd_ok(1) [of t fd t1] al Inr show ?thesis
      using fd_balanced_allocated [of st t fd t1 "plain_entry fd description ft"]
      by (simp add: plain_entry_def)
  qed
qed

lemma fd_balanced_duplicate:
  assumes "table_wf st t" "bt_get (fd_entries t) old = Some e" "bt_get (fd_entries t) fd = None"
    "fd_entries t1 = fd_entries t" "duplicate_entry e fd sf ff st t1 = (r, st', t')"
  shows "fd_balanced st t st' t'"
proof -
  have "entry_description e < length (desc_heap st)"
    using assms(1,2) by (auto simp: table_wf_def)
  with assms show ?thesis
    using fd_balanced_allocated [of st t fd t1 "\<lparr>entry_fd = fd, entry_description = entry_description e,
      entry_status_flags = sf, entry_fd_flags = ff, entry_rights = entry_rights e,
      entry_filetype = entry_filetype e\<rparr>"]
    by (auto simp: duplicate_entry_def)
qed

lemma fd_balanced_dup:
  assumes "table_wf st t" "fd_dup_with_status_flags fd sf st t = (r, st', t')"
  shows "fd_balanced st t st' t'"
proof (cases "bt_get (fd_entries t) fd")
  case None
  with assms show ?thesis by (simp add: fd_dup_with_status_flags_def fd_balanced_refl)
next
  case (Some e)
  obtain a t1 where al: "allocate_fd t = (a, t1)" by fastforce
  note t1 = allocate_fd_table [OF al]
  show ?thesis
  proof (cases a)
    case (Inl err)
    with al Some assms t1 show ?thesis
      by (auto simp: fd_dup_with_status_flags_def intro: fd_balanced_unchanged)
  next
    case (Inr new_fd)
    with al Some assms t1 allocate_fd_ok(1) [of t new_fd t1] show ?thesis
      by (auto simp: fd_dup_with_status_flags_def intro: fd_balanced_duplicate [of st t fd e new_fd t1])
  qed
qed

lemma allocate_fd_from_ok:
  assumes "allocate_fd_from min_fd t = (Inr fd, t')"
  shows "bt_get (fd_entries t) fd = None" "min_fd \<le> fd" "unat fd < table_max_fds t"
proof -
  let ?hi = "unat (of_nat (table_max_fds t) :: u32)"
  from assms have f: "find (\<lambda>c. \<not> bt_contains (fd_entries t) c) (map of_nat [unat min_fd..<?hi]) = Some fd"
    by (auto simp: allocate_fd_from_def Let_def split: if_splits option.splits)
  then obtain i where i: "\<not> bt_contains (fd_entries t) fd" "i \<in> set [unat min_fd..<?hi]" "fd = of_nat i"
    by (blast dest: find_in_mapD)
  then have "i < 2 ^ 32"
    using unsigned_less [of "of_nat (table_max_fds t) :: u32", where ?'a = nat] by (simp del: unat_of_nat)
  then have "unat fd = i"
    by (simp add: i(3) unat_of_nat take_bit_nat_eq_self)
  moreover have "?hi \<le> table_max_fds t"
    by (simp add: unat_of_nat)
  ultimately show "min_fd \<le> fd" "unat fd < table_max_fds t"
    using i by (auto simp: word_le_nat_alt)
  show "bt_get (fd_entries t) fd = None"
    using i(1) by (simp add: bt_contains_def)
qed

lemma allocate_fd_from_least:
  assumes "allocate_fd_from min_fd t = (Inr fd, t')" "min_fd \<le> c" "c < fd"
  shows "bt_get (fd_entries t) c \<noteq> None"
proof -
  let ?hi = "unat (of_nat (table_max_fds t) :: u32)"
  from assms(1) have "find (\<lambda>c. \<not> bt_contains (fd_entries t) c) (map of_nat [unat min_fd..<?hi]) = Some fd"
    by (auto simp: allocate_fd_from_def Let_def split: if_splits option.splits)
  then obtain i where i: "i < ?hi - unat min_fd" "fd = of_nat (unat min_fd + i)"
    "\<And>j. j < i \<Longrightarrow> bt_contains (fd_entries t) (of_nat (unat min_fd + j))"
    by (auto simp: find_Some_iff)
  have "unat min_fd + i < 2 ^ 32"
    using i(1) unsigned_less [of "of_nat (table_max_fds t) :: u32", where ?'a = nat]
    by (simp del: unat_of_nat)
  then have "unat fd = unat min_fd + i"
    by (simp add: i(2) unat_of_nat take_bit_nat_eq_self del: of_nat_add)
  then have "unat c - unat min_fd < i" "unat min_fd + (unat c - unat min_fd) = unat c"
    using assms(2,3) by (simp_all add: word_le_nat_alt word_less_nat_alt)
  then show ?thesis
    using i(3) [of "unat c - unat min_fd"] by (simp add: bt_contains_def)
qed

lemma fd_balanced_dup2:
  assumes "table_wf st t" "\<And>p. table_refs p t \<le> ref_count_of st p"
    "fd_dup2 old_fd new_fd st t = (r, st', t')"
  shows "fd_balanced st t st' t'"
proof (cases "\<exists>e. bt_get (fd_entries t) old_fd = Some e \<and> unat new_fd < table_max_fds t \<and> old_fd \<noteq> new_fd")
  case False
  with assms show ?thesis
    by (auto simp: fd_dup2_def validate_fd_bounds_def fd_balanced_refl split: option.splits if_splits)
next
  case True
  then obtain e where e: "bt_get (fd_entries t) old_fd = Some e" "unat new_fd < table_max_fds t" "old_fd \<noteq> new_fd"
    by blast
  obtain r1 st1 t1 where cl: "fd_close new_fd st t = (r1, st1, t1)"
    using prod_cases3 by blast
  have b: "fd_balanced st t st1 t1"
    by (rule fd_balanced_close [OF assms(1,2) cl])
  have t1: "bt_get (fd_entries t1) old_fd = Some e" "bt_get (fd_entries t1) new_fd = None"
    using cl e by (auto simp: fd_close_def split: option.splits)
  have "(if bt_contains (fd_entries t) new_fd then snd (fd_close new_fd st t) else (st, t)) = (st1, t1)"
    using cl by (auto simp: fd_close_def bt_contains_def split: option.splits)
  with assms(3) e have dup: "duplicate_entry e new_fd (entry_status_flags e) 0 st1 t1 = (Inr new_fd, st', t')"
    by (auto simp: fd_dup2_def validate_fd_bounds_def duplicate_entry_def split: prod.splits)
  have "fd_balanced st1 t1 st' t'"
    by (rule fd_balanced_duplicate [OF fd_balancedD(2) [OF b] t1 refl dup])
  with b show ?thesis
    by (rule fd_balanced_trans)
qed

lemma fd_balanced_put_same:
  assumes "table_wf st t" "bt_get (fd_entries t) fd = Some e" "entry_fd e' = fd"
    "entry_description e' = entry_description e" "length (desc_heap st') = length (desc_heap st)"
    "\<And>p. ref_count_of st' p = ref_count_of st p"
  shows "fd_balanced st t st' (put_fd fd e' t)"
proof -
  have "entry_description e < length (desc_heap st)"
    using assms(1,2) by (auto simp: table_wf_def)
  then have "table_wf st' (put_fd fd e' t)"
    using assms by (intro table_wf_put table_wf_mono [OF assms(1)]) simp_all
  moreover have "entry_refs p e' = entry_refs p e" for p
    using assms(4) by (simp add: entry_refs_def)
  ultimately show ?thesis
    using assms(2,5,6) table_refs_put [of _ fd e' t] by (simp add: fd_balanced_def)
qed

lemma fd_balanced_fcntl:
  assumes wf: "table_wf st t" and res: "fd_fcntl fd command arg st t = (r, st', t')"
  shows "fd_balanced st t st' t'"
proof (cases "bt_get (fd_entries t) fd")
  case None
  with assms show ?thesis
    by (auto simp: fd_fcntl_def fd_balanced_refl split: if_splits)
next
  case (Some e)
  have e: "entry_fd e = fd"
    using wf Some by (auto simp: table_wf_def)
  consider "command = F_DUPFD" | "command = F_SETFD" | "command = F_SETFL"
    | "command \<noteq> F_DUPFD" "command \<noteq> F_SETFD" "command \<noteq> F_SETFL"
    by blast
  then show ?thesis
  proof cases
    case 1
    obtain a t1 where al: "allocate_fd_from arg t = (a, t1)" by fastforce
    note t1 = allocate_fd_from_table [OF al]
    show ?thesis
    proof (cases a)
      case (Inl err)
      with 1 al Some res wf t1 show ?thesis
        by (auto simp: fd_fcntl_def validate_fcntl_dup_min_def fd_balanced_refl
            intro: fd_balanced_unchanged split: if_splits)
    next
      case (Inr new_fd)
      with 1 al Some res wf t1 allocate_fd_from_ok(1) [of arg t new_fd t1] show ?thesis
        by (auto simp: fd_fcntl_def validate_fcntl_dup_min_def fd_balanced_refl
            intro: fd_balanced_duplicate [of st t fd e new_fd t1] split: if_splits)
    qed
  next
    case 2
    with Some res have "st' = st" "t' = put_fd fd (e\<lparr>entry_fd_flags := arg AND FD_CLOEXEC\<rparr>) t"
      by (auto simp: fd_fcntl_def fcntl_consts)
    with wf Some e show ?thesis
      by (auto intro: fd_balanced_put_same)
  next
    case 3
    with Some res have "st' = update_flags (entry_description e) SHARED_STATUS_FLAG_MASK arg st"
      "t' = put_fd fd (e\<lparr>entry_status_flags := arg AND ENTRY_STATUS_FLAG_MASK\<rparr>) t"
      by (auto simp: fd_fcntl_def fcntl_consts)
    with wf Some e show ?thesis
      by (auto intro: fd_balanced_put_same)
  next
    case 4
    with Some res wf show ?thesis
      by (auto simp: fd_fcntl_def fd_balanced_refl split: if_splits)
  qed
qed

subsection \<open>Whole tables: fork and close\<close>

lemma fd_balanced_close_keys:
  assumes "table_wf st t" "\<And>p. table_refs p t \<le> ref_count_of st p"
    "fold (\<lambda>fd (st, t). snd (fd_close fd st t)) fds (st, t) = (st', t')"
  shows "fd_balanced st t st' t'"
  using assms
proof (induction fds arbitrary: st t)
  case Nil
  then show ?case by (simp add: fd_balanced_refl)
next
  case (Cons fd fds)
  obtain r st1 t1 where cl: "fd_close fd st t = (r, st1, t1)"
    using prod_cases3 by blast
  have b: "fd_balanced st t st1 t1"
    by (rule fd_balanced_close [OF Cons.prems(1,2) cl])
  have "fd_balanced st1 t1 st' t'"
  proof (rule Cons.IH)
    show "table_wf st1 t1" by (rule fd_balancedD(2) [OF b])
    show "table_refs p t1 \<le> ref_count_of st1 p" for p
      by (rule fd_balanced_covers [OF b Cons.prems(2)])
    show "fold (\<lambda>fd (st, t). snd (fd_close fd st t)) fds (st1, t1) = (st', t')"
      using Cons.prems(3) cl by simp
  qed
  with b show ?case by (rule fd_balanced_trans)
qed

lemma fold_close_get:
  assumes "fold (\<lambda>fd (st, t). snd (fd_close fd st t)) fds (st, t) = (st', t')"
  shows "bt_get (fd_entries t') fd = (if fd \<in> set fds then None else bt_get (fd_entries t) fd)"
  using assms
proof (induction fds arbitrary: st t)
  case (Cons a fds)
  obtain r st1 t1 where cl: "fd_close a st t = (r, st1, t1)"
    using prod_cases3 by blast
  then have "bt_get (fd_entries t1) fd = (if fd = a then None else bt_get (fd_entries t) fd)"
    by (auto simp: fd_close_def split: option.splits)
  with Cons.IH [of st1 t1] Cons.prems cl show ?case
    by (cases "fd = a") auto
qed simp

lemma fd_close_all_empties:
  "fd_entries (snd (fd_close_all st t)) = bt_empty"
proof (rule bt_eqI)
  fix k
  obtain st' t' where "fd_close_all st t = (st', t')" by fastforce
  then show "bt_get (fd_entries (snd (fd_close_all st t))) k = bt_get bt_empty k"
    using fold_close_get [of "bt_keys (fd_entries t)" st t st' t' k]
    by (auto simp: fd_close_all_def set_bt_keys)
qed

lemma fd_close_all_counts:
  assumes "table_wf st t" "\<And>p. table_refs p t \<le> ref_count_of st p" "fd_close_all st t = (st', t')"
  shows "length (desc_heap st) \<le> length (desc_heap st')" "ref_count_of st' p + table_refs p t = ref_count_of st p"
proof -
  have b: "fd_balanced st t st' t'"
    using assms fd_balanced_close_keys [of st t "bt_keys (fd_entries t)" st' t'] by (simp add: fd_close_all_def)
  then show "length (desc_heap st) \<le> length (desc_heap st')"
    by (rule fd_balancedD)
  have "fd_entries t' = bt_empty"
    using fd_close_all_empties [of st t] assms(3) by simp
  then have "table_refs p t' = 0"
    by (simp add: table_refs_def)
  with fd_balancedD(3) [OF b, of p] show "ref_count_of st' p + table_refs p t = ref_count_of st p"
    by simp
qed

lemma fold_increment_counts:
  assumes "\<forall>e \<in> set es. entry_description e < length (desc_heap st)"
  shows "length (desc_heap (fold (\<lambda>e. increment_ref_count (entry_description e)) es st)) = length (desc_heap st) \<and>
    ref_count_of (fold (\<lambda>e. increment_ref_count (entry_description e)) es st) p =
      ref_count_of st p + sum_list (map (entry_refs p) es)"
  using assms by (induction es arbitrary: st) (simp_all add: entry_refs_def)

lemma fd_fork_counts:
  assumes "table_wf st t" "fd_fork st t = (st', child)"
  shows "length (desc_heap st') = length (desc_heap st)" "table_wf st' child"
    "ref_count_of st' p = ref_count_of st p + table_refs p child"
    "fd_entries child = fd_entries t"
proof -
  have "\<forall>e \<in> set (bt_values (fd_entries t)). entry_description e < length (desc_heap st)"
    using assms(1) by (auto simp: in_bt_values_iff table_wf_def)
  moreover have "st' = fold (\<lambda>e. increment_ref_count (entry_description e)) (bt_values (fd_entries t)) st"
    using assms(2) by (simp add: fd_fork_def)
  ultimately have st': "length (desc_heap st') = length (desc_heap st)"
    "ref_count_of st' p = ref_count_of st p + table_refs p t" for p
    using fold_increment_counts by (simp_all add: table_refs_def bt_sum_def)
  have child: "fd_entries child = fd_entries t"
  proof (rule bt_eqI)
    fix k
    show "bt_get (fd_entries child) k = bt_get (fd_entries t) k"
      using assms by (cases "bt_get (fd_entries t) k") (auto simp: fd_fork_def table_wf_def)
  qed
  show "fd_entries child = fd_entries t" by (rule child)
  show "length (desc_heap st') = length (desc_heap st)" by (rule st')
  show "table_wf st' child"
    using table_wf_mono [OF assms(1), of st'] st'(1) by (simp add: table_wf_cong [OF child])
  show "ref_count_of st' p = ref_count_of st p + table_refs p child"
    using st'(2) by (simp add: table_refs_cong [OF child])
qed

subsection \<open>All tables of the manager\<close>

text \<open>
  The gap of a description is its count minus the number of descriptors in all processes that
  refer to it. Invariant of the manager: tables are well formed and no gap is negative.
\<close>

definition manager_refs :: "desc_ptr \<Rightarrow> fd_table_manager \<Rightarrow> nat" where
  "manager_refs p m = bt_sum (table_refs p) (fd_tables m)"

definition ref_gap :: "fd_table_manager \<Rightarrow> desc_ptr \<Rightarrow> int" where
  "ref_gap m p = int (ref_count_of (manager_store m) p) - int (manager_refs p m)"

definition fdm_tables_wf :: "fd_table_manager \<Rightarrow> bool" where
  "fdm_tables_wf m \<longleftrightarrow> (\<forall>pid t. bt_get (fd_tables m) pid = Some t \<longrightarrow> table_wf (manager_store m) t)"

definition fdm_inv :: "fd_table_manager \<Rightarrow> bool" where
  "fdm_inv m \<longleftrightarrow> fdm_tables_wf m \<and> (\<forall>p. 0 \<le> ref_gap m p)"

lemma fdm_inv_table:
  assumes "fdm_inv m" "bt_get (fd_tables m) pid = Some t"
  shows "table_wf (manager_store m) t" "table_refs p t \<le> ref_count_of (manager_store m) p"
proof -
  show "table_wf (manager_store m) t"
    using assms by (auto simp: fdm_inv_def fdm_tables_wf_def)
  have "table_refs p t \<le> manager_refs p m"
    unfolding manager_refs_def by (rule bt_sum_ge [OF assms(2)])
  moreover have "0 \<le> ref_gap m p"
    using assms(1) by (simp add: fdm_inv_def)
  ultimately show "table_refs p t \<le> ref_count_of (manager_store m) p"
    by (simp add: ref_gap_def)
qed

lemma fdm_tables_wf_store:
  "fdm_tables_wf m \<Longrightarrow> length (desc_heap (manager_store m)) \<le> length (desc_heap st) \<Longrightarrow>
     fdm_tables_wf (m\<lparr>manager_store := st\<rparr>)"
  by (auto simp: fdm_tables_wf_def intro: table_wf_mono)

lemma fdm_tables_wf_put:
  "fdm_tables_wf m \<Longrightarrow> table_wf (manager_store m) t \<Longrightarrow> fdm_tables_wf (fdm_put pid t m)"
  by (auto simp: fdm_tables_wf_def fdm_put_def)

lemma manager_refs_put:
  "manager_refs p (fdm_put pid t m) + (case bt_get (fd_tables m) pid of None \<Rightarrow> 0 | Some t' \<Rightarrow> table_refs p t')
     = manager_refs p m + table_refs p t"
  using bt_sum_remove [of "table_refs p" "fd_tables m" pid]
  by (simp add: manager_refs_def fdm_put_def bt_sum_insert)

lemma fdm_on_table_gap:
  assumes "fdm_inv m" "fdm_on_table pid f m = (r, m')"
    "\<And>t x st' t'. bt_get (fd_tables m) pid = Some t \<Longrightarrow> f (manager_store m) t = (x, st', t') \<Longrightarrow>
       fd_balanced (manager_store m) t st' t'"
  shows "fdm_tables_wf m'" "ref_gap m' p = ref_gap m p"
proof -
  have "fdm_tables_wf m' \<and> ref_gap m' p = ref_gap m p"
  proof (cases "bt_get (fd_tables m) pid")
    case None
    with assms(1,2) show ?thesis by (simp add: fdm_on_table_def fdm_inv_def)
  next
    case (Some t)
    obtain x st' t' where f: "f (manager_store m) t = (x, st', t')"
      using prod_cases3 by blast
    have m': "m' = fdm_put pid t' (m\<lparr>manager_store := st'\<rparr>)"
      using assms(2) Some f by (simp add: fdm_on_table_def)
    note b = fd_balancedD [OF assms(3) [OF Some f]]
    have "fdm_tables_wf m'"
      using assms(1) b(1,2) by (auto simp: m' fdm_inv_def intro!: fdm_tables_wf_put fdm_tables_wf_store)
    moreover have "manager_refs p m' + table_refs p t = manager_refs p m + table_refs p t'"
      using manager_refs_put [of p pid t' "m\<lparr>manager_store := st'\<rparr>"] Some
      by (simp add: m' manager_refs_def)
    moreover have "manager_store m' = st'"
      by (simp add: m' fdm_put_def)
    ultimately show ?thesis
      using b(3) [of p] by (simp add: ref_gap_def)
  qed
  then show "fdm_tables_wf m'" "ref_gap m' p = ref_gap m p" by auto
qed

lemma fdm_remove_gap:
  assumes "fdm_inv m"
  shows "fdm_tables_wf (fdm_remove pid m)" "ref_gap (fdm_remove pid m) p = ref_gap m p"
    "length (desc_heap (manager_store m)) \<le> length (desc_heap (manager_store (fdm_remove pid m)))"
    "bt_get (fd_tables (fdm_remove pid m)) pid = None"
proof -
  let ?m = "fdm_remove pid m"
  have "fdm_tables_wf ?m \<and> ref_gap ?m p = ref_gap m p \<and>
     length (desc_heap (manager_store m)) \<le> length (desc_heap (manager_store ?m)) \<and>
     bt_get (fd_tables ?m) pid = None"
  proof (cases "bt_get (fd_tables m) pid")
    case None
    with assms show ?thesis by (simp add: fdm_remove_def fdm_inv_def)
  next
    case (Some t)
    obtain st' t' where cl: "fd_close_all (manager_store m) t = (st', t')" by fastforce
    note c = fd_close_all_counts [OF fdm_inv_table [OF assms Some] cl]
    have m': "?m = m\<lparr>fd_tables := bt_remove pid (fd_tables m), manager_store := st'\<rparr>"
      using Some cl by (simp add: fdm_remove_def)
    have "fdm_tables_wf (m\<lparr>manager_store := st'\<rparr>)"
      using assms c(1) by (auto simp: fdm_inv_def intro: fdm_tables_wf_store)
    then have "fdm_tables_wf ?m"
      by (auto simp: m' fdm_tables_wf_def)
    moreover have "manager_refs p m = manager_refs p ?m + table_refs p t"
      using bt_sum_remove [of "table_refs p" "fd_tables m" pid] Some by (simp add: manager_refs_def m')
    ultimately show ?thesis
      using c(1) c(2) [of p] by (auto simp: ref_gap_def m')
  qed
  then show "fdm_tables_wf ?m" "ref_gap ?m p = ref_gap m p"
    "length (desc_heap (manager_store m)) \<le> length (desc_heap (manager_store ?m))"
    "bt_get (fd_tables ?m) pid = None" by auto
qed

text \<open>
  A new table for a process whose old table, if any, is closed first: the common end of \<^verbatim>\<open>create\<close>,
  \<^verbatim>\<open>create_with_stdio\<close> and \<^verbatim>\<open>fork\<close>. \<open>extra\<close> is what these add to the counts before.
\<close>

lemma fdm_replace_gap:
  assumes "fdm_inv m" "length (desc_heap (manager_store m)) \<le> length (desc_heap st)"
    "\<And>q. ref_count_of st q = ref_count_of (manager_store m) q + extra q" "table_wf st t"
  shows "fdm_tables_wf (fdm_put pid t (fdm_remove pid (m\<lparr>manager_store := st\<rparr>)))"
    "ref_gap (fdm_put pid t (fdm_remove pid (m\<lparr>manager_store := st\<rparr>))) p
       = ref_gap m p + int (extra p) - int (table_refs p t)"
proof -
  let ?m1 = "m\<lparr>manager_store := st\<rparr>"
  let ?m2 = "fdm_remove pid ?m1"
  have gap1: "ref_gap ?m1 q = ref_gap m q + int (extra q)" for q
    by (simp add: ref_gap_def manager_refs_def assms(3))
  then have "fdm_inv ?m1"
    using assms(1,2) by (auto simp: fdm_inv_def intro: fdm_tables_wf_store)
  note r = fdm_remove_gap [OF this, of pid]
  have "table_wf (manager_store ?m2) t"
    using table_wf_mono [OF assms(4)] r(3) by simp
  then show "fdm_tables_wf (fdm_put pid t ?m2)"
    by (rule fdm_tables_wf_put [OF r(1)])
  have "manager_refs p (fdm_put pid t ?m2) = manager_refs p ?m2 + table_refs p t"
    using manager_refs_put [of p pid t ?m2] r(4) by simp
  then show "ref_gap (fdm_put pid t ?m2) p = ref_gap m p + int (extra p) - int (table_refs p t)"
    using r(2) [of p] gap1 [of p] by (simp add: ref_gap_def fdm_put_def)
qed

lemma fd_entries_new [simp]: "fd_entries (fd_table_new n) = bt_empty"
  by (simp add: fd_table_new_def)

lemma table_refs_stdio:
  "table_refs p (put_fd 2 (plain_entry 2 c tc) (put_fd 1 (plain_entry 1 b tb)
      (put_fd 0 (plain_entry 0 a ta) (fd_table_new n))))
    = of_bool (a = p) + of_bool (b = p) + of_bool (c = p)"
  by (simp add: table_refs_def put_fd_def plain_entry_def entry_refs_def)

lemma table_wf_stdio:
  "a < length (desc_heap st) \<Longrightarrow> b < length (desc_heap st) \<Longrightarrow> c < length (desc_heap st) \<Longrightarrow>
    table_wf st (put_fd 2 (plain_entry 2 c tc) (put_fd 1 (plain_entry 1 b tb)
      (put_fd 0 (plain_entry 0 a ta) (fd_table_new n))))"
  by (intro table_wf_put) (simp_all add: plain_entry_def table_wf_def)

lemma allocate_desc_eqs:
  assumes "allocate_desc path flags st = (p, st')"
  shows "p = length (desc_heap st)" "length (desc_heap st') = Suc (length (desc_heap st))"
    "ref_count_of st' q = ref_count_of st q + of_bool (p = q)"
  using assms allocate_with_lock_eqs [of path flags None st p st']
  by (auto simp: allocate_desc_def ref_count_of_def)

lemma fdm_create_gap:
  assumes "fdm_inv m"
  shows "fdm_tables_wf (fdm_create pid m)" "ref_gap (fdm_create pid m) p = ref_gap m p"
proof -
  obtain a st1 where a: "allocate_desc ''/dev/stdin'' O_RDONLY (manager_store m) = (a, st1)" by fastforce
  obtain b st2 where b: "allocate_desc ''/dev/stdout'' O_WRONLY st1 = (b, st2)" by fastforce
  obtain c st3 where c: "allocate_desc ''/dev/stderr'' O_WRONLY st2 = (c, st3)" by fastforce
  note abc = allocate_desc_eqs(1,2) [OF a] allocate_desc_eqs(1,2) [OF b] allocate_desc_eqs(1,2) [OF c]
  let ?t = "init_stdio a b c (fd_table_new (manager_max_fds m))"
  have res: "fdm_create pid m = fdm_put pid ?t (fdm_remove pid (m\<lparr>manager_store := st3\<rparr>))"
    by (simp add: fdm_create_def a b c)
  have extra: "ref_count_of st3 q = ref_count_of (manager_store m) q + table_refs q ?t" for q
    using allocate_desc_eqs(3) [OF a, of q] allocate_desc_eqs(3) [OF b, of q] allocate_desc_eqs(3) [OF c, of q]
    by (simp add: init_stdio_def table_refs_stdio)
  have wf: "table_wf st3 ?t"
    using abc by (simp add: init_stdio_def table_wf_stdio)
  have len: "length (desc_heap (manager_store m)) \<le> length (desc_heap st3)"
    using abc by simp
  show "fdm_tables_wf (fdm_create pid m)" "ref_gap (fdm_create pid m) p = ref_gap m p"
    using fdm_replace_gap [OF assms len extra wf, of pid] by (simp_all add: res)
qed

lemma stdio_desc_eqs:
  assumes "stdio_desc ov path flags st = (p, st')"
    "case ov of None \<Rightarrow> True | Some e \<Rightarrow> override_description e < length (desc_heap st)"
  shows "p < length (desc_heap st')" "length (desc_heap st) \<le> length (desc_heap st')"
    "ref_count_of st' q = ref_count_of st q + of_bool (ov = None \<and> p = q)"
  using assms allocate_desc_eqs [of path flags st p st']
  by (auto simp: stdio_desc_def split: option.splits)

definition override_ok :: "desc_store \<Rightarrow> stdio_override option \<Rightarrow> bool" where
  "override_ok st ov = (case ov of None \<Rightarrow> True | Some e \<Rightarrow> override_description e < length (desc_heap st))"

lemma override_ok_mono:
  "override_ok st ov \<Longrightarrow> length (desc_heap st) \<le> length (desc_heap st') \<Longrightarrow> override_ok st' ov"
  by (auto simp: override_ok_def split: option.splits)

lemma fdm_create_with_stdio_gap:
  assumes "fdm_inv m" "override_ok (manager_store m) ov0" "override_ok (manager_store m) ov1"
    "override_ok (manager_store m) ov2"
    "stdio_desc ov0 ''/dev/stdin'' O_RDONLY (manager_store m) = (a, st1)"
    "stdio_desc ov1 ''/dev/stdout'' O_WRONLY st1 = (b, st2)"
    "stdio_desc ov2 ''/dev/stderr'' O_WRONLY st2 = (c, st3)"
  shows "fdm_tables_wf (fdm_create_with_stdio pid ov0 ov1 ov2 m)"
    "ref_gap (fdm_create_with_stdio pid ov0 ov1 ov2 m) p = ref_gap m p
       + of_bool (ov0 = None \<and> a = p) + of_bool (ov1 = None \<and> b = p) + of_bool (ov2 = None \<and> c = p)"
proof -
  note d0 = stdio_desc_eqs [OF assms(5) assms(2) [unfolded override_ok_def]]
  note d1 = stdio_desc_eqs [OF assms(6) override_ok_mono [OF assms(3) d0(2), unfolded override_ok_def]]
  have "length (desc_heap (manager_store m)) \<le> length (desc_heap st2)"
    using d0(2) d1(2) by simp
  note d2 = stdio_desc_eqs [OF assms(7) override_ok_mono [OF assms(4) this, unfolded override_ok_def]]
  let ?st4 = "increment_ref_count c (increment_ref_count b (increment_ref_count a st3))"
  let ?t = "put_fd 2 (plain_entry 2 c (stdio_type ov2)) (put_fd 1 (plain_entry 1 b (stdio_type ov1))
      (put_fd 0 (plain_entry 0 a (stdio_type ov0)) (fd_table_new (manager_max_fds m))))"
  have res: "fdm_create_with_stdio pid ov0 ov1 ov2 m = fdm_put pid ?t (fdm_remove pid (m\<lparr>manager_store := ?st4\<rparr>))"
    by (simp add: fdm_create_with_stdio_def assms(5-7) init_stdio_with_types_def)
  let ?fresh = "\<lambda>q. of_bool (ov0 = None \<and> a = q) + of_bool (ov1 = None \<and> b = q) + of_bool (ov2 = None \<and> c = q)"
  have abc: "a < length (desc_heap st3)" "b < length (desc_heap st3)" "c < length (desc_heap st3)"
    using d0(1) d1(1,2) d2(1,2) by linarith+
  then have inc: "ref_count_of ?st4 q = ref_count_of st3 q + table_refs q ?t" for q
    by (auto simp: table_refs_stdio)
  have extra: "ref_count_of ?st4 q = ref_count_of (manager_store m) q + (?fresh q + table_refs q ?t)" for q
    using inc [of q] d0(3) [of q] d1(3) [of q] d2(3) [of q] by linarith
  have wf: "table_wf ?st4 ?t"
    using abc by (simp add: table_wf_stdio)
  have len: "length (desc_heap (manager_store m)) \<le> length (desc_heap ?st4)"
    using d0(2) d1(2) d2(2) by simp
  show "fdm_tables_wf (fdm_create_with_stdio pid ov0 ov1 ov2 m)"
    "ref_gap (fdm_create_with_stdio pid ov0 ov1 ov2 m) p = ref_gap m p
       + of_bool (ov0 = None \<and> a = p) + of_bool (ov1 = None \<and> b = p) + of_bool (ov2 = None \<and> c = p)"
    using fdm_replace_gap [OF assms(1) len extra wf, of pid] by (simp_all add: res)
qed

lemma fdm_fork_gap:
  assumes "fdm_inv m"
  shows "fdm_tables_wf (fdm_fork parent child m)" "ref_gap (fdm_fork parent child m) p = ref_gap m p"
proof -
  have "fdm_tables_wf (fdm_fork parent child m) \<and> ref_gap (fdm_fork parent child m) p = ref_gap m p"
  proof (cases "bt_get (fd_tables m) parent")
    case None
    with fdm_create_gap [OF assms] show ?thesis by (simp add: fdm_fork_def)
  next
    case (Some t)
    obtain st' t' where f: "fd_fork (manager_store m) t = (st', t')" by fastforce
    note c = fd_fork_counts [OF fdm_inv_table(1) [OF assms Some] f]
    show ?thesis
      using fdm_replace_gap [OF assms _ c(3) c(2), of child] c(1) Some f
      by (simp add: fdm_fork_def)
  qed
  then show "fdm_tables_wf (fdm_fork parent child m)" "ref_gap (fdm_fork parent child m) p = ref_gap m p"
    by auto
qed

lemma manager_refs_unused: "fdm_tables_wf m \<Longrightarrow> manager_refs (length (desc_heap (manager_store m))) m = 0"
  by (auto simp: manager_refs_def bt_sum_zero_iff fdm_tables_wf_def table_refs_unused)

lemma arc_new_gap:
  assumes "fdm_inv m" "arc_new d (manager_store m) = (q, st)" "desc_ref_count d = 0"
  shows "fdm_tables_wf (m\<lparr>manager_store := st\<rparr>)" "ref_gap (m\<lparr>manager_store := st\<rparr>) p = ref_gap m p"
proof -
  have wf: "fdm_tables_wf m" using assms(1) by (simp add: fdm_inv_def)
  have st: "st = (manager_store m)\<lparr>desc_heap := desc_heap (manager_store m) @ [d]\<rparr>"
    using assms(2) by (simp add: arc_new_def)
  show "fdm_tables_wf (m\<lparr>manager_store := st\<rparr>)"
    by (rule fdm_tables_wf_store [OF wf]) (simp add: st)
  show "ref_gap (m\<lparr>manager_store := st\<rparr>) p = ref_gap m p"
    using assms(3) ref_count_of_def [of "manager_store m" p]
    by (auto simp: ref_gap_def manager_refs_def st ref_count_of_append)
qed

subsection \<open>Everything the clients of the manager can do\<close>

text \<open>
  The operations that keep every gap (\<open>fdm_balanced_step\<close>), and the two that can widen one: opening a
  description at a descriptor that is in use, and \<^verbatim>\<open>create_with_stdio\<close> without an override.
\<close>

definition target_free :: "fd_table_manager \<Rightarrow> u32 \<Rightarrow> u32 option \<Rightarrow> bool" where
  "target_free m pid target =
     (case target of None \<Rightarrow> True
      | Some fd \<Rightarrow> (case bt_get (fd_tables m) pid of None \<Rightarrow> True
                   | Some t \<Rightarrow> bt_get (fd_entries t) fd = None))"

inductive fdm_balanced_step :: "fd_table_manager \<Rightarrow> fd_table_manager \<Rightarrow> bool" where
  step_create: "fdm_balanced_step m (fdm_create pid m)"
| step_fork: "fdm_balanced_step m (fdm_fork parent_pid child_pid m)"
| step_remove: "fdm_balanced_step m (fdm_remove pid m)"
| step_arc: "arc_new d (manager_store m) = (q, st) \<Longrightarrow> desc_ref_count d = 0 \<Longrightarrow>
    fdm_balanced_step m (m\<lparr>manager_store := st\<rparr>)"
| step_seek: "fdm_balanced_step m (m\<lparr>manager_store := set_cursor q cursor (manager_store m)\<rparr>)"
| step_open: "fdm_on_table pid (fd_open_with_details path flags filetype lock_target) m = (r, m') \<Longrightarrow>
    fdm_balanced_step m m'"
| step_open_with: "fdm_on_table pid (fd_open_with description filetype target) m = (r, m') \<Longrightarrow>
    description < length (desc_heap (manager_store m)) \<Longrightarrow> target_free m pid target \<Longrightarrow>
    fdm_balanced_step m m'"
| step_close: "fdm_on_table pid (fd_close fd) m = (rc, m') \<Longrightarrow> fdm_balanced_step m m'"
| step_dup: "fdm_on_table pid (fd_dup_with_status_flags fd flags_override) m = (r, m') \<Longrightarrow>
    fdm_balanced_step m m'"
| step_dup2: "fdm_on_table pid (fd_dup2 old_fd new_fd) m = (ru, m') \<Longrightarrow> fdm_balanced_step m m'"
| step_fcntl: "fdm_on_table pid (fd_fcntl fd command arg) m = (r, m') \<Longrightarrow> fdm_balanced_step m m'"

inductive fdm_step :: "fd_table_manager \<Rightarrow> fd_table_manager \<Rightarrow> bool" where
  step_balanced: "fdm_balanced_step m m' \<Longrightarrow> fdm_step m m'"
| step_open_over: "fdm_on_table pid (fd_open_with description filetype target) m = (r, m') \<Longrightarrow>
    description < length (desc_heap (manager_store m)) \<Longrightarrow> fdm_step m m'"
| step_stdio: "override_ok (manager_store m) ov0 \<Longrightarrow> override_ok (manager_store m) ov1 \<Longrightarrow>
    override_ok (manager_store m) ov2 \<Longrightarrow> fdm_step m (fdm_create_with_stdio pid ov0 ov1 ov2 m)"

lemma fdm_balanced_step_gap:
  assumes "fdm_balanced_step m m'" "fdm_inv m"
  shows "fdm_tables_wf m' \<and> (\<forall>p. ref_gap m' p = ref_gap m p)"
  using assms
proof (cases rule: fdm_balanced_step.cases)
  case (step_seek q cursor)
  have "fdm_tables_wf (m\<lparr>manager_store := set_cursor q cursor (manager_store m)\<rparr>)"
    using assms(2) by (auto simp: fdm_inv_def intro: fdm_tables_wf_store)
  then show ?thesis
    by (simp add: step_seek ref_gap_def manager_refs_def)
next
  case (step_open pid path flags filetype lock_target r)
  show ?thesis
    using fdm_on_table_gap [OF assms(2) step_open] fdm_inv_table [OF assms(2)] fd_balanced_open
    by blast
next
  case (step_open_with pid description filetype target r)
  have "fd_balanced (manager_store m) t st' t'"
    if "bt_get (fd_tables m) pid = Some t" "fd_open_with description filetype target (manager_store m) t = (x, st', t')"
    for t x st' t'
    using that step_open_with fdm_inv_table(1) [OF assms(2) that(1)]
    by (intro fd_balanced_open_with [of _ _ description target filetype x])
       (auto simp: target_free_def split: option.splits)
  then show ?thesis
    using fdm_on_table_gap [OF assms(2) step_open_with(1)] by blast
next
  case (step_close pid fd rc)
  then show ?thesis
    using fdm_on_table_gap [OF assms(2) step_close] fdm_inv_table [OF assms(2)] fd_balanced_close
    by blast
next
  case (step_dup pid fd flags_override r)
  then show ?thesis
    using fdm_on_table_gap [OF assms(2) step_dup] fdm_inv_table [OF assms(2)] fd_balanced_dup
    by blast
next
  case (step_dup2 pid old_fd new_fd ru)
  then show ?thesis
    using fdm_on_table_gap [OF assms(2) step_dup2] fdm_inv_table [OF assms(2)] fd_balanced_dup2
    by blast
next
  case (step_fcntl pid fd command arg r)
  then show ?thesis
    using fdm_on_table_gap [OF assms(2) step_fcntl] fdm_inv_table [OF assms(2)] fd_balanced_fcntl
    by blast
qed (auto simp: fdm_create_gap fdm_fork_gap fdm_remove_gap intro: arc_new_gap)

text \<open>Opening over a used descriptor loses the reference of the old description but not its count.\<close>

lemma fdm_open_over_gap:
  assumes "fdm_inv m" "fdm_on_table pid (fd_open_with description filetype target) m = (r, m')"
    "description < length (desc_heap (manager_store m))" "\<not> target_free m pid target"
  shows "fdm_tables_wf m' \<and> (\<forall>p. ref_gap m p \<le> ref_gap m' p)"
proof -
  from assms(4) obtain fd t e where t: "target = Some fd" "bt_get (fd_tables m) pid = Some t"
    "bt_get (fd_entries t) fd = Some e"
    by (auto simp: target_free_def split: option.splits)
  show ?thesis
  proof (cases "unat fd < table_max_fds t")
    case False
    with assms t have "fd_tables m' = fd_tables m" "manager_store m' = manager_store m"
      by (auto simp: fdm_on_table_def fd_open_with_def validate_fd_bounds_def fdm_put_def intro!: bt_eqI)
    then show ?thesis
      using assms(1) by (simp add: fdm_inv_def fdm_tables_wf_def ref_gap_def manager_refs_def)
  next
    case True
    let ?st = "increment_ref_count description (manager_store m)"
    let ?t = "put_fd fd (plain_entry fd description filetype) t"
    have m': "m' = fdm_put pid ?t (m\<lparr>manager_store := ?st\<rparr>)"
      using True assms(2) t by (simp add: fdm_on_table_def fd_open_with_def validate_fd_bounds_def)
    have wf: "table_wf (manager_store m) t"
      by (rule fdm_inv_table(1) [OF assms(1) t(2)])
    have "table_wf ?st ?t"
      using assms(3) table_wf_mono [OF wf] by (intro table_wf_put) (auto simp: plain_entry_def)
    moreover have "fdm_tables_wf (m\<lparr>manager_store := ?st\<rparr>)"
      using assms(1) by (auto simp: fdm_inv_def intro: fdm_tables_wf_store)
    ultimately have "fdm_tables_wf m'"
      by (simp add: m' fdm_tables_wf_put)
    moreover have "ref_gap m p \<le> ref_gap m' p" for p
      using manager_refs_put [of p pid ?t "m\<lparr>manager_store := ?st\<rparr>"] t assms(3)
        table_refs_put [of p fd "plain_entry fd description filetype" t]
      by (auto simp: ref_gap_def m' fdm_put_def manager_refs_def plain_entry_def entry_refs_def)
    ultimately show ?thesis by blast
  qed
qed

lemma fdm_step_inv:
  assumes "fdm_step m m'" "fdm_inv m"
  shows "fdm_inv m'"
  using assms
proof (cases rule: fdm_step.cases)
  case step_balanced
  then show ?thesis
    using fdm_balanced_step_gap [OF _ assms(2)] assms(2) by (auto simp: fdm_inv_def)
next
  case (step_open_over pid description filetype target r)
  show ?thesis
  proof (cases "target_free m pid target")
    case True
    then show ?thesis
      using fdm_balanced_step_gap [OF fdm_balanced_step.step_open_with [OF step_open_over True] assms(2)] assms(2)
      by (auto simp: fdm_inv_def)
  next
    case False
    have "0 \<le> ref_gap m' p" for p
      using fdm_open_over_gap [OF assms(2) step_open_over False] assms(2)
      by (meson fdm_inv_def order_trans)
    then show ?thesis
      using fdm_open_over_gap [OF assms(2) step_open_over False] by (simp add: fdm_inv_def)
  qed
next
  case (step_stdio ov0 ov1 ov2 pid)
  obtain a st1 where a: "stdio_desc ov0 ''/dev/stdin'' O_RDONLY (manager_store m) = (a, st1)" by fastforce
  obtain b st2 where b: "stdio_desc ov1 ''/dev/stdout'' O_WRONLY st1 = (b, st2)" by fastforce
  obtain c st3 where c: "stdio_desc ov2 ''/dev/stderr'' O_WRONLY st2 = (c, st3)" by fastforce
  show ?thesis
    using fdm_create_with_stdio_gap [OF assms(2) step_stdio(2-4) a b c] assms(2)
    by (simp add: step_stdio(1) fdm_inv_def)
qed

lemma fdm_init_inv: "fdm_inv (fdm_with_max_fds n)" "ref_gap (fdm_with_max_fds n) p = 0"
  by (simp_all add: fdm_inv_def fdm_tables_wf_def ref_gap_def manager_refs_def fdm_with_max_fds_def
      ref_count_of_def)

interpretation fdm: invariant_system "fdm_with_max_fds n" fdm_step fdm_inv for n
  by unfold_locales (auto simp: fdm_init_inv intro: fdm_step_inv)

interpretation fdm_exact: invariant_system "fdm_with_max_fds n" fdm_balanced_step
    "\<lambda>m. fdm_inv m \<and> (\<forall>p. ref_gap m p = 0)" for n
  by unfold_locales
     (auto simp: fdm_init_inv fdm_balanced_step_gap intro: fdm_step_inv step_balanced)

subsection \<open>Properties\<close>

text \<open>
  C4. No premature release: whatever the processes do, the reference count of a description is at least
  the number of descriptors, over all processes, that refer to it.
\<close>

theorem fdm_counts_cover:
  assumes "fdm_step\<^sup>*\<^sup>* (fdm_with_max_fds n) m"
  shows "manager_refs p m \<le> ref_count_of (manager_store m) p"
  using fdm.reachable_inv [OF assms] by (simp add: fdm_inv_def ref_gap_def)

theorem fdm_counts_cover_witness:
  "fdm_step\<^sup>*\<^sup>* (fdm_with_max_fds 8) (fdm_create 1 (fdm_with_max_fds 8)) \<and>
   manager_refs 0 (fdm_create 1 (fdm_with_max_fds 8)) \<le>
     ref_count_of (manager_store (fdm_create 1 (fdm_with_max_fds 8))) 0"
proof -
  have run: "fdm_step\<^sup>*\<^sup>* (fdm_with_max_fds 8) (fdm_create 1 (fdm_with_max_fds 8))"
    by (intro r_into_rtranclp step_balanced step_create)
  show ?thesis
    using fdm_counts_cover [OF run, of 0] run by blast
qed

text \<open>
  C5. No leak either, as long as no descriptor in use is overwritten by \<^verbatim>\<open>open_with\<close> and no process is
  created by \<^verbatim>\<open>create_with_stdio\<close>: the count equals the number of referring descriptors.
\<close>

theorem fdm_counts_exact:
  assumes "fdm_balanced_step\<^sup>*\<^sup>* (fdm_with_max_fds n) m"
  shows "ref_count_of (manager_store m) p = manager_refs p m"
  using fdm_exact.reachable_inv [OF assms] by (simp add: ref_gap_def)

theorem fdm_counts_exact_witness:
  "fdm_balanced_step\<^sup>*\<^sup>* (fdm_with_max_fds 8) (fdm_fork 1 2 (fdm_create 1 (fdm_with_max_fds 8))) \<and>
   ref_count_of (manager_store (fdm_fork 1 2 (fdm_create 1 (fdm_with_max_fds 8)))) 0
     = manager_refs 0 (fdm_fork 1 2 (fdm_create 1 (fdm_with_max_fds 8)))"
proof -
  have run: "fdm_balanced_step\<^sup>*\<^sup>* (fdm_with_max_fds 8) (fdm_fork 1 2 (fdm_create 1 (fdm_with_max_fds 8)))"
    by (meson rtranclp.rtrancl_into_rtrancl rtranclp.rtrancl_refl step_create step_fork)
  show ?thesis
    using fdm_counts_exact [OF run, of 0] run by blast
qed



text \<open>
  C7. \<^verbatim>\<open>open\<close>: for a limit that fits a descriptor number, it fails exactly when the table is full, then with
  \<^verbatim>\<open>EMFILE\<close> and without an effect on the open descriptors; otherwise it installs, at a number below the
  limit that was free, a new description at offset 0 with count 1, and leaves the others alone.
\<close>

theorem fd_open_spec:
  assumes "table_max_fds t \<le> 2 ^ 32" "fd_open_with_details path flags filetype lock_target st t = (r, st', t')"
  shows "case r of
      Inl e \<Rightarrow> bt_len (fd_entries t) \<ge> table_max_fds t \<and> err_code e = EMFILE \<and> st' = st \<and> t' = t
    | Inr fd \<Rightarrow> bt_len (fd_entries t) < table_max_fds t \<and> unat fd < table_max_fds t \<and>
        bt_get (fd_entries t) fd = None \<and>
        fd_entries t' = bt_insert fd \<lparr>entry_fd = fd, entry_description = length (desc_heap st),
          entry_status_flags = flags AND O_NONBLOCK, entry_fd_flags = 0, entry_rights = 0,
          entry_filetype = filetype\<rparr> (fd_entries t) \<and>
        desc_heap st' = desc_heap st @ [\<lparr>desc_id = next_description_id st, desc_path = path,
          desc_lock_target = lock_target, desc_cursor = 0, desc_flags = flags AND NOT O_NONBLOCK,
          desc_ref_count = 1\<rparr>]"
proof -
  obtain a t1 where al: "allocate_fd t = (a, t1)" by fastforce
  show ?thesis
  proof (cases a)
    case (Inl e)
    then have "bt_len (fd_entries t) \<ge> table_max_fds t"
      using allocate_fd_complete [OF assms(1)] al by fastforce
    then show ?thesis
      using allocate_fd_error [of t e t1] assms(2) al Inl
      by (auto simp: fd_open_with_details_def fd_too_many_open_files_def)
  next
    case (Inr fd)
    have "flags AND NOT (flags AND O_NONBLOCK) = flags AND NOT O_NONBLOCK"
      by (intro bit_word_eqI) (auto simp: bit_simps)
    then show ?thesis
      using allocate_fd_ok [of t fd t1] allocate_fd_table [OF al] assms(2) al Inr
      by (auto simp: fd_open_with_details_def allocate_with_lock_def arc_new_def new_with_lock_def
          with_ref_count_and_lock_def put_fd_def Let_def description_flags_def description_status_flags_def
          ENTRY_STATUS_FLAG_MASK_def)
  qed
qed

theorem fd_open_spec_witness:
  "fst (fd_open_with_details ''a'' 0 4 None \<lparr>next_description_id = 1, desc_heap = []\<rparr> (fd_table_new 4)) = Inr 3 \<and>
   unat (3::u32) < table_max_fds (fd_table_new 4)"
proof -
  let ?st = "\<lparr>next_description_id = 1, desc_heap = []\<rparr>"
  obtain r st' t' where res: "fd_open_with_details ''a'' 0 4 None ?st (fd_table_new 4) = (r, st', t')"
    using prod_cases3 by blast
  have "allocate_fd (fd_table_new 4) = (Inr 3, (fd_table_new 4)\<lparr>next_fd := word_saturating_add 3 1\<rparr>)"
    by (simp add: allocate_fd_def fd_table_new_def Let_def bt_contains_def upt_rec)
  then have "r = Inr 3"
    using res by (auto simp: fd_open_with_details_def split: prod.splits)
  then show ?thesis
    using fd_open_spec [OF _ res] res by (simp add: fd_table_new_def)
qed

text \<open>
  C8. \<^verbatim>\<open>fcntl(F_DUPFD)\<close> returns the least free descriptor that is not below its argument. The new descriptor
  shares the description, copies the status flags, has \<^verbatim>\<open>FD_CLOEXEC\<close> clear, and no other descriptor changes.
\<close>

theorem fcntl_dupfd_least:
  assumes "fd_fcntl fd F_DUPFD arg st t = (Inr new_fd, st', t')"
  shows "arg \<le> new_fd \<and> unat new_fd < table_max_fds t \<and> bt_get (fd_entries t) new_fd = None \<and>
    (\<forall>c. arg \<le> c \<and> c < new_fd \<longrightarrow> bt_get (fd_entries t) c \<noteq> None) \<and>
    (\<exists>e. bt_get (fd_entries t) fd = Some e \<and>
       fd_entries t' = bt_insert new_fd (e\<lparr>entry_fd := new_fd, entry_fd_flags := 0\<rparr>) (fd_entries t) \<and>
       st' = increment_ref_count (entry_description e) st)"
proof -
  obtain e where e: "bt_get (fd_entries t) fd = Some e"
    using assms by (auto simp: fd_fcntl_def split: option.splits)
  obtain t1 where al: "allocate_fd_from arg t = (Inr new_fd, t1)"
    and dup: "duplicate_entry e new_fd (entry_status_flags e) 0 st t1 = (Inr new_fd, st', t')"
    using assms e by (auto simp: fd_fcntl_def validate_fcntl_dup_min_def duplicate_entry_def
        split: if_splits sum.splits prod.splits)
  have least: "bt_get (fd_entries t) c \<noteq> None" if "arg \<le> c" "c < new_fd" for c
    using allocate_fd_from_least [OF al that] .
  have eq: "e\<lparr>entry_fd := new_fd, entry_fd_flags := 0\<rparr> = \<lparr>entry_fd = new_fd,
      entry_description = entry_description e, entry_status_flags = entry_status_flags e,
      entry_fd_flags = 0, entry_rights = entry_rights e, entry_filetype = entry_filetype e\<rparr>"
    by (cases e) simp
  have "fd_entries t' = bt_insert new_fd (e\<lparr>entry_fd := new_fd, entry_fd_flags := 0\<rparr>) (fd_entries t)"
    "st' = increment_ref_count (entry_description e) st"
    unfolding eq using allocate_fd_from_table [OF al] dup by (auto simp: duplicate_entry_def put_fd_def)
  then show ?thesis
    using allocate_fd_from_ok [OF al] least e by blast
qed

theorem fcntl_dupfd_least_witness:
  "let t = put_fd 4 (plain_entry 4 0 4) (put_fd 3 (plain_entry 3 0 4) (fd_table_new 8)) in
   bt_get (fd_entries t) 3 \<noteq> None \<and> bt_get (fd_entries t) 4 \<noteq> None \<and> bt_get (fd_entries t) 5 = None \<and>
   fst (fd_fcntl 3 F_DUPFD 3 \<lparr>next_description_id = 2, desc_heap = [with_ref_count 1 ''a'' 0 2]\<rparr> t) = Inr 5"
proof -
  let ?t = "put_fd 4 (plain_entry 4 0 4) (put_fd 3 (plain_entry 3 0 4) (fd_table_new 8))"
  let ?st = "\<lparr>next_description_id = 2, desc_heap = [with_ref_count 1 ''a'' 0 2]\<rparr>"
  have "fst (fd_fcntl 3 F_DUPFD 3 ?st ?t) = Inr 5"
    by (simp add: fd_fcntl_def put_fd_def fd_table_new_def validate_fcntl_dup_min_def allocate_fd_from_def
        bt_len_insert bt_contains_def upt_rec duplicate_entry_def)
  then obtain st' t' where res: "fd_fcntl 3 F_DUPFD 3 ?st ?t = (Inr 5, st', t')"
    by (metis prod.collapse)
  show ?thesis
    using fcntl_dupfd_least [OF res] res by (auto simp: put_fd_def)
qed

text \<open>
  C9. Status flags: after \<^verbatim>\<open>fcntl(F_SETFL, arg)\<close> on a descriptor, \<^verbatim>\<open>F_GETFL\<close> on it returns the access mode it
  was opened with and exactly the \<^verbatim>\<open>O_APPEND\<close> and \<^verbatim>\<open>O_NONBLOCK\<close> bits of \<open>arg\<close>. A second descriptor of the same
  description sees the new \<^verbatim>\<open>O_APPEND\<close> bit but keeps its own \<^verbatim>\<open>O_NONBLOCK\<close> bit.
\<close>

theorem fcntl_setfl_getfl:
  assumes "table_wf st t" "bt_get (fd_entries t) fd = Some e" "bt_get (fd_entries t) fd2 = Some e2"
    "entry_description e2 = entry_description e" "fd_fcntl fd F_SETFL arg st t = (r, st', t')"
  shows "fst (fd_fcntl fd2 F_GETFL 0 st' t') =
    Inr ((desc_flags (desc_at st (entry_description e)) AND 3) OR (arg AND O_APPEND) OR
      ((if fd2 = fd then arg else entry_status_flags e2) AND O_NONBLOCK))"
proof -
  have p: "entry_description e < length (desc_heap st)"
    using assms(1,2) by (auto simp: table_wf_def)
  have st': "st' = update_flags (entry_description e) O_APPEND arg st"
    and t': "t' = put_fd fd (e\<lparr>entry_status_flags := arg AND O_NONBLOCK\<rparr>) t"
    using assms(2,5) by (auto simp: fd_fcntl_def fcntl_consts SHARED_STATUS_FLAG_MASK_def ENTRY_STATUS_FLAG_MASK_def)
  have flags: "desc_flags (desc_at st' (entry_description e)) =
      (desc_flags (desc_at st (entry_description e)) AND NOT O_APPEND) OR (arg AND O_APPEND)"
    using p by (simp add: st' update_flags_def update_desc_def desc_at_def)
  have bits: "((d AND NOT O_APPEND OR a AND O_APPEND) AND (3 OR O_APPEND)) = (d AND 3) OR (a AND O_APPEND)"
    for d a :: u32
  proof -
    have "(3 AND O_APPEND :: u32) = 0"
      by (simp add: O_APPEND_def)
    then have "\<not> (bit (3 :: u32) n \<and> bit O_APPEND n)" for n
      by (metis bit_and_iff bit_0_eq bot_apply bot_bool_def)
    then show ?thesis
      by (intro bit_word_eqI) (auto simp: bit_and_iff bit_or_iff bit_not_iff simp del: bit_numeral_iff)
  qed
  show ?thesis
    using assms(2-4) flags bits
    by (auto simp: fd_fcntl_def fcntl_consts t' put_fd_def visible_fd_flags_def and.assoc or.assoc
        SHARED_STATUS_FLAG_MASK_def ENTRY_STATUS_FLAG_MASK_def)
qed


theorem fcntl_setfl_getfl_witness:
  "fst (fd_fcntl 4 F_GETFL 0
      \<lparr>next_description_id = 2, desc_heap = [with_ref_count 1 ''a'' (O_RDWR OR O_APPEND) 2]\<rparr>
      (put_fd 3 \<lparr>entry_fd = 3, entry_description = 0, entry_status_flags = O_NONBLOCK, entry_fd_flags = 0,
          entry_rights = 0, entry_filetype = 4\<rparr>
        (put_fd 4 (plain_entry 4 0 4) (fd_table_new 8)))) = Inr (O_RDWR OR O_APPEND)"
proof -
  let ?st = "\<lparr>next_description_id = 2, desc_heap = [with_ref_count 1 ''a'' O_RDWR 2]\<rparr>"
  let ?t = "put_fd 3 (plain_entry 3 0 4) (put_fd 4 (plain_entry 4 0 4) (fd_table_new 8))"
  let ?arg = "O_APPEND OR O_NONBLOCK"
  have wf: "table_wf ?st ?t"
    by (auto simp: table_wf_def put_fd_def plain_entry_def)
  have get: "bt_get (fd_entries ?t) 3 = Some (plain_entry 3 0 4)" "bt_get (fd_entries ?t) 4 = Some (plain_entry 4 0 4)"
    by (simp_all add: put_fd_def)
  have shared: "entry_description (plain_entry 4 0 4) = entry_description (plain_entry 3 0 4)"
    by (simp add: plain_entry_def)
  obtain r st' t' where res: "fd_fcntl 3 F_SETFL ?arg ?st ?t = (r, st', t')"
    using prod_cases3 by blast
  have "st' = \<lparr>next_description_id = 2, desc_heap = [with_ref_count 1 ''a'' (O_RDWR OR O_APPEND) 2]\<rparr>"
    "t' = put_fd 3 \<lparr>entry_fd = 3, entry_description = 0, entry_status_flags = O_NONBLOCK, entry_fd_flags = 0,
          entry_rights = 0, entry_filetype = 4\<rparr> (put_fd 4 (plain_entry 4 0 4) (fd_table_new 8))"
    using res get by (auto simp: fd_fcntl_def fcntl_consts open_flag_consts update_flags_def update_desc_def
        with_ref_count_def with_ref_count_and_lock_def plain_entry_def put_fd_def intro!: bt_eqI)
  then show ?thesis
    using fcntl_setfl_getfl [OF wf get shared res]
    by (simp add: desc_at_def with_ref_count_def with_ref_count_and_lock_def plain_entry_def open_flag_consts)
qed

end
