(* ===== verification/File_Lock.thy ===== *)
theory File_Lock
  imports Fd_Table
begin

text \<open>
  The advisory file locks of \<^verbatim>\<open>fd_table.rs\<close> (\<^verbatim>\<open>FlockOperation\<close>, \<^verbatim>\<open>FileLockManager\<close>, \<^verbatim>\<open>FileLockEntry\<close>). The
  state under the mutex is one map from lock targets to entries. \<^verbatim>\<open>acquire\<close> is one pass of its loop;
  sleeping and waking are steps of a world that keeps the sleeping callers with a mark for those
  a \<^verbatim>\<open>notify_all\<close> has woken. The lemmas show mutual exclusion in every reachable state, and which
  steps can leave a caller asleep whose lock is free.
\<close>

instantiation file_lock_target :: linorder
begin

definition less_eq_file_lock_target :: "file_lock_target \<Rightarrow> file_lock_target \<Rightarrow> bool" where
  "less_eq_file_lock_target a b \<longleftrightarrow> lock_ino a \<le> lock_ino b"

definition less_file_lock_target :: "file_lock_target \<Rightarrow> file_lock_target \<Rightarrow> bool" where
  "less_file_lock_target a b \<longleftrightarrow> lock_ino a < lock_ino b"

instance
  by standard (auto simp: less_eq_file_lock_target_def less_file_lock_target_def
      intro: file_lock_target.expand)

end

datatype file_lock_mode = ModeShared | ModeExclusive

datatype flock_operation = FlockShared (flock_nonblocking: bool) | FlockExclusive (flock_nonblocking: bool)
  | FlockUnlock

definition flock_from_bits :: "u32 \<Rightarrow> flock_operation result" where
  "flock_from_bits operation =
     (let nonblocking = (operation AND LOCK_NB \<noteq> 0);
          op = operation AND NOT LOCK_NB
      in if op = LOCK_SH then Inr (FlockShared nonblocking)
         else if op = LOCK_EX then Inr (FlockExclusive nonblocking)
         else if op = LOCK_UN then Inr FlockUnlock
         else Inl (fd_invalid_argument (''invalid flock operation '' @ show_hex (unat operation))))"

record file_lock_entry =
  lock_shared :: "u64 bset"
  lock_exclusive :: "u64 option"

type_synonym lock_state = "(file_lock_target, file_lock_entry) btree"

definition default_lock_entry :: file_lock_entry where
  "default_lock_entry = \<lparr>lock_shared = bs_empty, lock_exclusive = None\<rparr>"

definition owner_free :: "u64 option \<Rightarrow> u64 \<Rightarrow> bool" where
  "owner_free ex owner_id = (case ex of None \<Rightarrow> True | Some owner \<Rightarrow> owner = owner_id)"

fun can_grant :: "file_lock_entry \<Rightarrow> u64 \<Rightarrow> file_lock_mode \<Rightarrow> bool" where
  "can_grant e owner_id ModeShared = owner_free (lock_exclusive e) owner_id"
| "can_grant e owner_id ModeExclusive =
     (owner_free (lock_exclusive e) owner_id \<and> list_all (\<lambda>owner. owner = owner_id) (bs_elems (lock_shared e)))"

fun grant :: "u64 \<Rightarrow> file_lock_mode \<Rightarrow> file_lock_entry \<Rightarrow> file_lock_entry" where
  "grant owner_id ModeShared e =
     e\<lparr>lock_exclusive := None, lock_shared := bs_insert owner_id (lock_shared e)\<rparr>"
| "grant owner_id ModeExclusive e =
     e\<lparr>lock_shared := bt_retain (\<lambda>owner _. owner \<noteq> owner_id) (lock_shared e),
       lock_exclusive := Some owner_id\<rparr>"

definition lock_entry_is_empty :: "file_lock_entry \<Rightarrow> bool" where
  "lock_entry_is_empty e \<longleftrightarrow> lock_exclusive e = None \<and> bt_is_empty (lock_shared e)"

definition entry_or_default :: "lock_state \<Rightarrow> file_lock_target \<Rightarrow> file_lock_entry" where
  "entry_or_default s target = unwrap_or (bt_get s target) default_lock_entry"

text \<open>One pass of \<^verbatim>\<open>acquire\<close>. \<^verbatim>\<open>entry(target).or_default()\<close> inserts before the test.\<close>

definition lock_acquire ::
    "u64 \<Rightarrow> file_lock_target \<Rightarrow> file_lock_mode \<Rightarrow> bool \<Rightarrow> lock_state \<Rightarrow> unit result attempt \<times> lock_state" where
  "lock_acquire owner_id target mode nonblocking s =
     (let e = entry_or_default s target in
      if can_grant e owner_id mode then (Return (Inr ()), bt_insert target (grant owner_id mode e) s)
      else if nonblocking
        then (Return (Inl (fd_would_block ''advisory file lock is unavailable'')), bt_insert target e s)
      else (Blocked, bt_insert target e s))"

definition owner_holds :: "u64 \<Rightarrow> file_lock_entry \<Rightarrow> bool" where
  "owner_holds owner_id e \<longleftrightarrow> bs_member (lock_shared e) owner_id \<or> lock_exclusive e = Some owner_id"

definition drop_owner :: "u64 \<Rightarrow> file_lock_entry \<Rightarrow> file_lock_entry" where
  "drop_owner owner_id e =
     e\<lparr>lock_shared := bs_remove owner_id (lock_shared e),
       lock_exclusive := (if lock_exclusive e = Some owner_id then None else lock_exclusive e)\<rparr>"

text \<open>\<^verbatim>\<open>release_owner\<close>; the result is also whether \<^verbatim>\<open>notify_all\<close> runs.\<close>

definition lock_release_owner :: "u64 \<Rightarrow> lock_state \<Rightarrow> bool \<times> lock_state" where
  "lock_release_owner owner_id s =
     (list_ex (owner_holds owner_id) (bt_values s),
      bt_retain (\<lambda>_ e. \<not> lock_entry_is_empty e) (bt_mapv (\<lambda>_. drop_owner owner_id) s))"

definition lock_apply ::
    "u64 \<Rightarrow> file_lock_target \<Rightarrow> flock_operation \<Rightarrow> lock_state \<Rightarrow> unit result attempt \<times> bool \<times> lock_state" where
  "lock_apply owner_id target operation s =
     (case operation of
        FlockShared nonblocking \<Rightarrow>
          (let (r, s') = lock_acquire owner_id target ModeShared nonblocking s in (r, False, s'))
      | FlockExclusive nonblocking \<Rightarrow>
          (let (r, s') = lock_acquire owner_id target ModeExclusive nonblocking s in (r, False, s'))
      | FlockUnlock \<Rightarrow>
          (let (released, s') = lock_release_owner owner_id s in (Return (Inr ()), released, s')))"

subsection \<open>Granting and releasing\<close>

lemma owner_free_simps [simp]:
  "owner_free None o1" "owner_free (Some o2) o1 \<longleftrightarrow> o2 = o1"
  by (simp_all add: owner_free_def)

lemma bs_member_retain [simp]:
  "bs_member (bt_retain p s) k \<longleftrightarrow> bs_member s k \<and> p k ()"
  by (auto simp: bs_member_def bt_contains_def split: option.splits)

definition lock_entry_ok :: "file_lock_entry \<Rightarrow> bool" where
  "lock_entry_ok e \<longleftrightarrow> \<not> lock_entry_is_empty e \<and>
     (\<forall>o1. lock_exclusive e = Some o1 \<longrightarrow> lock_shared e = bs_empty)"

definition lock_inv :: "lock_state \<Rightarrow> bool" where
  "lock_inv s \<longleftrightarrow> (\<forall>t e. bt_get s t = Some e \<longrightarrow> lock_entry_ok e)"

lemma lock_entry_is_empty_iff:
  "lock_entry_is_empty e \<longleftrightarrow> (\<forall>owner. \<not> owner_holds owner e)"
  by (cases "lock_exclusive e") (auto simp: lock_entry_is_empty_def owner_holds_def bs_is_empty_iff)

lemma can_grant_iff:
  "can_grant e o1 mode \<longleftrightarrow> (case mode of
      ModeShared \<Rightarrow> \<forall>o2. lock_exclusive e = Some o2 \<longrightarrow> o2 = o1
    | ModeExclusive \<Rightarrow> \<forall>o2. owner_holds o2 e \<longrightarrow> o2 = o1)"
  by (cases mode; cases "lock_exclusive e") (auto simp: owner_holds_def list_all_iff)

lemma grant_holds:
  "owner_holds o1 (grant o1 mode e)"
  "can_grant e o1 mode \<Longrightarrow> o2 \<noteq> o1 \<Longrightarrow> owner_holds o2 (grant o1 mode e) \<longleftrightarrow> owner_holds o2 e"
  by (cases mode; auto simp: owner_holds_def can_grant_iff)+

lemma grant_ok:
  assumes "can_grant e o1 mode" "lock_entry_ok e \<or> e = default_lock_entry"
  shows "lock_entry_ok (grant o1 mode e)"
proof -
  have "\<not> lock_entry_is_empty (grant o1 mode e)"
    using grant_holds(1) by (auto simp: lock_entry_is_empty_iff)
  moreover have "lock_shared (grant o1 ModeExclusive e) = bs_empty" if "mode = ModeExclusive"
    using assms(1) that by (intro bs_eqI) (auto simp: list_all_iff)
  ultimately show ?thesis
    by (cases mode) (auto simp: lock_entry_ok_def)
qed

lemma can_grant_default [simp]: "can_grant default_lock_entry o1 mode"
  by (cases mode) (auto simp: default_lock_entry_def list_all_iff)

lemma entry_or_default_ok:
  "lock_inv s \<Longrightarrow> lock_entry_ok (entry_or_default s t) \<or> entry_or_default s t = default_lock_entry"
  by (cases "bt_get s t") (auto simp: entry_or_default_def lock_inv_def)

lemma lock_acquire_cases:
  assumes "lock_acquire o1 t mode nb s = (r, s')"
  obtains (granted) "can_grant (entry_or_default s t) o1 mode" "r = Return (Inr ())"
      "s' = bt_insert t (grant o1 mode (entry_or_default s t)) s"
    | (refused) "\<not> can_grant (entry_or_default s t) o1 mode" "nb"
      "r = Return (Inl (fd_would_block ''advisory file lock is unavailable''))" "s' = s"
    | (blocked) "\<not> can_grant (entry_or_default s t) o1 mode" "\<not> nb" "r = Blocked" "s' = s"
proof (cases "can_grant (entry_or_default s t) o1 mode")
  case True
  then show ?thesis using assms granted by (simp add: lock_acquire_def)
next
  case False
  then obtain e where "bt_get s t = Some e" "entry_or_default s t = e"
    by (cases "bt_get s t") (auto simp: entry_or_default_def)
  then have "bt_insert t (entry_or_default s t) s = s"
    by (simp add: bt_insert_idle)
  then show ?thesis
    using False assms refused blocked by (auto simp: lock_acquire_def Let_def split: if_splits)
qed

lemma lock_acquire_inv:
  assumes "lock_inv s" "lock_acquire o1 t mode nb s = (r, s')"
  shows "lock_inv s'"
  using assms(2)
proof (cases rule: lock_acquire_cases)
  case granted
  then show ?thesis
    using assms(1) grant_ok [OF _ entry_or_default_ok [OF assms(1)]] by (auto simp: lock_inv_def)
qed (use assms in auto)

lemma drop_owner_holds: "owner_holds o2 (drop_owner o1 e) \<longleftrightarrow> owner_holds o2 e \<and> o2 \<noteq> o1"
  by (auto simp: owner_holds_def drop_owner_def)

lemma lock_release_inv:
  assumes "lock_inv s" "lock_release_owner o1 s = (r, s')"
  shows "lock_inv s'"
proof -
  have "lock_entry_ok (drop_owner o1 e)" if "lock_entry_ok e" "\<not> lock_entry_is_empty (drop_owner o1 e)" for e
    using that by (auto simp: lock_entry_ok_def drop_owner_def intro!: bs_eqI)
  then show ?thesis
    using assms by (auto simp: lock_inv_def lock_release_owner_def split: option.splits if_splits)
qed

lemma lock_apply_inv:
  assumes "lock_inv s" "lock_apply o1 t operation s = (r, n, s')"
  shows "lock_inv s'"
  using assms lock_acquire_inv [OF assms(1)] lock_release_inv [OF assms(1)]
  by (cases operation) (auto simp: lock_apply_def split: prod.splits)

lemma lock_release_get:
  "bt_get (snd (lock_release_owner o1 s)) t =
     (case bt_get s t of None \<Rightarrow> None
      | Some e \<Rightarrow> if lock_entry_is_empty (drop_owner o1 e) then None else Some (drop_owner o1 e))"
  by (simp add: lock_release_owner_def split: option.splits)

subsection \<open>Sleeping and waking\<close>

datatype sleeper = Sleeper (sleeper_owner: u64) (sleeper_target: file_lock_target)
  (sleeper_mode: file_lock_mode) (sleeper_woken: bool)

record lock_world =
  world_locks :: lock_state
  world_sleepers :: "sleeper list"

definition lock_world_init :: lock_world where
  "lock_world_init = \<lparr>world_locks = bt_empty, world_sleepers = []\<rparr>"

fun wake :: "sleeper \<Rightarrow> sleeper" where
  "wake (Sleeper o1 t mode _) = Sleeper o1 t mode True"

definition notify_all :: "bool \<Rightarrow> sleeper list \<Rightarrow> sleeper list" where
  "notify_all released zs = (if released then map wake zs else zs)"

text \<open>
  A call of \<^verbatim>\<open>apply\<close> returns or goes to sleep; a woken sleeper runs the loop body again and returns or
  sleeps again; \<^verbatim>\<open>release_owner\<close> is also called when the last descriptor of a description closes.
\<close>

inductive lock_step :: "lock_world \<Rightarrow> lock_world \<Rightarrow> bool" where
  lock_returns: "lock_apply o1 t operation (world_locks w) = (Return r, n, s') \<Longrightarrow>
    lock_step w (w\<lparr>world_locks := s', world_sleepers := notify_all n (world_sleepers w)\<rparr>)"
| lock_sleeps: "lock_acquire o1 t mode False (world_locks w) = (Blocked, s') \<Longrightarrow>
    lock_step w (w\<lparr>world_locks := s', world_sleepers := world_sleepers w @ [Sleeper o1 t mode False]\<rparr>)"
| lock_retry_returns: "world_sleepers w = xs @ Sleeper o1 t mode True # ys \<Longrightarrow>
    lock_acquire o1 t mode False (world_locks w) = (Return r, s') \<Longrightarrow>
    lock_step w (w\<lparr>world_locks := s', world_sleepers := xs @ ys\<rparr>)"
| lock_retry_sleeps: "world_sleepers w = xs @ Sleeper o1 t mode True # ys \<Longrightarrow>
    lock_acquire o1 t mode False (world_locks w) = (Blocked, s') \<Longrightarrow>
    lock_step w (w\<lparr>world_locks := s', world_sleepers := xs @ Sleeper o1 t mode False # ys\<rparr>)"
| lock_release: "lock_release_owner o1 (world_locks w) = (n, s') \<Longrightarrow>
    lock_step w (w\<lparr>world_locks := s', world_sleepers := notify_all n (world_sleepers w)\<rparr>)"

inductive_cases lock_stepE: "lock_step w w'"

lemma lock_step_inv: "lock_inv (world_locks w) \<Longrightarrow> lock_step w w' \<Longrightarrow> lock_inv (world_locks w')"
  by (erule lock_stepE) (auto intro: lock_apply_inv lock_acquire_inv lock_release_inv)

interpretation locks: invariant_system lock_world_init lock_step "\<lambda>w. lock_inv (world_locks w)"
  by unfold_locales (simp add: lock_world_init_def lock_inv_def, rule lock_step_inv)

text \<open>
  A sleeper is stranded when the lock it waits for could be granted and nothing has woken it. A
  downgrade is a shared request by the owner of the exclusive lock: the one grant that makes
  other requests grantable, and \<^verbatim>\<open>acquire\<close> does not notify.
\<close>

definition stranded :: "lock_world \<Rightarrow> sleeper \<Rightarrow> bool" where
  "stranded w z \<longleftrightarrow> z \<in> set (world_sleepers w) \<and> \<not> sleeper_woken z \<and>
     can_grant (entry_or_default (world_locks w) (sleeper_target z)) (sleeper_owner z) (sleeper_mode z)"

definition lock_downgrade :: "u64 \<Rightarrow> file_lock_target \<Rightarrow> file_lock_mode \<Rightarrow> lock_state \<Rightarrow> bool" where
  "lock_downgrade o1 t mode s \<longleftrightarrow>
     mode = ModeShared \<and> lock_exclusive (entry_or_default s t) = Some o1"

lemma grant_enables_none:
  assumes "can_grant e o1 mode" "can_grant (grant o1 mode e) o2 mode2"
    "\<not> (mode = ModeShared \<and> lock_exclusive e = Some o1)"
  shows "can_grant e o2 mode2"
proof (cases "o2 = o1")
  case True
  with assms show ?thesis
    by (cases mode; cases mode2) (auto simp: can_grant_iff owner_holds_def)
next
  case False
  with assms show ?thesis
    by (cases mode; cases mode2; cases "lock_exclusive e") (auto simp: can_grant_iff owner_holds_def)
qed

lemma lock_acquire_enables_none:
  assumes "lock_acquire o1 t mode nb s = (r, s')" "\<not> lock_downgrade o1 t mode s"
    "can_grant (entry_or_default s' t2) o2 mode2"
  shows "can_grant (entry_or_default s t2) o2 mode2"
  using assms(1)
proof (cases rule: lock_acquire_cases)
  case granted
  show ?thesis
  proof (cases "t2 = t")
    case True
    then show ?thesis
      using granted assms(2,3) grant_enables_none [OF granted(1)]
      by (auto simp: lock_downgrade_def entry_or_default_def)
  next
    case False
    then show ?thesis
      using granted assms(3) by (simp add: entry_or_default_def)
  qed
qed (use assms in auto)

lemma wake_woken: "sleeper_woken (wake z)"
  by (cases z) simp

lemma lock_release_idle:
  assumes "lock_inv s" "lock_release_owner o1 s = (False, s')"
  shows "s' = s"
proof (rule bt_eqI)
  fix t
  show "bt_get s' t = bt_get s t"
  proof (cases "bt_get s t")
    case (Some e)
    then have "\<not> owner_holds o1 e"
      using assms(2) by (auto simp: lock_release_owner_def list_ex_iff in_bt_values_iff)
    then have "drop_owner o1 e = e"
      by (auto simp: drop_owner_def owner_holds_def intro!: file_lock_entry.equality bs_eqI)
    then show ?thesis
      using lock_release_get [of o1 s t] Some assms by (auto simp: lock_inv_def lock_entry_ok_def)
  qed (use lock_release_get [of o1 s t] assms(2) in simp)
qed

definition downgraded :: "lock_world \<Rightarrow> lock_world \<Rightarrow> bool" where
  "downgraded w w' \<longleftrightarrow> (\<exists>t o1. lock_exclusive (entry_or_default (world_locks w) t) = Some o1 \<and>
     bs_member (lock_shared (entry_or_default (world_locks w') t)) o1)"

lemma lock_acquire_downgraded:
  assumes "lock_acquire o1 t mode nb (world_locks w) = (r, world_locks w')" "lock_downgrade o1 t mode (world_locks w)"
  shows "downgraded w w'"
  using assms(1)
proof (cases rule: lock_acquire_cases)
  case granted
  then show ?thesis
    using assms(2) by (auto simp: downgraded_def lock_downgrade_def entry_or_default_def intro!: exI [of _ t])
qed (use assms(2) in \<open>auto simp: lock_downgrade_def\<close>)

lemma stranded_acquire:
  assumes "lock_acquire o1 t mode nb (world_locks w) = (r, world_locks w')" "\<not> downgraded w w'"
    "stranded w' z" "z \<in> set (world_sleepers w)"
  shows "stranded w z"
  using lock_acquire_enables_none [OF assms(1)] lock_acquire_downgraded [OF assms(1)] assms(2-4)
  unfolding stranded_def by blast

lemma stranded_release:
  assumes "lock_inv (world_locks w)" "lock_release_owner o1 (world_locks w) = (n, s')"
    "stranded (w\<lparr>world_locks := s', world_sleepers := notify_all n (world_sleepers w)\<rparr>) z"
  shows "stranded w z"
  using assms lock_release_idle [OF assms(1)]
  by (cases n) (auto simp: stranded_def notify_all_def wake_woken)

lemma lock_apply_returns:
  assumes "lock_apply o1 t operation s = (Return r, n, s')"
  shows "(\<exists>mode nb. lock_acquire o1 t mode nb s = (Return r, s') \<and> \<not> n) \<or> lock_release_owner o1 s = (n, s')"
  using assms by (cases operation) (auto simp: lock_apply_def split: prod.splits)

lemma lock_step_stranded:
  assumes "lock_inv (world_locks w)" "lock_step w w'" "\<not> downgraded w w'" "stranded w' z"
  shows "\<exists>z. stranded w z"
  using assms(2)
proof (cases rule: lock_step.cases)
  case (lock_returns o1 t operation r n s')
  from lock_apply_returns [OF lock_returns(2)] show ?thesis
  proof
    assume "\<exists>mode nb. lock_acquire o1 t mode nb (world_locks w) = (Return r, s') \<and> \<not> n"
    then obtain mode nb where acq: "lock_acquire o1 t mode nb (world_locks w) = (Return r, s')" and "\<not> n"
      by blast
    then have "world_locks w' = s'" "world_sleepers w' = world_sleepers w"
      by (simp_all add: lock_returns(1) notify_all_def)
    then show ?thesis
      using stranded_acquire [of o1 t mode nb w "Return r" w'] acq assms(3,4) by (auto simp: stranded_def)
  next
    assume "lock_release_owner o1 (world_locks w) = (n, s')"
    then show ?thesis
      using stranded_release [OF assms(1)] assms(4) lock_returns(1) by blast
  qed
next
  case (lock_sleeps o1 t mode s')
  have acq: "lock_acquire o1 t mode False (world_locks w) = (Blocked, world_locks w')"
    using lock_sleeps by simp
  show ?thesis
  proof (cases "z \<in> set (world_sleepers w)")
    case True
    then show ?thesis
      using stranded_acquire [OF acq assms(3,4)] by blast
  next
    case False
    then have "z = Sleeper o1 t mode False"
      using assms(4) lock_sleeps by (auto simp: stranded_def)
    then show ?thesis
      using assms(4) acq by (auto simp: stranded_def elim: lock_acquire_cases)
  qed
next
  case (lock_retry_returns xs o1 t mode ys r s')
  have "lock_acquire o1 t mode False (world_locks w) = (Return r, world_locks w')"
    using lock_retry_returns by simp
  moreover have "z \<in> set (world_sleepers w)"
    using assms(4) lock_retry_returns by (auto simp: stranded_def)
  ultimately show ?thesis
    using stranded_acquire [of o1 t mode False w "Return r" w'] assms(3,4) by blast
next
  case (lock_retry_sleeps xs o1 t mode ys s')
  have acq: "lock_acquire o1 t mode False (world_locks w) = (Blocked, world_locks w')"
    using lock_retry_sleeps by simp
  show ?thesis
  proof (cases "z \<in> set (world_sleepers w)")
    case True
    then show ?thesis
      using stranded_acquire [OF acq assms(3,4)] by blast
  next
    case False
    then have "z = Sleeper o1 t mode False"
      using assms(4) lock_retry_sleeps by (auto simp: stranded_def)
    then show ?thesis
      using assms(4) acq by (auto simp: stranded_def elim: lock_acquire_cases)
  qed
next
  case (lock_release o1 n s')
  then show ?thesis
    using stranded_release [OF assms(1)] assms(4) by blast
qed

definition steady_lock_step :: "lock_world \<Rightarrow> lock_world \<Rightarrow> bool" where
  "steady_lock_step w w' \<longleftrightarrow> lock_step w w' \<and> \<not> downgraded w w'"

interpretation steady_locks: invariant_system lock_world_init steady_lock_step
    "\<lambda>w. lock_inv (world_locks w) \<and> (\<forall>z. \<not> stranded w z)"
proof unfold_locales
  show "lock_inv (world_locks lock_world_init) \<and> (\<forall>z. \<not> stranded lock_world_init z)"
    by (simp add: lock_world_init_def lock_inv_def stranded_def)
next
  fix w w'
  assume "lock_inv (world_locks w) \<and> (\<forall>z. \<not> stranded w z)" "steady_lock_step w w'"
  then show "lock_inv (world_locks w') \<and> (\<forall>z. \<not> stranded w' z)"
    unfolding steady_lock_step_def using lock_step_inv lock_step_stranded by blast
qed

subsection \<open>A run\<close>

text \<open>Owner 1 takes the exclusive lock of target 1 and owner 2 goes to sleep for the shared one.\<close>

abbreviation target1 :: file_lock_target where
  "target1 \<equiv> FileLockTarget 1"

abbreviation sleeper2 :: sleeper where
  "sleeper2 \<equiv> Sleeper 2 target1 ModeShared False"

definition exclusive_by :: "u64 \<Rightarrow> lock_state" where
  "exclusive_by owner = bt_insert target1 \<lparr>lock_shared = bs_empty, lock_exclusive = Some owner\<rparr> bt_empty"

lemma bs_retain_empty [simp]: "bt_retain p bs_empty = (bs_empty :: u64 bset)"
  by (rule bs_eqI) simp

lemmas lock_evals = lock_apply_def lock_acquire_def entry_or_default_def default_lock_entry_def
  bs_elems_def Let_def lock_world_init_def notify_all_def exclusive_by_def

lemma run_exclusive: "lock_step lock_world_init \<lparr>world_locks = exclusive_by owner, world_sleepers = []\<rparr>"
  using lock_returns [of owner target1 "FlockExclusive False" lock_world_init "Inr ()" False]
  by (simp add: lock_evals)

lemma run_sleep:
  "lock_step \<lparr>world_locks = exclusive_by 1, world_sleepers = []\<rparr>
     \<lparr>world_locks = exclusive_by 1, world_sleepers = [sleeper2]\<rparr>"
  using lock_sleeps [of 2 target1 ModeShared "\<lparr>world_locks = exclusive_by 1, world_sleepers = []\<rparr>" "exclusive_by 1"]
  by (simp add: lock_evals bt_insert_idle)

lemma run_release:
  "lock_step \<lparr>world_locks = exclusive_by 1, world_sleepers = [sleeper2]\<rparr>
     \<lparr>world_locks = bt_empty, world_sleepers = [wake sleeper2]\<rparr>"
proof -
  have "bt_retain (\<lambda>_ e. \<not> lock_entry_is_empty e) (bt_mapv (\<lambda>_. drop_owner 1) (exclusive_by 1)) = bt_empty"
    by (rule bt_eqI)
       (auto simp: exclusive_by_def drop_owner_def lock_entry_is_empty_iff owner_holds_def split: option.splits)
  then have "lock_release_owner 1 (exclusive_by 1) = (True, bt_empty)"
    by (simp add: lock_release_owner_def exclusive_by_def owner_holds_def bt_values_def)
  then show ?thesis
    using lock_release [of 1 "\<lparr>world_locks = exclusive_by 1, world_sleepers = [sleeper2]\<rparr>" True bt_empty]
    by (simp add: notify_all_def)
qed

subsection \<open>Properties\<close>

text \<open>
  C1. Mutual exclusion: in every state the lock manager can reach, an owner that holds the exclusive
  lock of a target is the only owner that holds any lock of it.
\<close>

theorem lock_mutual_exclusion:
  assumes "lock_step\<^sup>*\<^sup>* lock_world_init w" "bt_get (world_locks w) t = Some e"
    "lock_exclusive e = Some o1" "owner_holds o2 e"
  shows "o2 = o1"
proof -
  have "lock_entry_ok e"
    using locks.reachable_inv [OF assms(1)] assms(2) by (simp add: lock_inv_def)
  then show ?thesis
    using assms(3,4) by (auto simp: lock_entry_ok_def owner_holds_def)
qed

theorem lock_mutual_exclusion_witness:
  "lock_step\<^sup>*\<^sup>* lock_world_init \<lparr>world_locks = exclusive_by 7, world_sleepers = []\<rparr> \<and>
   owner_holds 7 \<lparr>lock_shared = bs_empty, lock_exclusive = Some 7\<rparr> \<and> (7::u64) = 7"
proof -
  note run = r_into_rtranclp [of lock_step, OF run_exclusive, of 7]
  show ?thesis
    using lock_mutual_exclusion [OF run, of target1 "\<lparr>lock_shared = bs_empty, lock_exclusive = Some 7\<rparr>" 7 7] run
    by (simp add: owner_holds_def exclusive_by_def)
qed

text \<open>
  C2. No lost wake-up without a downgrade: as long as no owner turns its exclusive lock into a shared
  one, no caller sleeps unwoken while the lock it asks for could be granted.
\<close>

theorem lock_no_lost_wakeup:
  assumes "steady_lock_step\<^sup>*\<^sup>* lock_world_init w" "z \<in> set (world_sleepers w)"
    "can_grant (entry_or_default (world_locks w) (sleeper_target z)) (sleeper_owner z) (sleeper_mode z)"
  shows "sleeper_woken z"
  using steady_locks.reachable_inv [OF assms(1)] assms(2,3) by (auto simp: stranded_def)

theorem lock_no_lost_wakeup_witness:
  "steady_lock_step\<^sup>*\<^sup>* lock_world_init \<lparr>world_locks = bt_empty, world_sleepers = [wake sleeper2]\<rparr> \<and>
   can_grant (entry_or_default bt_empty target1) 2 ModeShared \<and> sleeper_woken (wake sleeper2)"
proof -
  let ?w = "\<lambda>s zs. \<lparr>world_locks = s, world_sleepers = zs\<rparr>"
  have "steady_lock_step lock_world_init (?w (exclusive_by 1) [])"
    "steady_lock_step (?w (exclusive_by 1) []) (?w (exclusive_by 1) [sleeper2])"
    "steady_lock_step (?w (exclusive_by 1) [sleeper2]) (?w bt_empty [wake sleeper2])"
    using run_exclusive [of 1] run_sleep run_release
    by (auto simp: steady_lock_step_def downgraded_def lock_evals)
  then have run: "steady_lock_step\<^sup>*\<^sup>* lock_world_init (?w bt_empty [wake sleeper2])"
    by (meson rtranclp.rtrancl_into_rtrancl rtranclp.rtrancl_refl)
  then show ?thesis
    using lock_no_lost_wakeup [OF run, of "wake sleeper2"]
    by (simp add: entry_or_default_def default_lock_entry_def)
qed


end
