(* ===== verification/Byte_Queue.thy ===== *)
theory Byte_Queue
  imports Prelude
begin

text \<open>
  The chunked byte buffers of pipes and pseudo-terminals (\<^verbatim>\<open>VecDeque<Vec<u8>>\<close> with \<^verbatim>\<open>buffer_size\<close> and
  \<^verbatim>\<open>drain_buffer\<close>). The locale \<open>byte_queue\<close> is their contract: a queue of bytes, whatever the chunks.
  The conservation law of a byte queue is proved once there and used by both components.
\<close>

type_synonym chunks = "bytes list"

definition buffer_size :: "chunks \<Rightarrow> nat" where
  "buffer_size buffer = sum_list (map length buffer)"

fun drain_chunks :: "nat \<Rightarrow> chunks \<Rightarrow> chunks \<times> chunks" where
  "drain_chunks remaining [] = ([], [])"
| "drain_chunks remaining (chunk # buffer) =
     (if remaining = 0 then ([], chunk # buffer)
      else if length chunk \<le> remaining then
        let (taken, rest) = drain_chunks (remaining - length chunk) buffer in (chunk # taken, rest)
      else ([take remaining chunk], drop remaining chunk # buffer))"

definition drain_buffer :: "nat \<Rightarrow> chunks \<Rightarrow> bytes \<times> chunks" where
  "drain_buffer len buffer =
     (let (taken, rest) = drain_chunks len buffer
      in (case taken of [chunk] \<Rightarrow> chunk | _ \<Rightarrow> concat taken, rest))"

lemma buffer_size_simps [simp]:
  "buffer_size [] = 0"
  "buffer_size (c # b) = length c + buffer_size b"
  "buffer_size (b @ b') = buffer_size b + buffer_size b'"
  by (simp_all add: buffer_size_def)

lemma buffer_size_concat: "buffer_size b = length (concat b)"
  by (simp add: buffer_size_def length_concat)

lemma drain_chunks_concat:
  "drain_chunks n b = (taken, rest) \<Longrightarrow> concat taken = take n (concat b) \<and> concat rest = drop n (concat b)"
  by (induction n b arbitrary: taken rest rule: drain_chunks.induct) (auto split: if_splits prod.splits)

lemma drain_buffer_concat:
  "fst (drain_buffer n b) = take n (concat b)"
  "concat (snd (drain_buffer n b)) = drop n (concat b)"
proof -
  obtain taken rest where d: "drain_chunks n b = (taken, rest)" by fastforce
  have "(case taken of [chunk] \<Rightarrow> chunk | _ \<Rightarrow> concat taken) = concat taken"
    by (auto split: list.splits)
  then show "fst (drain_buffer n b) = take n (concat b)" "concat (snd (drain_buffer n b)) = drop n (concat b)"
    using drain_chunks_concat [OF d] by (simp_all add: drain_buffer_def d)
qed

lemma drain_buffer_empty [simp]: "drain_buffer n [] = ([], [])"
  by (simp add: drain_buffer_def)

subsection \<open>The contract of a byte queue\<close>

datatype queue_op = Push bytes | Drain nat

locale byte_queue =
  fixes content :: "'q \<Rightarrow> bytes"
    and push :: "bytes \<Rightarrow> 'q \<Rightarrow> 'q"
    and drain :: "nat \<Rightarrow> 'q \<Rightarrow> bytes \<times> 'q"
    and size_of :: "'q \<Rightarrow> nat"
  assumes content_push: "content (push bs q) = content q @ bs"
    and drain_result: "fst (drain n q) = take n (content q)"
    and content_drain: "content (snd (drain n q)) = drop n (content q)"
    and size_content: "size_of q = length (content q)"
begin

lemma drain_split: "drain n q = (bs, q') \<Longrightarrow> content q = bs @ content q'"
  using drain_result [of n q] content_drain [of n q] by simp

lemma drain_length: "drain n q = (bs, q') \<Longrightarrow> length bs = min n (size_of q)"
  using drain_result [of n q] by (auto simp: size_content)

lemma drain_size: "drain n q = (bs, q') \<Longrightarrow> size_of q' = size_of q - n"
  using content_drain [of n q] by (simp add: size_content)

lemma size_push: "size_of (push bs q) = size_of q + length bs"
  by (simp add: size_content content_push)

primrec run :: "queue_op list \<Rightarrow> 'q \<Rightarrow> bytes \<times> 'q" where
  "run [] q = ([], q)"
| "run (x # xs) q = (case x of
     Push bs \<Rightarrow> run xs (push bs q)
   | Drain n \<Rightarrow> let (out, q1) = drain n q; (outs, q2) = run xs q1 in (out @ outs, q2))"

definition pushed :: "queue_op list \<Rightarrow> bytes" where
  "pushed xs = concat (map (\<lambda>x. case x of Push bs \<Rightarrow> bs | Drain _ \<Rightarrow> []) xs)"

lemma pushed_simps [simp]:
  "pushed [] = []" "pushed (Push bs # xs) = bs @ pushed xs" "pushed (Drain n # xs) = pushed xs"
  by (simp_all add: pushed_def)

lemma conservation: "run xs q = (out, q') \<Longrightarrow> content q @ pushed xs = out @ content q'"
proof (induction xs arbitrary: q out)
  case (Cons x xs)
  show ?case
  proof (cases x)
    case (Push bs)
    with Cons.IH [of "push bs q" out] Cons.prems show ?thesis
      by (simp add: content_push)
  next
    case (Drain n)
    obtain o1 q1 where d: "drain n q = (o1, q1)" by fastforce
    obtain o2 q2 where r: "run xs q1 = (o2, q2)" by fastforce
    show ?thesis
      using Cons.IH [of q1 o2] Cons.prems d r drain_split [OF d] by (auto simp: Drain)
  qed
qed simp

end

interpretation chunk_buffer: byte_queue concat "\<lambda>bs b. b @ [bs]" drain_buffer buffer_size
  by unfold_locales (simp_all add: drain_buffer_concat buffer_size_concat)

end
