(* ===== verification/Pipe.thy ===== *)
theory Pipe
  imports Byte_Queue BTree_Map Poll Fd_Table
begin

text \<open>
  \<^verbatim>\<open>pipe_manager.rs\<close>. The manager's state under its mutex is a record; \<^verbatim>\<open>create_pipe\<close>, \<^verbatim>\<open>poll\<close>, \<^verbatim>\<open>close\<close> and
  the queries are functions on it. \<^verbatim>\<open>write_with_mode\<close> and \<^verbatim>\<open>read_with_timeout\<close> loop around a condition
  variable: one pass of the loop is a function, and going to sleep is the outcome \<open>Blocked\<close> (for a
  read with the waiter it has registered). The clock enters as the two booleans the code reads
  from it.
\<close>

definition MAX_PIPE_BUFFER_BYTES :: nat where "MAX_PIPE_BUFFER_BYTES = 65536"
definition PIPE_BUF_BYTES :: nat where "PIPE_BUF_BYTES = 4096"

definition pipe_bad_file_descriptor :: "string \<Rightarrow> sys_error" where
  "pipe_bad_file_descriptor msg = SysError EBADF msg"

definition pipe_broken_pipe :: "string \<Rightarrow> sys_error" where
  "pipe_broken_pipe msg = SysError EPIPE msg"

definition pipe_would_block :: "string \<Rightarrow> sys_error" where
  "pipe_would_block msg = SysError EAGAIN msg"

lemmas pipe_errors = pipe_bad_file_descriptor_def pipe_broken_pipe_def pipe_would_block_def

datatype pipe_side = PipeRead | PipeWrite

record pipe_end =
  end_description :: file_description
  end_filetype :: u8

record pipe_pair =
  pair_read :: pipe_end
  pair_write :: pipe_end

record pipe_ref =
  ref_pipe_id :: u64
  ref_end :: pipe_side

record pending_read =
  pending_length :: nat
  pending_result :: "bytes option option"

record pipe_state =
  pipe_buffer :: chunks
  closed_read :: bool
  closed_write :: bool
  waiting_reads :: "u64 list"

record pipe_manager =
  pipes :: "(u64, pipe_state) btree"
  desc_to_pipe :: "(u64, pipe_ref) btree"
  pipe_waiters :: "(u64, pending_read) btree"
  next_pipe_id :: u64
  next_pipe_desc_id :: u64
  next_waiter_id :: u64
  pipe_notifier :: "poll_notifier option"

definition pipe_state_default :: pipe_state where
  "pipe_state_default = \<lparr>pipe_buffer = [], closed_read = False, closed_write = False, waiting_reads = []\<rparr>"

definition pipe_manager_new :: "poll_notifier option \<Rightarrow> pipe_manager" where
  "pipe_manager_new notifier = \<lparr>pipes = bt_empty, desc_to_pipe = bt_empty, pipe_waiters = bt_empty,
     next_pipe_id = 1, next_pipe_desc_id = 100000, next_waiter_id = 1, pipe_notifier = notifier\<rparr>"

text \<open>
  \<^verbatim>\<open>notify_all\<close> on the condition variable has no state of its own: a sleeping caller may wake at any
  time, notified or not. The poll notifier's generation is state.
\<close>

definition notify_waiters_and_pollers :: "pipe_manager \<Rightarrow> pipe_manager" where
  "notify_waiters_and_pollers s = s\<lparr>pipe_notifier := map_option poll_notify (pipe_notifier s)\<rparr>"

definition update_pipe :: "u64 \<Rightarrow> (pipe_state \<Rightarrow> pipe_state) \<Rightarrow> pipe_manager \<Rightarrow> pipe_manager" where
  "update_pipe pipe_id f s = s\<lparr>pipes := bt_modify pipe_id f (pipes s)\<rparr>"

definition create_pipe :: "pipe_manager \<Rightarrow> pipe_pair \<times> pipe_manager" where
  "create_pipe s =
     (let pipe_id = next_pipe_id s;
          read_id = next_pipe_desc_id s;
          write_id = read_id + 1;
          pipe_name = ''pipe:'' @ show_word pipe_id
      in (\<lparr>pair_read = \<lparr>end_description = with_ref_count read_id (pipe_name @ '':read'') O_RDONLY 0,
                       end_filetype = FILETYPE_PIPE\<rparr>,
           pair_write = \<lparr>end_description = with_ref_count write_id (pipe_name @ '':write'') O_WRONLY 0,
                        end_filetype = FILETYPE_PIPE\<rparr>\<rparr>,
          s\<lparr>next_pipe_id := pipe_id + 1, next_pipe_desc_id := write_id + 1,
            pipes := bt_insert pipe_id pipe_state_default (pipes s),
            desc_to_pipe := bt_insert write_id \<lparr>ref_pipe_id = pipe_id, ref_end = PipeWrite\<rparr>
              (bt_insert read_id \<lparr>ref_pipe_id = pipe_id, ref_end = PipeRead\<rparr> (desc_to_pipe s))\<rparr>))"

definition pipe_available_capacity :: "pipe_state \<Rightarrow> nat" where
  "pipe_available_capacity p = MAX_PIPE_BUFFER_BYTES - buffer_size (pipe_buffer p)"

text \<open>The descriptor lookups of \<^verbatim>\<open>poll\<close> and \<^verbatim>\<open>waiting_reader_count\<close>.\<close>

definition pipe_of_desc :: "pipe_manager \<Rightarrow> u64 \<Rightarrow> (pipe_ref \<times> pipe_state) result" where
  "pipe_of_desc s description_id =
     (case bt_get (desc_to_pipe s) description_id of
        None \<Rightarrow> Inl (pipe_bad_file_descriptor ''not a pipe end'')
      | Some pipe_ref \<Rightarrow>
          (case bt_get (pipes s) (ref_pipe_id pipe_ref) of
             None \<Rightarrow> Inl (pipe_bad_file_descriptor ''pipe not found'')
           | Some p \<Rightarrow> Inr (pipe_ref, p)))"

definition pipe_poll :: "u64 \<Rightarrow> poll_events \<Rightarrow> pipe_manager \<Rightarrow> poll_events result" where
  "pipe_poll description_id requested s =
     (case pipe_of_desc s description_id of
        Inl e \<Rightarrow> Inl e
      | Inr (pipe_ref, p) \<Rightarrow>
          (case ref_end pipe_ref of
             PipeRead \<Rightarrow>
               let events = (if poll_intersects requested POLLIN \<and> pipe_buffer p \<noteq> []
                             then poll_bitor poll_empty POLLIN else poll_empty)
               in Inr (if closed_write p then poll_bitor events POLLHUP else events)
           | PipeWrite \<Rightarrow>
               if closed_read p then Inr (poll_bitor poll_empty POLLERR)
               else if poll_intersects requested POLLOUT
                       \<and> (pipe_available_capacity p > 0 \<or> waiting_reads p \<noteq> [])
               then Inr (poll_bitor poll_empty POLLOUT)
               else Inr poll_empty))"

subsection \<open>Writing\<close>

text \<open>
  The front of the waiting queue, skipping the waiters that are gone: the \<^verbatim>\<open>continue\<close> branches of the
  loop in \<^verbatim>\<open>write_with_mode\<close>.
\<close>

fun pop_waiter :: "(u64, pending_read) btree \<Rightarrow> u64 list \<Rightarrow> u64 option \<times> u64 list" where
  "pop_waiter waiters [] = (None, [])"
| "pop_waiter waiters (waiter_id # queue) =
     (if bt_contains waiters waiter_id then (Some waiter_id, queue) else pop_waiter waiters queue)"

definition push_chunk :: "u64 \<Rightarrow> bytes \<Rightarrow> pipe_manager \<Rightarrow> pipe_manager" where
  "push_chunk pipe_id chunk = update_pipe pipe_id (\<lambda>p. p\<lparr>pipe_buffer := pipe_buffer p @ [chunk]\<rparr>)"

definition deliver :: "u64 \<Rightarrow> bytes option \<Rightarrow> pipe_manager \<Rightarrow> pipe_manager" where
  "deliver waiter_id res s =
     s\<lparr>pipe_waiters := bt_modify waiter_id (\<lambda>w. w\<lparr>pending_result := Some res\<rparr>) (pipe_waiters s)\<rparr>"

definition pipe_write_pass :: "u64 \<Rightarrow> bytes \<Rightarrow> bool \<Rightarrow> pipe_manager \<Rightarrow> nat result attempt \<times> pipe_manager" where
  "pipe_write_pass pipe_id payload nonblocking s =
     (case bt_get (pipes s) pipe_id of
        None \<Rightarrow> (Return (Inl (pipe_bad_file_descriptor ''pipe not found'')), s)
      | Some p \<Rightarrow>
          if closed_write p then (Return (Inl (pipe_broken_pipe ''write end closed'')), s)
          else if closed_read p then (Return (Inl (pipe_broken_pipe ''read end closed'')), s)
          else
            let (waiter, queue) = pop_waiter (pipe_waiters s) (waiting_reads p);
                s1 = update_pipe pipe_id (\<lambda>p. p\<lparr>waiting_reads := queue\<rparr>) s
            in case waiter of
                 Some waiter_id \<Rightarrow>
                   let waiter_length = pending_length (the (bt_get (pipe_waiters s) waiter_id));
                       delivered_len = min waiter_length (length payload);
                       delivered = take delivered_len payload;
                       remainder = drop delivered_len payload;
                       s2 = (if remainder \<noteq> [] then push_chunk pipe_id remainder s1 else s1)
                   in (Return (Inr (length payload)),
                       notify_waiters_and_pollers (deliver waiter_id (Some delivered) s2))
               | None \<Rightarrow>
                   let available = MAX_PIPE_BUFFER_BYTES - buffer_size (pipe_buffer p)
                   in if length payload \<le> PIPE_BUF_BYTES then
                        if available \<ge> length payload
                        then (Return (Inr (length payload)),
                              notify_waiters_and_pollers (push_chunk pipe_id payload s1))
                        else if nonblocking then (Return (Inl (pipe_would_block ''pipe buffer full'')), s1)
                        else (Blocked, s1)
                      else if available > 0
                        then (let chunk_len = min available (length payload)
                              in (Return (Inr chunk_len),
                                  notify_waiters_and_pollers (push_chunk pipe_id (take chunk_len payload) s1)))
                      else if nonblocking then (Return (Inl (pipe_would_block ''pipe buffer full'')), s1)
                      else (Blocked, s1))"

definition pipe_side_of :: "pipe_manager \<Rightarrow> u64 \<Rightarrow> pipe_side \<Rightarrow> string \<Rightarrow> u64 result" where
  "pipe_side_of s description_id side msg =
     (case bt_get (desc_to_pipe s) description_id of
        None \<Rightarrow> Inl (pipe_bad_file_descriptor msg)
      | Some pipe_ref \<Rightarrow> if ref_end pipe_ref \<noteq> side then Inl (pipe_bad_file_descriptor msg)
                         else Inr (ref_pipe_id pipe_ref))"

definition pipe_write_with_mode ::
    "u64 \<Rightarrow> bytes \<Rightarrow> bool \<Rightarrow> pipe_manager \<Rightarrow> nat result attempt \<times> pipe_manager" where
  "pipe_write_with_mode description_id payload nonblocking s =
     (case pipe_side_of s description_id PipeWrite ''not a pipe write end'' of
        Inl e \<Rightarrow> (Return (Inl e), s)
      | Inr pipe_id \<Rightarrow> pipe_write_pass pipe_id payload nonblocking s)"

definition pipe_write :: "u64 \<Rightarrow> bytes \<Rightarrow> pipe_manager \<Rightarrow> nat result attempt \<times> pipe_manager" where
  "pipe_write description_id payload = pipe_write_with_mode description_id payload True"

definition pipe_write_blocking :: "u64 \<Rightarrow> bytes \<Rightarrow> pipe_manager \<Rightarrow> nat result attempt \<times> pipe_manager" where
  "pipe_write_blocking description_id payload = pipe_write_with_mode description_id payload False"

subsection \<open>Reading\<close>

datatype read_outcome = ReadReturn "bytes option result" | ReadWait u64

text \<open>The result a writer has left for this reader, if any: the first block of the loop.\<close>

definition taken_result :: "pipe_manager \<Rightarrow> u64 option \<Rightarrow> bytes option option" where
  "taken_result s waiter_id =
     (case waiter_id of None \<Rightarrow> None
      | Some i \<Rightarrow> (case bt_get (pipe_waiters s) i of None \<Rightarrow> None | Some w \<Rightarrow> pending_result w))"

definition remove_waiter :: "u64 option \<Rightarrow> pipe_manager \<Rightarrow> pipe_manager" where
  "remove_waiter waiter_id s =
     (case waiter_id of None \<Rightarrow> s | Some i \<Rightarrow> s\<lparr>pipe_waiters := bt_remove i (pipe_waiters s)\<rparr>)"

definition register_waiter :: "u64 \<Rightarrow> nat \<Rightarrow> pipe_manager \<Rightarrow> u64 \<times> pipe_manager" where
  "register_waiter pipe_id len s =
     (let nxt = next_waiter_id s
      in (nxt, notify_waiters_and_pollers
           (update_pipe pipe_id (\<lambda>p. p\<lparr>waiting_reads := waiting_reads p @ [nxt]\<rparr>)
             (s\<lparr>next_waiter_id := nxt + 1,
                pipe_waiters := bt_insert nxt \<lparr>pending_length = len, pending_result = None\<rparr>
                  (pipe_waiters s)\<rparr>))))"

definition pipe_read_pass ::
    "u64 \<Rightarrow> nat \<Rightarrow> u64 option \<Rightarrow> pipe_manager \<Rightarrow> read_outcome \<times> pipe_manager" where
  "pipe_read_pass pipe_id len waiter_id s =
     (case taken_result s waiter_id of
        Some res \<Rightarrow> (ReadReturn (Inr res), remove_waiter waiter_id s)
      | None \<Rightarrow>
          (case bt_get (pipes s) pipe_id of
             None \<Rightarrow> (ReadReturn (Inl (pipe_bad_file_descriptor ''pipe not found'')), s)
           | Some p \<Rightarrow>
               if pipe_buffer p \<noteq> [] then
                 let (res, rest) = drain_buffer len (pipe_buffer p)
                 in (ReadReturn (Inr (Some res)),
                     notify_waiters_and_pollers (update_pipe pipe_id (\<lambda>p. p\<lparr>pipe_buffer := rest\<rparr>) s))
               else if closed_write p then (ReadReturn (Inr None), remove_waiter waiter_id s)
               else
                 case waiter_id of
                   Some i \<Rightarrow> (ReadWait i, s)
                 | None \<Rightarrow> let (i, s') = register_waiter pipe_id len s in (ReadWait i, s')))"

definition pipe_read_timed_out ::
    "u64 \<Rightarrow> u64 option \<Rightarrow> pipe_manager \<Rightarrow> read_outcome \<times> pipe_manager" where
  "pipe_read_timed_out pipe_id waiter_id s =
     (ReadReturn (Inl (pipe_would_block ''pipe read timed out'')),
      case waiter_id of
        None \<Rightarrow> s
      | Some i \<Rightarrow> notify_waiters_and_pollers
          (update_pipe pipe_id (\<lambda>p. p\<lparr>waiting_reads := filter (\<lambda>queued. queued \<noteq> i) (waiting_reads p)\<rparr>)
            (remove_waiter waiter_id s)))"

text \<open>
  A pass up to the wait. \<open>deadline_passed\<close> is whether there is a deadline and the clock has reached it
  when the code compares them.
\<close>

definition pipe_read_turn ::
    "u64 \<Rightarrow> nat \<Rightarrow> bool \<Rightarrow> u64 option \<Rightarrow> pipe_manager \<Rightarrow> read_outcome \<times> pipe_manager" where
  "pipe_read_turn pipe_id len deadline_passed waiter_id s =
     (case pipe_read_pass pipe_id len waiter_id s of
        (ReadReturn r, s') \<Rightarrow> (ReadReturn r, s')
      | (ReadWait i, s') \<Rightarrow>
          if deadline_passed then pipe_read_timed_out pipe_id (Some i) s' else (ReadWait i, s'))"

text \<open>After the wait: \<open>timed_out\<close> is the result of a timed wait, false for an untimed one.\<close>

definition pipe_read_resume ::
    "u64 \<Rightarrow> nat \<Rightarrow> bool \<Rightarrow> bool \<Rightarrow> u64 \<Rightarrow> pipe_manager \<Rightarrow> read_outcome \<times> pipe_manager" where
  "pipe_read_resume pipe_id len timed_out deadline_passed i s =
     (let waiter_id = (if bt_contains (pipe_waiters s) i then Some i else None)
      in if timed_out then pipe_read_timed_out pipe_id waiter_id s
         else pipe_read_turn pipe_id len deadline_passed waiter_id s)"

definition pipe_read_with_timeout ::
    "u64 \<Rightarrow> nat \<Rightarrow> bool \<Rightarrow> pipe_manager \<Rightarrow> read_outcome \<times> pipe_manager" where
  "pipe_read_with_timeout description_id len deadline_passed s =
     (case pipe_side_of s description_id PipeRead ''not a pipe read end'' of
        Inl e \<Rightarrow> (ReadReturn (Inl e), s)
      | Inr pipe_id \<Rightarrow> pipe_read_turn pipe_id len deadline_passed None s)"

definition pipe_read :: "u64 \<Rightarrow> nat \<Rightarrow> pipe_manager \<Rightarrow> read_outcome \<times> pipe_manager" where
  "pipe_read description_id len = pipe_read_with_timeout description_id len False"

subsection \<open>Closing\<close>

definition pipe_close :: "u64 \<Rightarrow> pipe_manager \<Rightarrow> pipe_manager" where
  "pipe_close description_id s =
     (case bt_get (desc_to_pipe s) description_id of
        None \<Rightarrow> s
      | Some pipe_ref \<Rightarrow>
          let pipe_id = ref_pipe_id pipe_ref;
              s0 = s\<lparr>desc_to_pipe := bt_remove description_id (desc_to_pipe s)\<rparr>
          in case bt_get (pipes s) pipe_id of
               None \<Rightarrow> s0
             | Some p \<Rightarrow>
                 let (p', waiter_ids) =
                       (case ref_end pipe_ref of
                          PipeRead \<Rightarrow> (p\<lparr>closed_read := True\<rparr>, [])
                        | PipeWrite \<Rightarrow> (p\<lparr>closed_write := True, waiting_reads := []\<rparr>, waiting_reads p));
                     s1 = fold (\<lambda>w. deliver w None) waiter_ids (update_pipe pipe_id (\<lambda>_. p') s0);
                     s2 = (if closed_read p' \<and> closed_write p'
                           then s1\<lparr>pipes := bt_remove pipe_id (pipes s1)\<rparr> else s1)
                 in notify_waiters_and_pollers s2)"

definition is_pipe :: "pipe_manager \<Rightarrow> u64 \<Rightarrow> bool" where
  "is_pipe s description_id = bt_contains (desc_to_pipe s) description_id"

definition pipe_id_for :: "pipe_manager \<Rightarrow> u64 \<Rightarrow> u64 option" where
  "pipe_id_for s description_id = map_option ref_pipe_id (bt_get (desc_to_pipe s) description_id)"

definition pipe_count :: "pipe_manager \<Rightarrow> nat" where
  "pipe_count s = bt_len (pipes s)"

definition pipe_buffered_bytes :: "pipe_manager \<Rightarrow> nat" where
  "pipe_buffered_bytes s = sum_list (map (\<lambda>p. buffer_size (pipe_buffer p)) (bt_values (pipes s)))"

definition waiting_reader_count :: "pipe_manager \<Rightarrow> u64 \<Rightarrow> nat result" where
  "waiting_reader_count s description_id =
     (case pipe_of_desc s description_id of Inl e \<Rightarrow> Inl e | Inr (_, p) \<Rightarrow> Inr (length (waiting_reads p)))"

text \<open>\<^verbatim>\<open>create_pipe_fds\<close>: the two ends become descriptions of the store the table points into.\<close>

definition create_pipe_fds ::
    "pipe_manager \<Rightarrow> desc_store \<Rightarrow> process_fd_table
      \<Rightarrow> (u32 \<times> u32) result \<times> pipe_manager \<times> desc_store \<times> process_fd_table" where
  "create_pipe_fds s st t =
     (let (pair, s1) = create_pipe s;
          (read_desc, st1) = arc_new (end_description (pair_read pair)) st;
          (write_desc, st2) = arc_new (end_description (pair_write pair)) st1
      in case fd_open_with read_desc FILETYPE_PIPE None st2 t of
           (Inl e, st3, t1) \<Rightarrow> (Inl e, s1, st3, t1)
         | (Inr read_fd, st3, t1) \<Rightarrow>
             (case fd_open_with write_desc FILETYPE_PIPE None st3 t1 of
                (Inr write_fd, st4, t2) \<Rightarrow> (Inr (read_fd, write_fd), s1, st4, t2)
              | (Inl e, st4, t2) \<Rightarrow>
                  let (_, st5, t3) = fd_close read_fd st4 t2;
                      s2 = pipe_close (desc_id (end_description (pair_read pair))) s1;
                      s3 = pipe_close (desc_id (end_description (pair_write pair))) s2
                  in (Inl e, s3, st5, t3)))"

subsection \<open>Properties\<close>

lemma pop_waiter_live:
  "\<forall>i \<in> set q. bt_contains ws i \<Longrightarrow>
     pop_waiter ws q = (case q of [] \<Rightarrow> (None, []) | i # is \<Rightarrow> (Some i, is))"
  by (cases q) auto

lemma poll_events_distinct:
  "poll_bitor poll_empty POLLIN = POLLIN" "poll_bitor poll_empty POLLOUT = POLLOUT"
  "poll_bitor poll_empty POLLERR = POLLERR" "poll_bitor poll_empty POLLHUP = POLLHUP"
  "\<not> poll_intersects POLLERR POLLOUT" "\<not> poll_intersects poll_empty e" "\<not> poll_intersects POLLHUP POLLIN"
  by (simp_all add: poll_bitor_def poll_empty_def poll_consts poll_intersects_def)


definition one_pipe :: pipe_manager where
  "one_pipe = snd (create_pipe (pipe_manager_new None))"

lemma one_pipe_gets:
  "bt_get (pipes one_pipe) 1 = Some pipe_state_default"
  "bt_get (desc_to_pipe one_pipe) 100001 = Some \<lparr>ref_pipe_id = 1, ref_end = PipeWrite\<rparr>"
  by (simp_all add: one_pipe_def create_pipe_def pipe_manager_new_def Let_def)




text \<open>
  C15. \<^verbatim>\<open>create_pipe_fds\<close> on a full descriptor table fails with \<^verbatim>\<open>EMFILE\<close> and leaves the new pipe and its two
  descriptions behind in the manager: only the failure of the second descriptor is cleaned up.
\<close>

theorem create_pipe_fds_leaks:
  assumes "bt_len (fd_entries t) \<ge> table_max_fds t" "bt_get (pipes s) (next_pipe_id s) = None"
    "create_pipe_fds s st t = (r, s', st', t')"
  shows "r = Inl fd_too_many_open_files \<and> t' = t \<and> pipe_count s' = pipe_count s + 1 \<and>
    is_pipe s' (next_pipe_desc_id s) \<and> is_pipe s' (next_pipe_desc_id s + 1)"
proof -
  have "allocate_fd t = (Inl fd_too_many_open_files, t)"
    using assms(1) by (simp add: allocate_fd_def)
  then have "r = Inl fd_too_many_open_files" "t' = t" "s' = snd (create_pipe s)"
    using assms(3) by (auto simp: create_pipe_fds_def fd_open_with_def create_pipe_def arc_new_def Let_def)
  then show ?thesis
    using assms(2) by (simp add: create_pipe_def Let_def pipe_count_def bt_len_insert is_pipe_def bt_contains_def)
qed

theorem create_pipe_fds_leaks_witness:
  "fst (create_pipe_fds (pipe_manager_new None) \<lparr>next_description_id = 1, desc_heap = []\<rparr> (fd_table_new 0))
     = Inl fd_too_many_open_files \<and>
   pipe_count (fst (snd (create_pipe_fds (pipe_manager_new None)
     \<lparr>next_description_id = 1, desc_heap = []\<rparr> (fd_table_new 0)))) = 1"
proof -
  let ?st = "\<lparr>next_description_id = 1, desc_heap = []\<rparr>"
  obtain r s' st' t' where res: "create_pipe_fds (pipe_manager_new None) ?st (fd_table_new 0) = (r, s', st', t')"
    using prod_cases4 by blast
  show ?thesis
    using create_pipe_fds_leaks [OF _ _ res] res
    by (simp add: fd_table_new_def pipe_manager_new_def pipe_count_def)
qed

end
