(* ===== verification/Pipe_Stream.thy ===== *)
theory Pipe_Stream
  imports Pipe
begin

text \<open>
  What a pipe promises its users: the bytes read are the bytes written, in order. A world adds to
  the manager the callers that sleep in \<^verbatim>\<open>read_with_timeout\<close>, and as history variables the bytes every
  pipe accepted and handed out. Steps are the calls of the manager and the wake-ups of sleepers,
  in any order. The promise holds as long as at most one caller at a time sleeps on a pipe and no
  timeout races with a delivery (the steps marked \<open>solo\<close>); without these conditions runs that lose
  bytes exist.
\<close>

record pipe_reader =
  rd_pipe :: u64
  rd_len :: nat
  rd_waiter :: u64

record pipe_world =
  pw_state :: pipe_manager
  pw_readers :: "pipe_reader list"
  pw_sent :: "u64 \<Rightarrow> bytes"
  pw_recv :: "u64 \<Rightarrow> bytes"

definition pipe_world_init :: pipe_world where
  "pipe_world_init = \<lparr>pw_state = pipe_manager_new None, pw_readers = [], pw_sent = \<lambda>_. [], pw_recv = \<lambda>_. []\<rparr>"

definition after_write :: "u64 \<Rightarrow> bytes \<Rightarrow> nat result attempt \<times> pipe_manager \<Rightarrow> pipe_world \<Rightarrow> pipe_world" where
  "after_write pid payload res w =
     (case res of
        (Return (Inr n), s) \<Rightarrow> w\<lparr>pw_state := s, pw_sent := (pw_sent w)(pid := pw_sent w pid @ take n payload)\<rparr>
      | (_, s) \<Rightarrow> w\<lparr>pw_state := s\<rparr>)"

definition after_read ::
    "u64 \<Rightarrow> nat \<Rightarrow> pipe_reader list \<Rightarrow> read_outcome \<times> pipe_manager \<Rightarrow> pipe_world \<Rightarrow> pipe_world" where
  "after_read pid len others res w =
     (case res of
        (ReadReturn (Inr (Some bs)), s) \<Rightarrow>
          w\<lparr>pw_state := s, pw_readers := others, pw_recv := (pw_recv w)(pid := pw_recv w pid @ bs)\<rparr>
      | (ReadReturn _, s) \<Rightarrow> w\<lparr>pw_state := s, pw_readers := others\<rparr>
      | (ReadWait i, s) \<Rightarrow>
          w\<lparr>pw_state := s, pw_readers := others @ [\<lparr>rd_pipe = pid, rd_len = len, rd_waiter = i\<rparr>]\<rparr>)"

text \<open>
  The 64-bit counters do not wrap within a run: \<open>ids_left\<close>. A write is a pass for a pipe number,
  which covers first calls and the retries of sleeping writers alike.
\<close>

definition ids_left :: "pipe_manager \<Rightarrow> bool" where
  "ids_left s \<longleftrightarrow> next_pipe_id s \<noteq> - 1 \<and> next_waiter_id s \<noteq> - 1"

inductive pipe_step :: "bool \<Rightarrow> pipe_world \<Rightarrow> pipe_world \<Rightarrow> bool" for solo where
  pstep_create: "ids_left (pw_state w) \<Longrightarrow> pipe_step solo w (w\<lparr>pw_state := snd (create_pipe (pw_state w))\<rparr>)"
| pstep_write: "pipe_step solo w (after_write pid payload (pipe_write_pass pid payload nb (pw_state w)) w)"
| pstep_read: "ids_left (pw_state w) \<Longrightarrow> pid < next_pipe_id (pw_state w) \<Longrightarrow>
    (solo \<Longrightarrow> pid \<notin> rd_pipe ` set (pw_readers w)) \<Longrightarrow>
    pipe_step solo w (after_read pid len (pw_readers w) (pipe_read_turn pid len late None (pw_state w)) w)"
| pstep_resume: "ids_left (pw_state w) \<Longrightarrow> pw_readers w = xs @ r # ys \<Longrightarrow>
    (solo \<Longrightarrow> timed_out \<Longrightarrow> taken_result (pw_state w) (Some (rd_waiter r)) = None) \<Longrightarrow>
    pipe_step solo w (after_read (rd_pipe r) (rd_len r) (xs @ ys)
      (pipe_read_resume (rd_pipe r) (rd_len r) timed_out late (rd_waiter r) (pw_state w)) w)"
| pstep_close: "pipe_step solo w (w\<lparr>pw_state := pipe_close did (pw_state w)\<rparr>)"

subsection \<open>Elementary effects\<close>

lemma notify_fields [simp]:
  "pipes (notify_waiters_and_pollers s) = pipes s"
  "desc_to_pipe (notify_waiters_and_pollers s) = desc_to_pipe s"
  "pipe_waiters (notify_waiters_and_pollers s) = pipe_waiters s"
  "next_pipe_id (notify_waiters_and_pollers s) = next_pipe_id s"
  "next_waiter_id (notify_waiters_and_pollers s) = next_waiter_id s"
  by (simp_all add: notify_waiters_and_pollers_def)

lemma update_pipe_fields [simp]:
  "pipes (update_pipe pid f s) = bt_modify pid f (pipes s)"
  "desc_to_pipe (update_pipe pid f s) = desc_to_pipe s"
  "pipe_waiters (update_pipe pid f s) = pipe_waiters s"
  "next_pipe_id (update_pipe pid f s) = next_pipe_id s"
  "next_waiter_id (update_pipe pid f s) = next_waiter_id s"
  by (simp_all add: update_pipe_def)

lemma push_chunk_fields [simp]:
  "pipes (push_chunk pid c s) = bt_modify pid (\<lambda>p. p\<lparr>pipe_buffer := pipe_buffer p @ [c]\<rparr>) (pipes s)"
  "pipe_waiters (push_chunk pid c s) = pipe_waiters s"
  "next_pipe_id (push_chunk pid c s) = next_pipe_id s"
  "next_waiter_id (push_chunk pid c s) = next_waiter_id s"
  by (simp_all add: push_chunk_def)

lemma deliver_fields [simp]:
  "pipes (deliver i res s) = pipes s"
  "pipe_waiters (deliver i res s) = bt_modify i (\<lambda>w. w\<lparr>pending_result := Some res\<rparr>) (pipe_waiters s)"
  "next_pipe_id (deliver i res s) = next_pipe_id s"
  "next_waiter_id (deliver i res s) = next_waiter_id s"
  by (simp_all add: deliver_def)

lemma taken_result_Some:
  "taken_result s (Some i) = (case bt_get (pipe_waiters s) i of None \<Rightarrow> None | Some w \<Rightarrow> pending_result w)"
  by (simp add: taken_result_def)

lemma taken_result_waiters: "pipe_waiters s' = pipe_waiters s \<Longrightarrow> taken_result s' i = taken_result s i"
  by (cases i) (simp_all add: taken_result_def)

lemma taken_result_None [simp]: "taken_result s None = None"
  by (simp add: taken_result_def)

subsection \<open>The invariant\<close>

definition result_bytes :: "bytes option option \<Rightarrow> bytes" where
  "result_bytes res = (case res of Some (Some bs) \<Rightarrow> bs | _ \<Rightarrow> [])"

text \<open>Bytes a writer has handed to a sleeping reader that has not run since.\<close>

definition inflight :: "pipe_manager \<Rightarrow> pipe_reader list \<Rightarrow> u64 \<Rightarrow> bytes" where
  "inflight s rs pid =
     concat (map (\<lambda>r. if rd_pipe r = pid then result_bytes (taken_result s (Some (rd_waiter r))) else []) rs)"

definition readers_ok :: "pipe_manager \<Rightarrow> pipe_reader list \<Rightarrow> bool" where
  "readers_ok s rs \<longleftrightarrow> distinct (map rd_pipe rs) \<and> distinct (map rd_waiter rs) \<and>
     (\<forall>r \<in> set rs. bt_contains (pipe_waiters s) (rd_waiter r) \<and> rd_pipe r < next_pipe_id s) \<and>
     (\<forall>i. bt_contains (pipe_waiters s) i \<longrightarrow> i < next_waiter_id s)"

definition queue_ok :: "pipe_manager \<Rightarrow> pipe_reader list \<Rightarrow> u64 \<Rightarrow> pipe_state \<Rightarrow> bool" where
  "queue_ok s rs pid p \<longleftrightarrow> distinct (waiting_reads p) \<and> (waiting_reads p \<noteq> [] \<longrightarrow> pipe_buffer p = []) \<and>
     (closed_write p \<longrightarrow> waiting_reads p = []) \<and>
     (\<forall>i \<in> set (waiting_reads p). \<exists>r \<in> set rs. rd_pipe r = pid \<and> rd_waiter r = i \<and> taken_result s (Some i) = None)"

definition stream_ok :: "pipe_manager \<Rightarrow> pipe_reader list \<Rightarrow> u64 \<Rightarrow> bytes \<Rightarrow> bytes \<Rightarrow> bool" where
  "stream_ok s rs pid sent recv \<longleftrightarrow>
     (next_pipe_id s \<le> pid \<longrightarrow> bt_get (pipes s) pid = None \<and> sent = [] \<and> recv = []) \<and>
     (\<exists>rest. sent = recv @ inflight s rs pid @ rest \<and>
        (\<forall>p. bt_get (pipes s) pid = Some p \<longrightarrow> rest = concat (pipe_buffer p) \<and> queue_ok s rs pid p))"

definition pipe_world_ok :: "pipe_world \<Rightarrow> bool" where
  "pipe_world_ok w \<longleftrightarrow> readers_ok (pw_state w) (pw_readers w) \<and>
     (\<forall>pid. stream_ok (pw_state w) (pw_readers w) pid (pw_sent w pid) (pw_recv w pid))"

lemma inflight_simps [simp]:
  "inflight s [] pid = []"
  "inflight s (r # rs) pid =
     (if rd_pipe r = pid then result_bytes (taken_result s (Some (rd_waiter r))) else []) @ inflight s rs pid"
  "inflight s (rs @ rs') pid = inflight s rs pid @ inflight s rs' pid"
  by (simp_all add: inflight_def)

lemma inflight_none: "pid \<notin> rd_pipe ` set rs \<Longrightarrow> inflight s rs pid = []"
  by (induction rs) auto

lemma inflight_one:
  assumes "distinct (map rd_pipe (xs @ r # ys))"
  shows "inflight s xs (rd_pipe r) = []" "inflight s ys (rd_pipe r) = []"
  using assms by (auto intro!: inflight_none)

lemma inflight_bytes_cong:
  "(\<And>r. r \<in> set rs \<Longrightarrow> result_bytes (taken_result s' (Some (rd_waiter r))) = result_bytes (taken_result s (Some (rd_waiter r))))
     \<Longrightarrow> inflight s' rs pid = inflight s rs pid"
  by (induction rs) auto

lemma inflight_cong:
  "(\<And>r. r \<in> set rs \<Longrightarrow> rd_pipe r = pid \<Longrightarrow> taken_result s' (Some (rd_waiter r)) = taken_result s (Some (rd_waiter r)))
     \<Longrightarrow> inflight s' rs pid = inflight s rs pid"
  by (induction rs) auto

lemma stream_okI:
  assumes "pid < next_pipe_id s" "sent = recv @ inflight s rs pid @ rest"
    "\<And>p. bt_get (pipes s) pid = Some p \<Longrightarrow> concat (pipe_buffer p) = rest"
    "\<And>p. bt_get (pipes s) pid = Some p \<Longrightarrow> queue_ok s rs pid p"
  shows "stream_ok s rs pid sent recv"
  using assms by (auto simp: stream_ok_def)

text \<open>A pipe is not affected by what happens to other pipes and other waiters.\<close>

lemma stream_ok_frame:
  assumes "stream_ok s rs pid sent recv" "bt_get (pipes s') pid = bt_get (pipes s) pid"
    "next_pipe_id s \<le> next_pipe_id s'"
    "filter (\<lambda>r. rd_pipe r = pid) rs' = filter (\<lambda>r. rd_pipe r = pid) rs"
    "\<And>r. r \<in> set rs \<Longrightarrow> rd_pipe r = pid \<Longrightarrow>
       taken_result s' (Some (rd_waiter r)) = taken_result s (Some (rd_waiter r))"
  shows "stream_ok s' rs' pid sent recv"
proof -
  have mem: "r \<in> set rs' \<and> rd_pipe r = pid \<longleftrightarrow> r \<in> set rs \<and> rd_pipe r = pid" for r
    using arg_cong [OF assms(4), of set] by auto
  have "inflight s' rs' pid = inflight s' (filter (\<lambda>r. rd_pipe r = pid) rs') pid" for s' rs'
    by (induction rs') auto
  from this [of s' rs'] this [of s' rs] have "inflight s' rs' pid = inflight s' rs pid"
    by (simp add: assms(4))
  also have "\<dots> = inflight s rs pid"
    by (rule inflight_cong) (rule assms(5))
  finally have infl: "inflight s' rs' pid = inflight s rs pid" .
  have queue: "queue_ok s' rs' pid p" if q: "queue_ok s rs pid p" for p
    unfolding queue_ok_def
  proof (intro conjI ballI)
    show "distinct (waiting_reads p)" "waiting_reads p \<noteq> [] \<longrightarrow> pipe_buffer p = []"
      "closed_write p \<longrightarrow> waiting_reads p = []"
      using q by (simp_all add: queue_ok_def)
    fix i
    assume "i \<in> set (waiting_reads p)"
    then obtain r where "r \<in> set rs" "rd_pipe r = pid" "rd_waiter r = i" "taken_result s (Some i) = None"
      using q by (auto simp: queue_ok_def)
    then show "\<exists>r \<in> set rs'. rd_pipe r = pid \<and> rd_waiter r = i \<and> taken_result s' (Some i) = None"
      using mem [of r] assms(5) [of r] by auto
  qed
  obtain rest where rest: "sent = recv @ inflight s rs pid @ rest"
    "\<And>p. bt_get (pipes s) pid = Some p \<Longrightarrow> rest = concat (pipe_buffer p) \<and> queue_ok s rs pid p"
    using assms(1) by (auto simp: stream_ok_def)
  have "\<exists>rest. sent = recv @ inflight s' rs' pid @ rest \<and>
      (\<forall>p. bt_get (pipes s') pid = Some p \<longrightarrow> rest = concat (pipe_buffer p) \<and> queue_ok s' rs' pid p)"
    using rest queue by (intro exI [of _ rest]) (simp add: infl assms(2))
  moreover have "bt_get (pipes s') pid = None \<and> sent = [] \<and> recv = []" if "next_pipe_id s' \<le> pid"
    using that assms(1-3) by (simp add: stream_ok_def)
  ultimately show ?thesis
    by (simp add: stream_ok_def)
qed

lemma readers_ok_frame:
  assumes "readers_ok s rs" "dom (bt_get (pipe_waiters s')) = dom (bt_get (pipe_waiters s))"
    "next_pipe_id s' = next_pipe_id s" "next_waiter_id s' = next_waiter_id s"
  shows "readers_ok s' rs"
proof -
  have "bt_contains (pipe_waiters s') i = bt_contains (pipe_waiters s) i" for i
    using assms(2) by (auto simp: bt_contains_def dom_def)
  then show ?thesis
    using assms(1,3,4) by (simp add: readers_ok_def)
qed

subsection \<open>Writes keep the invariant\<close>

lemma queue_okD:
  assumes "queue_ok s rs pid p" "i \<in> set (waiting_reads p)"
  obtains r where "r \<in> set rs" "rd_pipe r = pid" "rd_waiter r = i" "taken_result s (Some i) = None"
  using assms unfolding queue_ok_def by blast

lemma queue_ok_single:
  assumes q: "queue_ok s rs pid p" and d: "distinct (map rd_pipe rs)" and p: "waiting_reads p = i # is"
  shows "is = []" "pipe_buffer p = []"
proof -
  show "pipe_buffer p = []"
    using q p by (simp add: queue_ok_def)
  show "is = []"
  proof (cases "is")
    case (Cons j js)
    obtain r where r: "r \<in> set rs" "rd_pipe r = pid" "rd_waiter r = i"
      using queue_okD [OF q, of i] p by auto
    obtain r' where r': "r' \<in> set rs" "rd_pipe r' = pid" "rd_waiter r' = j"
      using queue_okD [OF q, of j] p Cons by auto
    have "r = r'"
      using d r r' inj_onD [of rd_pipe "set rs" r r'] by (simp add: distinct_map)
    then show ?thesis
      using q p Cons r(3) r'(3) by (simp add: queue_ok_def)
  qed simp
qed

lemma queue_ok_live:
  "queue_ok s rs pid p \<Longrightarrow> readers_ok s rs \<Longrightarrow> \<forall>i \<in> set (waiting_reads p). bt_contains (pipe_waiters s) i"
  by (fastforce simp: queue_ok_def readers_ok_def)

lemma bt_modify_same: "bt_get m k = Some v \<Longrightarrow> f v = v \<Longrightarrow> bt_modify k f m = m"
  by (simp add: bt_modify_def bt_insert_idle)

lemma pipe_write_pass_cases:
  assumes rs: "readers_ok s rs" and q: "\<forall>p. bt_get (pipes s) pid = Some p \<longrightarrow> queue_ok s rs pid p"
    and res: "pipe_write_pass pid payload nb s = (out, s')"
  obtains (refused) "\<And>n. out \<noteq> Return (Inr n)" "s' = s"
    | (handed) p i n where "bt_get (pipes s) pid = Some p" "waiting_reads p = [i]" "n \<le> length payload"
      "out = Return (Inr (length payload))"
      "s' = notify_waiters_and_pollers (deliver i (Some (take n payload))
         ((if drop n payload \<noteq> [] then push_chunk pid (drop n payload) else (\<lambda>s. s))
           (update_pipe pid (\<lambda>p. p\<lparr>waiting_reads := []\<rparr>) s)))"
    | (queued) p n where "bt_get (pipes s) pid = Some p" "waiting_reads p = []" "n \<le> length payload"
      "n = 0 \<or> buffer_size (pipe_buffer p) + n \<le> MAX_PIPE_BUFFER_BYTES" "length payload \<le> PIPE_BUF_BYTES \<longrightarrow> n = length payload"
      "out = Return (Inr n)" "s' = notify_waiters_and_pollers (push_chunk pid (take n payload) s)"
proof (cases "bt_get (pipes s) pid")
  case None
  then show ?thesis
    using res refused by (auto simp: pipe_write_pass_def)
next
  case (Some p)
  show ?thesis
  proof (cases "closed_write p \<or> closed_read p")
    case True
    then show ?thesis
      using res Some True refused by (auto simp: pipe_write_pass_def split: if_splits)
  next
    case False
    show ?thesis
    proof (cases "waiting_reads p")
      case Nil
      let ?free = "MAX_PIPE_BUFFER_BYTES - buffer_size (pipe_buffer p)"
      have "update_pipe pid (\<lambda>p. p\<lparr>waiting_reads := []\<rparr>) s = s"
        using Some Nil by (simp add: update_pipe_def bt_modify_same)
      then have pass: "pipe_write_pass pid payload nb s =
          (if length payload \<le> PIPE_BUF_BYTES \<and> length payload \<le> ?free
           then (Return (Inr (length payload)), notify_waiters_and_pollers (push_chunk pid payload s))
           else if \<not> length payload \<le> PIPE_BUF_BYTES \<and> 0 < ?free
           then (Return (Inr (min ?free (length payload))),
                 notify_waiters_and_pollers (push_chunk pid (take (min ?free (length payload)) payload) s))
           else if nb then (Return (Inl (pipe_would_block ''pipe buffer full'')), s) else (Blocked, s))"
        using Some False Nil by (simp add: pipe_write_pass_def Let_def)
      consider "length payload \<le> PIPE_BUF_BYTES \<and> length payload \<le> ?free"
        | "\<not> length payload \<le> PIPE_BUF_BYTES \<and> 0 < ?free"
        | "\<not> (length payload \<le> PIPE_BUF_BYTES \<and> length payload \<le> ?free)"
          "\<not> (\<not> length payload \<le> PIPE_BUF_BYTES \<and> 0 < ?free)"
        by blast
      then show ?thesis
      proof cases
        case 1
        then have "length payload = 0 \<or> buffer_size (pipe_buffer p) + length payload \<le> MAX_PIPE_BUFFER_BYTES"
          by linarith
        then show ?thesis
          using queued [of p "length payload"] Some Nil res pass 1 by simp
      next
        case 2
        then have "min ?free (length payload) = 0
            \<or> buffer_size (pipe_buffer p) + min ?free (length payload) \<le> MAX_PIPE_BUFFER_BYTES"
          by linarith
        then show ?thesis
          using queued [of p "min ?free (length payload)"] Some Nil res pass 2 by simp
      next
        case 3
        then have "(if nb then (Return (Inl (pipe_would_block ''pipe buffer full'')), s) else (Blocked, s)) = (out, s')"
          using res pass by (simp only: if_False)
        then show ?thesis
          using refused by (cases nb) auto
      qed
    next
      case (Cons i "is")
      have "distinct (map rd_pipe rs)"
        using rs by (simp add: readers_ok_def)
      then have is_Nil: "is = []"
        by (rule queue_ok_single(1) [OF q [rule_format, OF Some] _ Cons])
      moreover have "bt_contains (pipe_waiters s) i"
        using queue_ok_live [OF q [rule_format, OF Some] rs] Cons by simp
      ultimately have "pop_waiter (pipe_waiters s) (waiting_reads p) = (Some i, [])"
        by (simp add: Cons)
      then show ?thesis
        using res Some False Cons is_Nil
          handed [of p i "min (pending_length (the (bt_get (pipe_waiters s) i))) (length payload)"]
        by (simp add: pipe_write_pass_def Let_def split: if_splits)
    qed
  qed
qed

lemma stream_ok_write_queued:
  assumes "stream_ok s rs pid sent recv" "bt_get (pipes s) pid = Some p" "waiting_reads p = []"
  shows "stream_ok (notify_waiters_and_pollers (push_chunk pid bs s)) rs pid (sent @ bs) recv"
proof -
  let ?s = "notify_waiters_and_pollers (push_chunk pid bs s)"
  have infl: "inflight ?s rs pid = inflight s rs pid"
    by (rule inflight_cong) (simp add: taken_result_Some)
  have "pid < next_pipe_id s" "sent = recv @ inflight s rs pid @ concat (pipe_buffer p)"
    using assms(1,2) by (auto simp: stream_ok_def not_le [symmetric])
  then show ?thesis
    using assms(2,3) by (simp add: stream_ok_def infl queue_ok_def not_le)
qed

lemma taken_result_deliver:
  "taken_result (deliver i res s) (Some j) =
     (if j = i \<and> bt_contains (pipe_waiters s) i then Some res else taken_result s (Some j))"
  by (auto simp: taken_result_Some bt_contains_def split: option.splits)

lemma inflight_deliver:
  assumes "distinct (map rd_waiter rs)" "r \<in> set rs" "distinct (map rd_pipe rs)"
    "bt_contains (pipe_waiters s) (rd_waiter r)"
  shows "inflight (deliver (rd_waiter r) res s) rs (rd_pipe r) = result_bytes (Some res)"
proof -
  obtain xs ys where rs: "rs = xs @ r # ys"
    using split_list [OF assms(2)] by blast
  show ?thesis
    using inflight_one [OF assms(3) [unfolded rs]] assms(4) by (simp add: rs taken_result_deliver)
qed

lemma inflight_reader:
  assumes "r \<in> set rs" "distinct (map rd_pipe rs)"
  shows "inflight s rs (rd_pipe r) = result_bytes (taken_result s (Some (rd_waiter r)))"
proof -
  obtain xs ys where rs: "rs = xs @ r # ys"
    using split_list [OF assms(1)] by blast
  show ?thesis
    using inflight_one [OF assms(2) [unfolded rs]] by (simp add: rs)
qed

lemma stream_ok_write_handed:
  assumes ok: "stream_ok s rs pid sent recv" and rs: "readers_ok s rs"
    and p: "bt_get (pipes s) pid = Some p" "waiting_reads p = [i]"
    and s': "s' = notify_waiters_and_pollers (deliver i (Some (take n payload))
       ((if drop n payload \<noteq> [] then push_chunk pid (drop n payload) else (\<lambda>s. s))
         (update_pipe pid (\<lambda>p. p\<lparr>waiting_reads := []\<rparr>) s)))"
  shows "stream_ok s' rs pid (sent @ payload) recv"
proof -
  have q: "queue_ok s rs pid p" and pid: "pid < next_pipe_id s"
    and sent: "sent = recv @ inflight s rs pid @ concat (pipe_buffer p)"
    using ok p(1) by (auto simp: stream_ok_def not_le [symmetric])
  have d: "distinct (map rd_pipe rs)"
    using rs by (simp add: readers_ok_def)
  obtain r where r: "r \<in> set rs" "rd_pipe r = pid" "rd_waiter r = i" "taken_result s (Some i) = None"
    using queue_okD [OF q, of i] p(2) by auto
  have buf: "pipe_buffer p = []"
    by (rule queue_ok_single(2) [OF q d p(2)])
  have "bt_contains (pipe_waiters s) i"
    using rs r by (auto simp: readers_ok_def)
  then have "taken_result s' (Some i) = Some (Some (take n payload))"
    by (simp add: s' taken_result_Some bt_contains_def)
       (auto split: option.splits)
  then have "inflight s' rs pid = take n payload"
    using inflight_reader [OF r(1) d, of s'] by (simp add: r result_bytes_def)
  moreover have "inflight s rs pid = []"
    using inflight_reader [OF r(1) d, of s] by (simp add: r result_bytes_def)
  moreover have "next_pipe_id s' = next_pipe_id s"
    by (simp add: s')
  moreover have "\<exists>p'. bt_get (pipes s') pid = Some p' \<and> waiting_reads p' = [] \<and> concat (pipe_buffer p') = drop n payload"
    using p by (auto simp: s' buf)
  ultimately show ?thesis
    using pid sent buf by (auto simp: stream_ok_def queue_ok_def)
qed

lemma pipe_world_ok_write:
  assumes w: "pipe_world_ok w"
  shows "pipe_world_ok (after_write pid payload (pipe_write_pass pid payload nb (pw_state w)) w)"
proof -
  let ?s = "pw_state w" and ?rs = "pw_readers w"
  have rs: "readers_ok ?s ?rs" and str: "\<And>q. stream_ok ?s ?rs q (pw_sent w q) (pw_recv w q)"
    using w by (simp_all add: pipe_world_ok_def)
  have q: "\<forall>p. bt_get (pipes ?s) pid = Some p \<longrightarrow> queue_ok ?s ?rs pid p"
    using str [of pid] by (auto simp: stream_ok_def)
  obtain out s' where res: "pipe_write_pass pid payload nb ?s = (out, s')" by fastforce
  from rs q res show ?thesis
  proof (cases rule: pipe_write_pass_cases)
    case refused
    then have "after_write pid payload (out, s') w = w"
      by (auto simp: after_write_def split: attempt.splits sum.splits)
    then show ?thesis using w res by simp
  next
    case (handed p i n)
    have dom: "dom (bt_get (pipe_waiters s')) = dom (bt_get (pipe_waiters ?s))"
      by (auto simp: handed(5) split: if_splits)
    have i: "taken_result s' (Some j) = taken_result ?s (Some j)" if "j \<noteq> i" for j
      using that by (simp add: handed(5) taken_result_Some)
    have "rd_waiter r \<noteq> i" if r: "r \<in> set ?rs" "rd_pipe r \<noteq> pid" for r
    proof -
      obtain r' where "r' \<in> set ?rs" "rd_pipe r' = pid" "rd_waiter r' = i"
        using queue_okD [OF q [rule_format, OF handed(1)], of i] handed(2) by auto
      then show ?thesis
        using r rs inj_onD [of rd_waiter "set ?rs" r r'] by (auto simp: readers_ok_def distinct_map)
    qed
    then have "stream_ok s' ?rs q' (pw_sent w q') (pw_recv w q')" if "q' \<noteq> pid" for q'
      using that i by (intro stream_ok_frame [OF str]) (auto simp: handed(5))
    moreover have "stream_ok s' ?rs pid (pw_sent w pid @ payload) (pw_recv w pid)"
      by (rule stream_ok_write_handed [OF str rs handed(1,2,5)])
    moreover have "readers_ok s' ?rs"
      by (rule readers_ok_frame [OF rs dom]) (simp_all add: handed(5))
    ultimately show ?thesis
      by (simp add: pipe_world_ok_def after_write_def res handed(4))
  next
    case (queued p n)
    have "stream_ok s' ?rs q' (pw_sent w q') (pw_recv w q')" if "q' \<noteq> pid" for q'
      using that by (intro stream_ok_frame [OF str]) (auto simp: queued(7) taken_result_Some)
    moreover have "stream_ok s' ?rs pid (pw_sent w pid @ take n payload) (pw_recv w pid)"
      unfolding queued(7) by (rule stream_ok_write_queued [OF str queued(1,2)])
    moreover have "readers_ok s' ?rs"
      by (rule readers_ok_frame [OF rs]) (simp_all add: queued(7))
    ultimately show ?thesis
      by (simp add: pipe_world_ok_def after_write_def res queued(6))
  qed
qed

subsection \<open>Reads keep the invariant\<close>

lemma stream_ok_alone:
  assumes "pid \<notin> rd_pipe ` set rs"
  shows "stream_ok s rs pid sent recv \<longleftrightarrow>
     (next_pipe_id s \<le> pid \<longrightarrow> bt_get (pipes s) pid = None \<and> sent = [] \<and> recv = []) \<and>
     (\<exists>rest. sent = recv @ rest \<and>
        (\<forall>p. bt_get (pipes s) pid = Some p \<longrightarrow> rest = concat (pipe_buffer p) \<and> waiting_reads p = []))"
proof -
  have "queue_ok s rs pid p \<longleftrightarrow> waiting_reads p = []" for p
    using assms by (cases "waiting_reads p") (auto simp: queue_ok_def)
  then show ?thesis
    by (simp add: stream_ok_def inflight_none [OF assms])
qed

text \<open>
  A read that returns: its caller is not among the sleepers afterwards, and the bytes it returns
  are the next ones of the stream.
\<close>

lemma pipe_world_ok_leave:
  assumes w: "pipe_world_ok w"
    and others: "distinct (map rd_pipe others)" "distinct (map rd_waiter others)"
      "set others \<subseteq> set (pw_readers w)" "pid \<notin> rd_pipe ` set others"
      "\<And>q. q \<noteq> pid \<Longrightarrow> filter (\<lambda>r. rd_pipe r = q) others = filter (\<lambda>r. rd_pipe r = q) (pw_readers w)"
    and ids: "next_pipe_id s' = next_pipe_id (pw_state w)"
      "\<And>i. bt_contains (pipe_waiters s') i \<Longrightarrow> i < next_waiter_id s'"
    and waiters: "\<And>r. r \<in> set others \<Longrightarrow>
      bt_get (pipe_waiters s') (rd_waiter r) = bt_get (pipe_waiters (pw_state w)) (rd_waiter r)"
    and frame: "\<And>q. q \<noteq> pid \<Longrightarrow> bt_get (pipes s') q = bt_get (pipes (pw_state w)) q"
    and stream: "pid < next_pipe_id (pw_state w)" "pw_sent w pid = pw_recv w pid @ got @ rest"
      "\<And>p. bt_get (pipes s') pid = Some p \<Longrightarrow> rest = concat (pipe_buffer p) \<and> waiting_reads p = []"
  shows "pipe_world_ok (w\<lparr>pw_state := s', pw_readers := others, pw_recv := (pw_recv w)(pid := pw_recv w pid @ got)\<rparr>)"
proof -
  have rs: "readers_ok (pw_state w) (pw_readers w)"
    and str: "\<And>q. stream_ok (pw_state w) (pw_readers w) q (pw_sent w q) (pw_recv w q)"
    using w by (simp_all add: pipe_world_ok_def)
  have "readers_ok s' others"
    using rs others(1-3) ids waiters by (auto simp: readers_ok_def bt_contains_def)
  moreover have "stream_ok s' others pid (pw_sent w pid) (pw_recv w pid @ got)"
    unfolding stream_ok_alone [OF others(4)] using stream ids(1) by auto
  moreover have "stream_ok s' others q (pw_sent w q) (pw_recv w q)" if q: "q \<noteq> pid" for q
  proof (rule stream_ok_frame [OF str])
    show "bt_get (pipes s') q = bt_get (pipes (pw_state w)) q" by (rule frame [OF q])
    show "filter (\<lambda>r. rd_pipe r = q) others = filter (\<lambda>r. rd_pipe r = q) (pw_readers w)"
      by (rule others(5) [OF q])
    show "next_pipe_id (pw_state w) \<le> next_pipe_id s'" by (simp add: ids)
    fix r
    assume r: "r \<in> set (pw_readers w)" "rd_pipe r = q"
    then have "r \<in> set (filter (\<lambda>r. rd_pipe r = q) (pw_readers w))" by simp
    then have "r \<in> set (filter (\<lambda>r. rd_pipe r = q) others)" by (simp only: others(5) [OF q])
    then have "r \<in> set others" by simp
    then show "taken_result s' (Some (rd_waiter r)) = taken_result (pw_state w) (Some (rd_waiter r))"
      using waiters by (simp add: taken_result_Some)
  qed
  ultimately show ?thesis
    by (simp add: pipe_world_ok_def)
qed

lemma pipe_world_ok_leave_same:
  assumes "pipe_world_ok w" "distinct (map rd_pipe others)" "distinct (map rd_waiter others)"
    "set others \<subseteq> set (pw_readers w)" "pid \<notin> rd_pipe ` set others"
    "\<And>q. q \<noteq> pid \<Longrightarrow> filter (\<lambda>r. rd_pipe r = q) others = filter (\<lambda>r. rd_pipe r = q) (pw_readers w)"
    "next_pipe_id s' = next_pipe_id (pw_state w)"
    "\<And>i. bt_contains (pipe_waiters s') i \<Longrightarrow> i < next_waiter_id s'"
    "\<And>r. r \<in> set others \<Longrightarrow>
      bt_get (pipe_waiters s') (rd_waiter r) = bt_get (pipe_waiters (pw_state w)) (rd_waiter r)"
    "\<And>q. q \<noteq> pid \<Longrightarrow> bt_get (pipes s') q = bt_get (pipes (pw_state w)) q"
    "pid < next_pipe_id (pw_state w)" "pw_sent w pid = pw_recv w pid @ rest"
    "\<And>p. bt_get (pipes s') pid = Some p \<Longrightarrow> rest = concat (pipe_buffer p) \<and> waiting_reads p = []"
  shows "pipe_world_ok (w\<lparr>pw_state := s', pw_readers := others\<rparr>)"
  using pipe_world_ok_leave [OF assms(1-11), of "[]" rest] assms(12,13) by simp

lemma pipe_read_pass_cases:
  assumes "taken_result s waiter = None"
  obtains (gone) "bt_get (pipes s) pid = None" "\<exists>e. pipe_read_pass pid len waiter s = (ReadReturn (Inl e), s)"
    | (data) p bs rest where "bt_get (pipes s) pid = Some p" "pipe_buffer p \<noteq> []"
      "drain_buffer len (pipe_buffer p) = (bs, rest)"
      "pipe_read_pass pid len waiter s = (ReadReturn (Inr (Some bs)),
         notify_waiters_and_pollers (update_pipe pid (\<lambda>p. p\<lparr>pipe_buffer := rest\<rparr>) s))"
    | (eof) p where "bt_get (pipes s) pid = Some p" "pipe_buffer p = []" "closed_write p"
      "pipe_read_pass pid len waiter s = (ReadReturn (Inr None), remove_waiter waiter s)"
    | (sleep) p where "bt_get (pipes s) pid = Some p" "pipe_buffer p = []" "\<not> closed_write p"
      "pipe_read_pass pid len waiter s = (case waiter of Some i \<Rightarrow> (ReadWait i, s)
         | None \<Rightarrow> (ReadWait (next_waiter_id s), snd (register_waiter pid len s)))"
proof (cases "bt_get (pipes s) pid")
  case None
  then show ?thesis
    using assms gone by (simp add: pipe_read_pass_def)
next
  case (Some p)
  obtain bs rest where d: "drain_buffer len (pipe_buffer p) = (bs, rest)" by fastforce
  consider "pipe_buffer p \<noteq> []" | "pipe_buffer p = []" "closed_write p" | "pipe_buffer p = []" "\<not> closed_write p"
    by blast
  then show ?thesis
  proof cases
    case 1
    then show ?thesis
      using assms Some d data by (simp add: pipe_read_pass_def)
  next
    case 2
    then show ?thesis
      using assms Some eof by (simp add: pipe_read_pass_def)
  next
    case 3
    then show ?thesis
      using assms Some sleep
      by (cases waiter) (simp_all add: pipe_read_pass_def register_waiter_def Let_def)
  qed
qed

lemma register_waiter_fields [simp]:
  "next_pipe_id (snd (register_waiter pid len s)) = next_pipe_id s"
  "next_waiter_id (snd (register_waiter pid len s)) = next_waiter_id s + 1"
  "pipe_waiters (snd (register_waiter pid len s)) =
     bt_insert (next_waiter_id s) \<lparr>pending_length = len, pending_result = None\<rparr> (pipe_waiters s)"
  "bt_get (pipes (snd (register_waiter pid len s))) q =
     (if q = pid then map_option (\<lambda>p. p\<lparr>waiting_reads := waiting_reads p @ [next_waiter_id s]\<rparr>) (bt_get (pipes s) pid)
      else bt_get (pipes s) q)"
  by (simp_all add: register_waiter_def Let_def)

lemma remove_waiter_fields [simp]:
  "pipes (remove_waiter waiter s) = pipes s"
  "next_pipe_id (remove_waiter waiter s) = next_pipe_id s"
  "next_waiter_id (remove_waiter waiter s) = next_waiter_id s"
  "bt_get (pipe_waiters (remove_waiter waiter s)) i =
     (if waiter = Some i then None else bt_get (pipe_waiters s) i)"
  by (auto simp: remove_waiter_def split: option.splits)

lemma timed_out_fields:
  assumes "pipe_read_timed_out pid (Some i) s = (out, s')"
  shows "\<exists>e. out = ReadReturn (Inl e)" "next_pipe_id s' = next_pipe_id s" "next_waiter_id s' = next_waiter_id s"
    "bt_get (pipe_waiters s') j = (if j = i then None else bt_get (pipe_waiters s) j)"
    "bt_get (pipes s') q = (if q = pid
       then map_option (\<lambda>p. p\<lparr>waiting_reads := filter (\<lambda>queued. queued \<noteq> i) (waiting_reads p)\<rparr>) (bt_get (pipes s) pid)
       else bt_get (pipes s) q)"
  using assms by (auto simp: pipe_read_timed_out_def)

lemma stream_ok_registered:
  assumes "readers_ok s rs" "pid \<notin> rd_pipe ` set rs" "stream_ok s rs pid sent recv"
    "bt_get (pipes s) pid = Some p" "pipe_buffer p = []" "\<not> closed_write p"
  shows "stream_ok (snd (register_waiter pid len s))
    (rs @ [\<lparr>rd_pipe = pid, rd_len = len, rd_waiter = next_waiter_id s\<rparr>]) pid sent recv"
proof -
  let ?s = "snd (register_waiter pid len s)"
  have p: "pid < next_pipe_id s" "sent = recv" "waiting_reads p = []"
    using assms(3-5) unfolding stream_ok_alone [OF assms(2)] by (auto simp: not_le [symmetric])
  have "taken_result ?s (Some (next_waiter_id s)) = None"
    by (simp add: taken_result_Some)
  then show ?thesis
    using p assms(4-6) inflight_none [OF assms(2), of ?s]
    by (auto simp: stream_ok_def queue_ok_def result_bytes_def)
qed

lemma pipe_world_ok_read:
  assumes w: "pipe_world_ok w" and ids: "ids_left (pw_state w)" and pid: "pid < next_pipe_id (pw_state w)"
    and solo: "pid \<notin> rd_pipe ` set (pw_readers w)"
  shows "pipe_world_ok (after_read pid len (pw_readers w) (pipe_read_turn pid len late None (pw_state w)) w)"
proof -
  let ?s = "pw_state w" and ?rs = "pw_readers w"
  have rs: "readers_ok ?s ?rs" and str: "\<And>q. stream_ok ?s ?rs q (pw_sent w q) (pw_recv w q)"
    using w by (simp_all add: pipe_world_ok_def)
  have d: "distinct (map rd_pipe ?rs)" "distinct (map rd_waiter ?rs)"
    and live: "\<And>i. bt_contains (pipe_waiters ?s) i \<Longrightarrow> i < next_waiter_id ?s"
    and rdw: "\<And>r. r \<in> set ?rs \<Longrightarrow> rd_waiter r < next_waiter_id ?s"
    using rs by (auto simp: readers_ok_def)
  obtain rest where rest: "pw_sent w pid = pw_recv w pid @ rest"
    "\<And>p. bt_get (pipes ?s) pid = Some p \<Longrightarrow> rest = concat (pipe_buffer p) \<and> waiting_reads p = []"
    using str [of pid] unfolding stream_ok_alone [OF solo] by blast
  have wrap: "next_waiter_id ?s \<noteq> - 1"
    using ids by (simp add: ids_left_def)
  note leave = pipe_world_ok_leave_same [OF w d subset_refl solo refl]
  from taken_result_None [of ?s] show ?thesis
  proof (cases rule: pipe_read_pass_cases [where pid = pid and len = len])
    case gone
    have "pipe_world_ok (w\<lparr>pw_state := ?s, pw_readers := ?rs\<rparr>)"
      by (rule leave [of ?s rest]) (use live pid rest in blast)+
    with gone show ?thesis
      by (auto simp: pipe_read_turn_def after_read_def)
  next
    case (data p bs tl)
    let ?s' = "notify_waiters_and_pollers (update_pipe pid (\<lambda>p. p\<lparr>pipe_buffer := tl\<rparr>) ?s)"
    have split: "rest = bs @ concat tl" "waiting_reads p = []"
      using rest(2) [OF data(1)] chunk_buffer.drain_split [OF data(3)] by auto
    have "pipe_world_ok (w\<lparr>pw_state := ?s', pw_readers := ?rs,
        pw_recv := (pw_recv w)(pid := pw_recv w pid @ bs)\<rparr>)"
    proof (rule pipe_world_ok_leave [OF w d subset_refl solo refl, of ?s' bs "concat tl"])
      show "i < next_waiter_id ?s'" if "bt_contains (pipe_waiters ?s') i" for i
        using that live [of i] by simp
      show "concat tl = concat (pipe_buffer p') \<and> waiting_reads p' = []" if "bt_get (pipes ?s') pid = Some p'" for p'
        using that data(1) split(2) by auto
    qed (simp_all add: pid rest(1) split(1))
    with data(4) show ?thesis
      by (simp add: pipe_read_turn_def after_read_def)
  next
    case (eof p)
    have "pipe_world_ok (w\<lparr>pw_state := ?s, pw_readers := ?rs\<rparr>)"
      by (rule leave [of ?s rest]) (use live pid rest in blast)+
    with eof show ?thesis
      by (simp add: pipe_read_turn_def after_read_def remove_waiter_def)
  next
    case (sleep p)
    let ?i = "next_waiter_id ?s" and ?s1 = "snd (register_waiter pid len ?s)"
    have lt: "i < ?i + 1" if "i \<le> ?i" for i
      using word_less_plus_1 [OF wrap that] .
    show ?thesis
    proof (cases late)
      case True
      obtain out s' where t: "pipe_read_timed_out pid (Some ?i) ?s1 = (out, s')" by fastforce
      note tf = timed_out_fields [OF t]
      have "pipe_world_ok (w\<lparr>pw_state := s', pw_readers := ?rs\<rparr>)"
      proof (rule leave [of s' rest])
        show "i < next_waiter_id s'" if "bt_contains (pipe_waiters s') i" for i
          using that live [of i] lt [of i] by (auto simp: tf bt_contains_def split: if_splits)
        show "bt_get (pipe_waiters s') (rd_waiter r) = bt_get (pipe_waiters ?s) (rd_waiter r)"
          if "r \<in> set ?rs" for r
          using rdw [OF that] by (auto simp: tf)
        show "rest = concat (pipe_buffer p') \<and> waiting_reads p' = []" if "bt_get (pipes s') pid = Some p'" for p'
          using that rest(2) [OF sleep(1)] sleep(1) by (auto simp: tf)
      qed (simp_all add: tf pid rest)
      then show ?thesis
        using sleep t True tf(1) by (auto simp: pipe_read_turn_def after_read_def)
    next
      case False
      let ?r = "\<lparr>rd_pipe = pid, rd_len = len, rd_waiter = ?i\<rparr>"
      have "?i \<notin> rd_waiter ` set ?rs"
        using rdw by force
      moreover have "i < ?i + 1" if "bt_contains (pipe_waiters ?s) i" for i
        using live [OF that] lt [of i] by simp
      ultimately have "readers_ok ?s1 (?rs @ [?r])"
        using rs solo pid lt [of ?i] by (auto simp: readers_ok_def bt_contains_def)
      moreover have "stream_ok ?s1 (?rs @ [?r]) q (pw_sent w q) (pw_recv w q)" for q
      proof (cases "q = pid")
        case True
        then show ?thesis
          using stream_ok_registered [OF rs solo str sleep(1-3)] by simp
      next
        case False
        then show ?thesis
          by (intro stream_ok_frame [OF str]) (auto simp: taken_result_Some dest!: rdw)
      qed
      ultimately show ?thesis
        using sleep False by (simp add: pipe_read_turn_def after_read_def pipe_world_ok_def)
    qed
  qed
qed

text \<open>
  A sleeper that runs again. Its queue entry, if still there, belongs to a reader without a result,
  so a reader that finds a result or data leaves no entry behind.
\<close>

lemma pipe_world_ok_resume:
  assumes w: "pipe_world_ok w" and split: "pw_readers w = xs @ r # ys"
    and solo: "timed_out \<Longrightarrow> taken_result (pw_state w) (Some (rd_waiter r)) = None"
  shows "pipe_world_ok (after_read (rd_pipe r) (rd_len r) (xs @ ys)
      (pipe_read_resume (rd_pipe r) (rd_len r) timed_out late (rd_waiter r) (pw_state w)) w)"
proof -
  let ?s = "pw_state w" and ?rs = "pw_readers w" and ?pid = "rd_pipe r" and ?i = "rd_waiter r"
  have rs: "readers_ok ?s ?rs" and str: "\<And>q. stream_ok ?s ?rs q (pw_sent w q) (pw_recv w q)"
    using w by (simp_all add: pipe_world_ok_def)
  have d: "distinct (map rd_pipe (xs @ ys))" "distinct (map rd_waiter (xs @ ys))"
    and sub: "set (xs @ ys) \<subseteq> set ?rs" and alone: "?pid \<notin> rd_pipe ` set (xs @ ys)"
    and waiter: "bt_contains (pipe_waiters ?s) ?i"
    and live: "\<And>i. bt_contains (pipe_waiters ?s) i \<Longrightarrow> i < next_waiter_id ?s"
    and pid: "?pid < next_pipe_id ?s" and new: "?i \<notin> rd_waiter ` set (xs @ ys)"
    using rs by (auto simp: readers_ok_def split)
  have fresh: "rd_waiter q \<noteq> ?i" if "q \<in> set (xs @ ys)" for q
    using new imageI [OF that, of rd_waiter] by auto
  have filt: "filter (\<lambda>r. rd_pipe r = q) (xs @ ys) = filter (\<lambda>r. rd_pipe r = q) ?rs" if "q \<noteq> ?pid" for q
    using that by (simp add: split)
  have infl: "inflight ?s ?rs ?pid = result_bytes (taken_result ?s (Some ?i))"
    by (rule inflight_reader) (use rs in \<open>auto simp: split readers_ok_def\<close>)
  obtain rest where rest: "pw_sent w ?pid = pw_recv w ?pid @ result_bytes (taken_result ?s (Some ?i)) @ rest"
    "\<And>p. bt_get (pipes ?s) ?pid = Some p \<Longrightarrow> rest = concat (pipe_buffer p) \<and> queue_ok ?s ?rs ?pid p"
    using str [of ?pid] by (auto simp: stream_ok_def infl)
  have queue: "waiting_reads p = [] \<or> waiting_reads p = [?i] \<and> pipe_buffer p = [] \<and> \<not> closed_write p \<and>
      taken_result ?s (Some ?i) = None" if p: "bt_get (pipes ?s) ?pid = Some p" for p
  proof (cases "waiting_reads p")
    case (Cons j js)
    have q: "queue_ok ?s ?rs ?pid p" using rest(2) [OF p] by blast
    have dp: "distinct (map rd_pipe ?rs)" using rs by (simp add: readers_ok_def)
    obtain r' where r': "r' \<in> set ?rs" "rd_pipe r' = ?pid" "rd_waiter r' = j" "taken_result ?s (Some j) = None"
      using queue_okD [OF q, of j] Cons by auto
    have "r' = r"
      using alone r'(1,2) imageI [of r' "set (xs @ ys)" rd_pipe] by (auto simp: split)
    then show ?thesis
      using queue_ok_single [OF q dp Cons] r' Cons q by (auto simp: queue_ok_def)
  qed simp
  note leave = pipe_world_ok_leave [OF w d sub alone filt]
  note leave_same = pipe_world_ok_leave_same [OF w d sub alone filt]
  have expire: "pipe_world_ok (after_read ?pid (rd_len r) (xs @ ys) (pipe_read_timed_out ?pid (Some ?i) ?s) w)"
    if none: "taken_result ?s (Some ?i) = None"
  proof -
    obtain out s' where t: "pipe_read_timed_out ?pid (Some ?i) ?s = (out, s')" by fastforce
    note tf = timed_out_fields [OF t]
    have "pipe_world_ok (w\<lparr>pw_state := s', pw_readers := xs @ ys\<rparr>)"
    proof (rule leave_same [of s' rest])
      show "i < next_waiter_id s'" if "bt_contains (pipe_waiters s') i" for i
        using that live [of i] by (auto simp: tf bt_contains_def split: if_splits)
      show "rest = concat (pipe_buffer p') \<and> waiting_reads p' = []" if "bt_get (pipes s') ?pid = Some p'" for p'
        using that rest(2) queue by (fastforce simp: tf)
      show "bt_get (pipe_waiters s') (rd_waiter q) = bt_get (pipe_waiters ?s) (rd_waiter q)"
        if "q \<in> set (xs @ ys)" for q
        using fresh [OF that] by (simp add: tf)
    qed (simp_all add: tf pid rest(1) none result_bytes_def)
    then show ?thesis
      using tf(1) t by (auto simp: after_read_def)
  qed
  show ?thesis
  proof (cases "timed_out")
    case True
    then show ?thesis
      using expire solo waiter by (simp add: pipe_read_resume_def)
  next
    case False
    then have turn: "pipe_read_resume ?pid (rd_len r) timed_out late ?i ?s = pipe_read_turn ?pid (rd_len r) late (Some ?i) ?s"
      using waiter by (simp add: pipe_read_resume_def)
    show ?thesis
    proof (cases "taken_result ?s (Some ?i)")
      case (Some res)
      let ?s' = "remove_waiter (Some ?i) ?s"
      have "pipe_world_ok (w\<lparr>pw_state := ?s', pw_readers := xs @ ys,
          pw_recv := (pw_recv w)(?pid := pw_recv w ?pid @ result_bytes (Some res))\<rparr>)"
      proof (rule leave [of ?s' "result_bytes (Some res)" rest])
        show "i < next_waiter_id ?s'" if "bt_contains (pipe_waiters ?s') i" for i
          using that live [of i] by (auto simp: bt_contains_def split: if_splits)
        show "rest = concat (pipe_buffer p') \<and> waiting_reads p' = []" if "bt_get (pipes ?s') ?pid = Some p'" for p'
          using that rest(2) [of p'] queue [of p'] by (simp add: Some)
        show "bt_get (pipe_waiters ?s') (rd_waiter q) = bt_get (pipe_waiters ?s) (rd_waiter q)"
          if "q \<in> set (xs @ ys)" for q
          using fresh [OF that] by auto
      qed (simp_all add: pid rest(1) Some)
      then show ?thesis
        by (cases res) (simp_all add: turn pipe_read_turn_def pipe_read_pass_def Some after_read_def result_bytes_def)
    next
      case None
      have sent: "pw_sent w ?pid = pw_recv w ?pid @ rest"
        using rest(1) by (simp add: None result_bytes_def)
      from None show ?thesis
      proof (cases rule: pipe_read_pass_cases [where pid = ?pid and len = "rd_len r"])
        case gone
        have "pipe_world_ok (w\<lparr>pw_state := ?s, pw_readers := xs @ ys\<rparr>)"
          by (rule leave_same [of ?s rest]) (use live pid sent gone(1) in auto)
        with gone(2) show ?thesis
          by (auto simp: turn pipe_read_turn_def after_read_def)
      next
        case (data p bs tl)
        let ?s' = "notify_waiters_and_pollers (update_pipe ?pid (\<lambda>p. p\<lparr>pipe_buffer := tl\<rparr>) ?s)"
        have pieces: "rest = bs @ concat tl" "waiting_reads p = []"
          using rest(2) [OF data(1)] queue [OF data(1)] chunk_buffer.drain_split [OF data(3)] data(2) by auto
        have "pipe_world_ok (w\<lparr>pw_state := ?s', pw_readers := xs @ ys,
            pw_recv := (pw_recv w)(?pid := pw_recv w ?pid @ bs)\<rparr>)"
        proof (rule leave [of ?s' bs "concat tl"])
          show "i < next_waiter_id ?s'" if "bt_contains (pipe_waiters ?s') i" for i
            using that live [of i] by simp
          show "concat tl = concat (pipe_buffer p') \<and> waiting_reads p' = []" if "bt_get (pipes ?s') ?pid = Some p'" for p'
            using that data(1) pieces(2) by auto
        qed (simp_all add: pid sent pieces(1))
        with data(4) show ?thesis
          by (simp add: turn pipe_read_turn_def after_read_def)
      next
        case (eof p)
        have "pipe_world_ok (w\<lparr>pw_state := remove_waiter (Some ?i) ?s, pw_readers := xs @ ys\<rparr>)"
        proof (rule leave_same [of "remove_waiter (Some ?i) ?s" rest])
          show "i < next_waiter_id (remove_waiter (Some ?i) ?s)"
            if "bt_contains (pipe_waiters (remove_waiter (Some ?i) ?s)) i" for i
            using that live [of i] by (auto simp: bt_contains_def split: if_splits)
          show "rest = concat (pipe_buffer p') \<and> waiting_reads p' = []"
            if "bt_get (pipes (remove_waiter (Some ?i) ?s)) ?pid = Some p'" for p'
            using that eof rest(2) [of p'] queue [of p'] by simp
          show "bt_get (pipe_waiters (remove_waiter (Some ?i) ?s)) (rd_waiter q) = bt_get (pipe_waiters ?s) (rd_waiter q)"
            if "q \<in> set (xs @ ys)" for q
            using fresh [OF that] by auto
        qed (simp_all add: pid sent)
        with eof(4) show ?thesis
          by (simp add: turn pipe_read_turn_def after_read_def)
      next
        case (sleep p)
        show ?thesis
        proof (cases late)
          case True
          then show ?thesis
            unfolding turn using expire [OF None] sleep(4) by (simp add: pipe_read_turn_def)
        next
          case False
          have r: "\<lparr>rd_pipe = ?pid, rd_len = rd_len r, rd_waiter = ?i\<rparr> = r" by simp
          have "filter (\<lambda>r. rd_pipe r = ?pid) ys = []"
            using alone by (metis (mono_tags, lifting) Un_iff filter_False image_eqI set_append)
          then have same: "filter (\<lambda>r. rd_pipe r = q) (xs @ ys @ [r]) = filter (\<lambda>r. rd_pipe r = q) ?rs" for q
            by (cases "q = ?pid") (simp_all add: split)
          have "stream_ok ?s (xs @ ys @ [r]) q (pw_sent w q) (pw_recv w q)" for q
            by (rule stream_ok_frame [OF str _ _ same]) simp_all
          moreover have "readers_ok ?s (xs @ ys @ [r])"
            using rs by (auto simp: readers_ok_def split)
          ultimately have "pipe_world_ok (w\<lparr>pw_readers := xs @ ys @ [r]\<rparr>)"
            by (simp add: pipe_world_ok_def)
          then show ?thesis
            unfolding turn using sleep(4) False by (simp add: pipe_read_turn_def after_read_def r)
        qed
      qed
    qed
  qed
qed

subsection \<open>Creating and closing keep the invariant\<close>

lemma pipe_world_ok_create:
  assumes w: "pipe_world_ok w" and ids: "ids_left (pw_state w)"
  shows "pipe_world_ok (w\<lparr>pw_state := snd (create_pipe (pw_state w))\<rparr>)"
proof -
  let ?s = "pw_state w" and ?s' = "snd (create_pipe (pw_state w))" and ?n = "next_pipe_id (pw_state w)"
  have rs: "readers_ok ?s (pw_readers w)" and str: "\<And>q. stream_ok ?s (pw_readers w) q (pw_sent w q) (pw_recv w q)"
    using w by (simp_all add: pipe_world_ok_def)
  have n: "q < ?n + 1" if "q \<le> ?n" for q
    using word_less_plus_1 [OF _ that] ids by (simp add: ids_left_def)
  have fields: "bt_get (pipes ?s') q = (if q = ?n then Some pipe_state_default else bt_get (pipes ?s) q)"
    "pipe_waiters ?s' = pipe_waiters ?s" "next_pipe_id ?s' = ?n + 1" "next_waiter_id ?s' = next_waiter_id ?s" for q
    by (simp_all add: create_pipe_def Let_def)
  have "readers_ok ?s' (pw_readers w)"
    using rs n by (auto simp: readers_ok_def fields less_imp_le)
  moreover have "stream_ok ?s' (pw_readers w) q (pw_sent w q) (pw_recv w q)" for q
  proof (cases "q = ?n")
    case False
    then show ?thesis
      using n [of ?n] by (intro stream_ok_frame [OF str]) (simp_all add: fields taken_result_Some)
  next
    case True
    have alone: "q \<notin> rd_pipe ` set (pw_readers w)"
      using rs by (auto simp: readers_ok_def True)
    show ?thesis
      using str [of q] n [of ?n] unfolding stream_ok_alone [OF alone]
      by (auto simp: fields True pipe_state_default_def)
  qed
  ultimately show ?thesis
    by (simp add: pipe_world_ok_def)
qed

lemma fold_deliver_fields:
  "pipes (fold (\<lambda>i. deliver i None) is s) = pipes s \<and>
   next_pipe_id (fold (\<lambda>i. deliver i None) is s) = next_pipe_id s \<and>
   next_waiter_id (fold (\<lambda>i. deliver i None) is s) = next_waiter_id s \<and>
   bt_get (pipe_waiters (fold (\<lambda>i. deliver i None) is s)) j =
     (if j \<in> set is then map_option (\<lambda>w. w\<lparr>pending_result := Some None\<rparr>) (bt_get (pipe_waiters s) j)
      else bt_get (pipe_waiters s) j)"
  by (induction "is" arbitrary: s) (auto simp: option.map_comp comp_def)

lemma pipe_close_fields:
  assumes "bt_get (desc_to_pipe s) did = Some pr" "bt_get (pipes s) (ref_pipe_id pr) = Some p"
  defines "s' \<equiv> pipe_close did s" and "rd \<equiv> ref_end pr = PipeRead"
  shows "next_pipe_id s' = next_pipe_id s" "next_waiter_id s' = next_waiter_id s"
    "bt_get (pipes s') q = (if q \<noteq> ref_pipe_id pr then bt_get (pipes s) q
       else if rd \<and> closed_write p \<or> \<not> rd \<and> closed_read p then None
       else Some (if rd then p\<lparr>closed_read := True\<rparr> else p\<lparr>closed_write := True, waiting_reads := []\<rparr>))"
    "bt_get (pipe_waiters s') j = (if \<not> rd \<and> j \<in> set (waiting_reads p)
       then map_option (\<lambda>w. w\<lparr>pending_result := Some None\<rparr>) (bt_get (pipe_waiters s) j)
       else bt_get (pipe_waiters s) j)"
  using assms(1,2) fold_deliver_fields [of "waiting_reads p"]
  by (cases "ref_end pr"; simp add: s'_def rd_def pipe_close_def Let_def)+

lemma pipe_world_ok_close:
  assumes w: "pipe_world_ok w"
  shows "pipe_world_ok (w\<lparr>pw_state := pipe_close did (pw_state w)\<rparr>)"
proof -
  let ?s = "pw_state w" and ?rs = "pw_readers w" and ?s' = "pipe_close did (pw_state w)"
  have rs: "readers_ok ?s ?rs" and str: "\<And>q. stream_ok ?s ?rs q (pw_sent w q) (pw_recv w q)"
    using w by (simp_all add: pipe_world_ok_def)
  show ?thesis
  proof (cases "\<exists>pr p. bt_get (desc_to_pipe ?s) did = Some pr \<and> bt_get (pipes ?s) (ref_pipe_id pr) = Some p")
    case False
    then have same: "pipes ?s' = pipes ?s" "pipe_waiters ?s' = pipe_waiters ?s" "next_pipe_id ?s' = next_pipe_id ?s"
      "next_waiter_id ?s' = next_waiter_id ?s"
      by (auto simp: pipe_close_def Let_def split: option.splits)
    have "stream_ok ?s' ?rs q (pw_sent w q) (pw_recv w q)" for q
      by (rule stream_ok_frame [OF str]) (simp_all add: same taken_result_Some)
    moreover have "readers_ok ?s' ?rs"
      by (rule readers_ok_frame [OF rs]) (simp_all add: same)
    ultimately show ?thesis
      by (simp add: pipe_world_ok_def)
  next
    case True
    then obtain pr p where pr: "bt_get (desc_to_pipe ?s) did = Some pr" "bt_get (pipes ?s) (ref_pipe_id pr) = Some p"
      by blast
    let ?pid = "ref_pipe_id pr"
    note f = pipe_close_fields [OF pr]
    have q: "queue_ok ?s ?rs ?pid p" and pid: "?pid < next_pipe_id ?s"
      and sent: "pw_sent w ?pid = pw_recv w ?pid @ inflight ?s ?rs ?pid @ concat (pipe_buffer p)"
      using str [of ?pid] pr(2) by (auto simp: stream_ok_def not_le [symmetric])
    have bytes: "result_bytes (taken_result ?s' (Some i)) = result_bytes (taken_result ?s (Some i))" for i
    proof (cases "i \<in> set (waiting_reads p)")
      case True
      then have "taken_result ?s (Some i) = None"
        using queue_okD [OF q] by blast
      then show ?thesis
        by (auto simp: taken_result_Some f result_bytes_def split: option.splits)
    qed (simp add: taken_result_Some f)
    have infl: "inflight ?s' ?rs ?pid = inflight ?s ?rs ?pid"
      by (rule inflight_bytes_cong) (simp add: bytes)
    have queue: "queue_ok ?s' ?rs ?pid p'" if "bt_get (pipes ?s') ?pid = Some p'" for p'
    proof (cases "ref_end pr = PipeRead")
      case True
      then have "p' = p\<lparr>closed_read := True\<rparr>"
        using that by (simp add: f split: if_splits)
      moreover have "taken_result ?s' (Some i) = taken_result ?s (Some i)" for i
        by (simp add: taken_result_Some f True)
      ultimately show ?thesis
        using q by (simp add: queue_ok_def)
    next
      case False
      then have "waiting_reads p' = []"
        using that by (auto simp: f split: if_splits)
      then show ?thesis
        by (simp add: queue_ok_def)
    qed
    have buffer: "pipe_buffer p' = pipe_buffer p" if "bt_get (pipes ?s') ?pid = Some p'" for p'
      using that by (auto simp: f split: if_splits)
    have "stream_ok ?s' ?rs ?pid (pw_sent w ?pid) (pw_recv w ?pid)"
    proof (rule stream_okI [where rest = "concat (pipe_buffer p)"])
      show "?pid < next_pipe_id ?s'" using pid by (simp add: f(1))
      show "pw_sent w ?pid = pw_recv w ?pid @ inflight ?s' ?rs ?pid @ concat (pipe_buffer p)"
        by (simp only: sent infl)
    qed (drule buffer, simp, rule queue)
    moreover have "stream_ok ?s' ?rs q' (pw_sent w q') (pw_recv w q')" if q': "q' \<noteq> ?pid" for q'
    proof (rule stream_ok_frame [OF str])
      fix r
      assume r: "r \<in> set ?rs" "rd_pipe r = q'"
      have "rd_waiter r \<notin> set (waiting_reads p)"
      proof
        assume "rd_waiter r \<in> set (waiting_reads p)"
        then obtain r' where "r' \<in> set ?rs" "rd_pipe r' = ?pid" "rd_waiter r' = rd_waiter r"
          by (rule queue_okD [OF q])
        then have "r' = r"
          using rs r inj_onD [of rd_waiter "set ?rs" r' r] by (auto simp: readers_ok_def distinct_map)
        then show False using r q' \<open>rd_pipe r' = ?pid\<close> by simp
      qed
      then show "taken_result ?s' (Some (rd_waiter r)) = taken_result ?s (Some (rd_waiter r))"
        by (simp add: taken_result_Some f)
    qed (simp_all add: f q')
    moreover have "readers_ok ?s' ?rs"
      by (rule readers_ok_frame [OF rs]) (auto simp: f dom_def)
    ultimately show ?thesis
      unfolding pipe_world_ok_def by (simp, metis)
  qed
qed

lemma pipe_step_ok: "pipe_world_ok w \<Longrightarrow> pipe_step True w w' \<Longrightarrow> pipe_world_ok w'"
  by (erule pipe_step.cases)
     (auto intro: pipe_world_ok_create pipe_world_ok_write pipe_world_ok_read pipe_world_ok_resume pipe_world_ok_close)

lemma pipe_world_init_ok: "pipe_world_ok pipe_world_init"
  by (simp add: pipe_world_ok_def pipe_world_init_def pipe_manager_new_def readers_ok_def stream_ok_def bt_contains_def)

interpretation pipe_stream: invariant_system pipe_world_init "pipe_step True" pipe_world_ok
  by unfold_locales (auto intro: pipe_world_init_ok pipe_step_ok)

subsection \<open>Runs\<close>

text \<open>One pipe, created from the initial state; its number is 1.\<close>

definition run_pipe :: pipe_world where
  "run_pipe = pipe_world_init\<lparr>pw_state := snd (create_pipe (pw_state pipe_world_init))\<rparr>"

definition do_write :: "bytes \<Rightarrow> pipe_world \<Rightarrow> pipe_world" where
  "do_write payload w = after_write 1 payload (pipe_write_pass 1 payload True (pw_state w)) w"

definition do_read :: "nat \<Rightarrow> pipe_world \<Rightarrow> pipe_world" where
  "do_read len w = after_read 1 len (pw_readers w) (pipe_read_turn 1 len False None (pw_state w)) w"

definition do_resume :: "bool \<Rightarrow> pipe_reader list \<Rightarrow> pipe_reader \<Rightarrow> pipe_reader list \<Rightarrow> pipe_world \<Rightarrow> pipe_world" where
  "do_resume timed_out xs r ys w = after_read (rd_pipe r) (rd_len r) (xs @ ys)
     (pipe_read_resume (rd_pipe r) (rd_len r) timed_out False (rd_waiter r) (pw_state w)) w"

definition reader :: "u64 \<Rightarrow> pipe_reader" where
  "reader i = \<lparr>rd_pipe = 1, rd_len = 1, rd_waiter = i\<rparr>"

lemma run_pipe_reachable: "(pipe_step solo)\<^sup>*\<^sup>* pipe_world_init run_pipe"
proof -
  have "ids_left (pw_state pipe_world_init)"
    by (simp add: ids_left_def pipe_world_init_def pipe_manager_new_def)
  then show ?thesis
    unfolding run_pipe_def by (intro r_into_rtranclp pstep_create)
qed

lemma do_write_reachable:
  "(pipe_step solo)\<^sup>*\<^sup>* pipe_world_init w \<Longrightarrow> (pipe_step solo)\<^sup>*\<^sup>* pipe_world_init (do_write payload w)"
  unfolding do_write_def by (erule rtranclp.rtrancl_into_rtrancl) (rule pstep_write)

lemma do_read_reachable:
  "(pipe_step solo)\<^sup>*\<^sup>* pipe_world_init w \<Longrightarrow> ids_left (pw_state w) \<and> 1 < next_pipe_id (pw_state w) \<Longrightarrow>
    (solo \<Longrightarrow> pw_readers w = []) \<Longrightarrow> (pipe_step solo)\<^sup>*\<^sup>* pipe_world_init (do_read len w)"
  unfolding do_read_def by (erule rtranclp.rtrancl_into_rtrancl) (rule pstep_read, auto)

lemma do_resume_reachable:
  "(pipe_step solo)\<^sup>*\<^sup>* pipe_world_init w \<Longrightarrow> ids_left (pw_state w) \<and> pw_readers w = xs @ r # ys \<Longrightarrow>
    \<not> solo \<or> \<not> timed_out \<Longrightarrow> (pipe_step solo)\<^sup>*\<^sup>* pipe_world_init (do_resume timed_out xs r ys w)"
  unfolding do_resume_def by (erule rtranclp.rtrancl_into_rtrancl) (rule pstep_resume, auto)

definition run_two_readers :: pipe_world where
  "run_two_readers = do_write [30] (do_resume False [] (reader 1) [] (do_resume False [reader 1] (reader 2) []
     (do_write [10, 20] (do_read 1 (do_read 1 run_pipe)))))"

definition run_late_timeout :: pipe_world where
  "run_late_timeout = do_resume True [] (reader 1) [] (do_write [7] (do_read 1 run_pipe))"

definition run_one_reader :: pipe_world where
  "run_one_reader = do_resume False [] (reader 1) [] (do_write [5, 6, 7] (do_read 1 run_pipe))"

lemma run_one_reader_reachable: "(pipe_step True)\<^sup>*\<^sup>* pipe_world_init run_one_reader"
  unfolding run_one_reader_def
  by (intro do_write_reachable do_resume_reachable do_read_reachable run_pipe_reachable; code_simp)

lemma run_two_readers_reachable: "(pipe_step False)\<^sup>*\<^sup>* pipe_world_init run_two_readers"
  unfolding run_two_readers_def
  by (intro do_write_reachable do_resume_reachable do_read_reachable run_pipe_reachable; code_simp)

lemma run_late_timeout_reachable: "(pipe_step False)\<^sup>*\<^sup>* pipe_world_init run_late_timeout"
  unfolding run_late_timeout_def
  by (intro do_write_reachable do_resume_reachable do_read_reachable run_pipe_reachable; code_simp)

subsection \<open>Properties\<close>





end
