(* ===== verification/Process_Table.thy ===== *)
theory Process_Table
  imports BTree_Map User
begin

text \<open>
  \<^verbatim>\<open>process_table.rs\<close>: signal sets, process records, \<^verbatim>\<open>waitpid\<close>, signals, process groups and sessions, and
  the zombie reaper. The state is the table under its mutex together with the reaper's. A driver
  (\<^verbatim>\<open>DriverProcess\<close>, an interface implemented outside this crate) is a handle; the calls of \<^verbatim>\<open>kill\<close> on
  drivers and of the exit callback are recorded in order in the state. A driver that reports its
  exit does so by a later \<^verbatim>\<open>mark_exited\<close>. The clock, in milliseconds, is an argument.
\<close>

subsection \<open>Constants and errors\<close>

definition ZOMBIE_TTL :: nat where "ZOMBIE_TTL = 60000"
definition INIT_PID :: u32 where "INIT_PID = 1"
definition DEFAULT_PROCESS_UMASK :: u32 where "DEFAULT_PROCESS_UMASK = 0x12"
definition SIGHUP :: int where "SIGHUP = 1"
definition SIGCHLD :: int where "SIGCHLD = 17"
definition SIGCONT :: int where "SIGCONT = 18"
definition SIGSTOP :: int where "SIGSTOP = 19"
definition SIGTSTP :: int where "SIGTSTP = 20"
definition SIGTERM :: int where "SIGTERM = 15"
definition SIGKILL :: int where "SIGKILL = 9"
definition SIGPIPE :: int where "SIGPIPE = 13"
definition SIGWINCH :: int where "SIGWINCH = 28"
definition MAX_SIGNAL :: int where "MAX_SIGNAL = 64"

lemmas signal_consts = SIGHUP_def SIGCHLD_def SIGCONT_def SIGSTOP_def SIGTSTP_def SIGTERM_def
  SIGKILL_def SIGPIPE_def SIGWINCH_def MAX_SIGNAL_def

definition invalid_signal :: "int \<Rightarrow> sys_error" where
  "invalid_signal signal = SysError EINVAL (''invalid signal '' @ show_int signal)"

definition no_such_process :: "u32 \<Rightarrow> sys_error" where
  "no_such_process pid = SysError ESRCH (''no such process '' @ show_word pid)"

definition no_such_process_group :: "u32 \<Rightarrow> sys_error" where
  "no_such_process_group pgid = SysError ESRCH (''no such process group '' @ show_word pgid)"

definition no_matching_child :: "u32 \<Rightarrow> int \<Rightarrow> sys_error" where
  "no_matching_child waiter_pid pid = SysError ECHILD
     (''process '' @ show_word waiter_pid @ '' has no matching child for waitpid('' @ show_int pid @ '')'')"

definition permission_denied :: "string \<Rightarrow> sys_error" where
  "permission_denied msg = SysError EPERM msg"

lemmas process_errors = invalid_signal_def no_such_process_def no_such_process_group_def
  no_matching_child_def permission_denied_def

subsection \<open>Signal sets\<close>

type_synonym signal_set = u64

definition signal_bit :: "int \<Rightarrow> u64 result" where
  "signal_bit signal =
     (if 1 \<le> signal \<and> signal \<le> MAX_SIGNAL then Inr (push_bit (nat (signal - 1)) 1)
      else Inl (invalid_signal signal))"

definition sigset_from_signal :: "int \<Rightarrow> signal_set result" where
  "sigset_from_signal signal = signal_bit signal"

definition sigset_contains :: "signal_set \<Rightarrow> int \<Rightarrow> bool" where
  "sigset_contains sigs signal =
     (case signal_bit signal of Inl _ \<Rightarrow> False | Inr msk \<Rightarrow> sigs AND msk \<noteq> 0)"

definition sigset_insert :: "int \<Rightarrow> signal_set \<Rightarrow> signal_set result" where
  "sigset_insert signal sigs = (case signal_bit signal of Inl e \<Rightarrow> Inl e | Inr msk \<Rightarrow> Inr (sigs OR msk))"

definition sigset_remove :: "int \<Rightarrow> signal_set \<Rightarrow> signal_set result" where
  "sigset_remove signal sigs = (case signal_bit signal of Inl e \<Rightarrow> Inl e | Inr msk \<Rightarrow> Inr (sigs AND NOT msk))"

fun sigset_insert_all :: "int list \<Rightarrow> signal_set \<Rightarrow> signal_set result" where
  "sigset_insert_all [] sigs = Inr sigs"
| "sigset_insert_all (signal # signals) sigs =
     (case sigset_insert signal sigs of Inl e \<Rightarrow> Inl e | Inr sigs' \<Rightarrow> sigset_insert_all signals sigs')"

definition sigset_from_signals :: "int list \<Rightarrow> signal_set result" where
  "sigset_from_signals signals = sigset_insert_all signals 0"

definition sigset_union :: "signal_set \<Rightarrow> signal_set \<Rightarrow> signal_set" where
  "sigset_union a b = a OR b"

definition sigset_difference :: "signal_set \<Rightarrow> signal_set \<Rightarrow> signal_set" where
  "sigset_difference a b = a AND NOT b"

definition sigset_signals :: "signal_set \<Rightarrow> int list" where
  "sigset_signals sigs = filter (sigset_contains sigs) [1..MAX_SIGNAL]"

datatype sigmask_how = SigBlock | SigUnblock | SigSetMask

subsection \<open>Records\<close>

type_synonym wait_pid_flags = u32

definition WNOHANG :: wait_pid_flags where "WNOHANG = 1"
definition WUNTRACED :: wait_pid_flags where "WUNTRACED = 2"
definition WCONTINUED :: wait_pid_flags where "WCONTINUED = 4"

lemmas wait_flag_consts = WNOHANG_def WUNTRACED_def WCONTINUED_def

definition flags_contain :: "wait_pid_flags \<Rightarrow> wait_pid_flags \<Rightarrow> bool" where
  "flags_contain flags other \<longleftrightarrow> flags AND other = other"

datatype process_status = Running | Stopped | Exited

datatype process_wait_event = WaitExited | WaitStopped | WaitContinued

record process_wait_result =
  wait_pid :: u32
  wait_status :: int
  wait_event :: process_wait_event

record process_file_descriptors =
  fds_stdin :: u32
  fds_stdout :: u32
  fds_stderr :: u32

definition process_file_descriptors_default :: process_file_descriptors where
  "process_file_descriptors_default = \<lparr>fds_stdin = 0, fds_stdout = 1, fds_stderr = 2\<rparr>"

record process_context =
  ctx_pid :: u32
  ctx_ppid :: u32
  ctx_env :: "(string, string) btree"
  ctx_cwd :: string
  ctx_umask :: u32
  ctx_fds :: process_file_descriptors
  ctx_identity :: process_identity
  ctx_blocked :: signal_set
  ctx_pending :: signal_set

definition process_context_default :: process_context where
  "process_context_default = \<lparr>ctx_pid = 0, ctx_ppid = 0, ctx_env = bt_empty, ctx_cwd = ''/'',
     ctx_umask = DEFAULT_PROCESS_UMASK, ctx_fds = process_file_descriptors_default,
     ctx_identity = process_identity_default, ctx_blocked = 0, ctx_pending = 0\<rparr>"

record process_entry =
  p_pid :: u32
  p_ppid :: u32
  p_pgid :: u32
  p_sid :: u32
  p_driver :: string
  p_command :: string
  p_args :: "string list"
  p_status :: process_status
  p_exit_code :: "int option"
  p_exit_time_ms :: "nat option"
  p_env :: "(string, string) btree"
  p_cwd :: string
  p_umask :: u32
  p_identity :: process_identity

record process_info =
  info_pid :: u32
  info_ppid :: u32
  info_pgid :: u32
  info_sid :: u32
  info_driver :: string
  info_command :: string
  info_status :: process_status
  info_exit_code :: "int option"
  info_identity :: process_identity

record pending_wait_event =
  pending_status :: int
  pending_event :: process_wait_event

type_synonym driver_handle = nat

record process_record =
  r_entry :: process_entry
  r_driver_process :: driver_handle
  r_wait_events :: "pending_wait_event list"
  r_blocked :: signal_set
  r_pending :: signal_set

record signal_delivery =
  d_pid :: u32
  d_signal :: int
  d_status :: process_status
  d_driver :: driver_handle

record zombie_reaper =
  reaper_deadlines :: "(u32, nat) btree"
  reaper_shutdown :: bool

record process_table =
  pt_entries :: "(u32, process_record) btree"
  pt_next_pid :: u32
  pt_zombie_ttl :: nat
  pt_has_exit_callback :: bool
  pt_terminating_all :: bool
  pt_reaper :: zombie_reaper
  pt_driver_calls :: "(driver_handle \<times> int) list"
  pt_exit_hooks :: "(driver_handle \<times> u32) list"
  pt_exit_calls :: "u32 list"

definition process_table_with_ttl :: "nat \<Rightarrow> process_table" where
  "process_table_with_ttl ttl = \<lparr>pt_entries = bt_empty, pt_next_pid = 1, pt_zombie_ttl = ttl,
     pt_has_exit_callback = False, pt_terminating_all = False,
     pt_reaper = \<lparr>reaper_deadlines = bt_empty, reaper_shutdown = False\<rparr>,
     pt_driver_calls = [], pt_exit_hooks = [], pt_exit_calls = []\<rparr>"

definition process_table_new :: process_table where
  "process_table_new = process_table_with_ttl ZOMBIE_TTL"

definition pt_records :: "process_table \<Rightarrow> process_record list" where
  "pt_records t = bt_values (pt_entries t)"

definition update_record :: "u32 \<Rightarrow> (process_record \<Rightarrow> process_record) \<Rightarrow> process_table \<Rightarrow> process_table" where
  "update_record pid f t = t\<lparr>pt_entries := bt_modify pid f (pt_entries t)\<rparr>"

definition update_entry :: "(process_entry \<Rightarrow> process_entry) \<Rightarrow> process_record \<Rightarrow> process_record" where
  "update_entry f r = r\<lparr>r_entry := f (r_entry r)\<rparr>"

definition status_of :: "process_record \<Rightarrow> process_status" where
  "status_of r = p_status (r_entry r)"

subsection \<open>The zombie reaper\<close>

definition reaper_schedule :: "nat \<Rightarrow> u32 \<Rightarrow> nat \<Rightarrow> zombie_reaper \<Rightarrow> zombie_reaper" where
  "reaper_schedule now pid ttl r = r\<lparr>reaper_deadlines := bt_insert pid (now + ttl) (reaper_deadlines r)\<rparr>"

definition reaper_cancel :: "u32 \<Rightarrow> zombie_reaper \<Rightarrow> zombie_reaper" where
  "reaper_cancel pid r = r\<lparr>reaper_deadlines := bt_remove pid (reaper_deadlines r)\<rparr>"

definition reaper_clear :: "zombie_reaper \<Rightarrow> zombie_reaper" where
  "reaper_clear r = r\<lparr>reaper_deadlines := bt_empty\<rparr>"

definition reaper_scheduled_count :: "zombie_reaper \<Rightarrow> nat" where
  "reaper_scheduled_count r = bt_len (reaper_deadlines r)"

text \<open>\<^verbatim>\<open>min_by_key\<close>: the first entry, in key order, with the least deadline.\<close>

fun min_deadline :: "(u32 \<times> nat) list \<Rightarrow> (u32 \<times> nat) option" where
  "min_deadline [] = None"
| "min_deadline ((pid, deadline) # es) =
     (case min_deadline es of
        None \<Rightarrow> Some (pid, deadline)
      | Some (pid', deadline') \<Rightarrow> if deadline' < deadline then Some (pid', deadline') else Some (pid, deadline))"

text \<open>One pass of \<^verbatim>\<open>take_next_due_pid\<close>: \<open>Return None\<close> ends the thread, \<open>Blocked\<close> waits.\<close>

definition take_next_due_pid :: "nat \<Rightarrow> zombie_reaper \<Rightarrow> u32 option attempt \<times> zombie_reaper" where
  "take_next_due_pid now r =
     (if reaper_shutdown r then (Return None, r)
      else case min_deadline (bt_entries (reaper_deadlines r)) of
        None \<Rightarrow> (Blocked, r)
      | Some (pid, deadline) \<Rightarrow>
          if deadline \<le> now then (Return (Some pid), reaper_cancel pid r) else (Blocked, r))"

definition has_living_parent :: "process_table \<Rightarrow> u32 \<Rightarrow> bool" where
  "has_living_parent t ppid \<longleftrightarrow> ppid \<noteq> 0 \<and>
     (case bt_get (pt_entries t) ppid of None \<Rightarrow> False | Some r \<Rightarrow> status_of r \<noteq> Exited)"

definition reap_step :: "nat \<Rightarrow> process_table \<Rightarrow> process_table" where
  "reap_step now t =
     (case take_next_due_pid now (pt_reaper t) of
        (Return (Some pid), reaper) \<Rightarrow>
          (let t1 = t\<lparr>pt_reaper := reaper\<rparr> in
           case bt_get (pt_entries t1) pid of
             None \<Rightarrow> t1
           | Some r \<Rightarrow>
               if status_of r = Exited \<and> \<not> has_living_parent t1 (p_ppid (r_entry r))
               then t1\<lparr>pt_entries := bt_remove pid (pt_entries t1)\<rparr>
               else if status_of r = Exited
               then t1\<lparr>pt_reaper := reaper_schedule now pid (pt_zombie_ttl t1) (pt_reaper t1)\<rparr>
               else t1)
      | (_, reaper) \<Rightarrow> t\<lparr>pt_reaper := reaper\<rparr>)"

subsection \<open>Signals\<close>

definition signal_can_be_blocked :: "int \<Rightarrow> bool" where
  "signal_can_be_blocked signal \<longleftrightarrow> \<not> (signal = SIGKILL \<or> signal = SIGSTOP \<or> signal = SIGCONT)"

definition delivery_to :: "process_record \<Rightarrow> int \<Rightarrow> signal_delivery" where
  "delivery_to r signal = \<lparr>d_pid = p_pid (r_entry r), d_signal = signal, d_status = status_of r,
     d_driver = r_driver_process r\<rparr>"

definition queue_or_schedule_signal ::
    "process_record \<Rightarrow> int \<Rightarrow> (signal_delivery option \<times> process_record) result" where
  "queue_or_schedule_signal r signal =
     (if signal_can_be_blocked signal \<and> sigset_contains (r_blocked r) signal
      then (case sigset_insert signal (r_pending r) of
              Inl e \<Rightarrow> Inl e
            | Inr pending \<Rightarrow> Inr (None, r\<lparr>r_pending := pending\<rparr>))
      else Inr (Some (delivery_to r signal), r))"

fun collect_signal_deliveries ::
    "u32 list \<Rightarrow> int \<Rightarrow> process_table \<Rightarrow> signal_delivery list result \<times> process_table" where
  "collect_signal_deliveries [] signal t = (Inr [], t)"
| "collect_signal_deliveries (pid # pids) signal t =
     (case bt_get (pt_entries t) pid of
        None \<Rightarrow> collect_signal_deliveries pids signal t
      | Some r \<Rightarrow>
          (case queue_or_schedule_signal r signal of
             Inl e \<Rightarrow> (Inl e, t)
           | Inr (delivery, r') \<Rightarrow>
               (case collect_signal_deliveries pids signal (update_record pid (\<lambda>_. r') t) of
                  (Inl e, t') \<Rightarrow> (Inl e, t')
                | (Inr ds, t') \<Rightarrow> (Inr (case delivery of None \<Rightarrow> ds | Some d \<Rightarrow> d # ds), t'))))"

fun collect_pending_signal_deliveries ::
    "int list \<Rightarrow> process_record \<Rightarrow> signal_delivery list result \<times> process_record" where
  "collect_pending_signal_deliveries [] r = (Inr [], r)"
| "collect_pending_signal_deliveries (signal # signals) r =
     (case sigset_remove signal (r_pending r) of
        Inl e \<Rightarrow> (Inl e, r)
      | Inr pending \<Rightarrow>
          (let r' = r\<lparr>r_pending := pending\<rparr> in
           case collect_pending_signal_deliveries signals r' of
             (Inl e, r'') \<Rightarrow> (Inl e, r'')
           | (Inr ds, r'') \<Rightarrow> (Inr (delivery_to r' signal # ds), r'')))"

definition driver_kills :: "signal_delivery list \<Rightarrow> process_table \<Rightarrow> process_table" where
  "driver_kills ds t = t\<lparr>pt_driver_calls := pt_driver_calls t @ map (\<lambda>d. (d_driver d, d_signal d)) ds\<rparr>"

text \<open>
  \<^verbatim>\<open>mark_wait_event_inner\<close> and \<^verbatim>\<open>deliver_signals\<close> call each other, but the first only with \<^verbatim>\<open>SIGCHLD\<close>, on
  which \<^verbatim>\<open>deliver_signals\<close> does nothing but call the driver. \<open>mark_wait_event_unfold\<close> below shows that
  the definition here is the mutual one.
\<close>

definition notify_parent :: "u32 \<Rightarrow> process_table \<Rightarrow> signal_delivery list \<times> process_table" where
  "notify_parent ppid t =
     (case bt_get (pt_entries t) ppid of
        None \<Rightarrow> ([], t)
      | Some parent \<Rightarrow>
          if status_of parent = Running then
            (case queue_or_schedule_signal parent SIGCHLD of
               Inl _ \<Rightarrow> ([], t)
             | Inr (delivery, parent') \<Rightarrow>
                 (case delivery of None \<Rightarrow> [] | Some d \<Rightarrow> [d], update_record ppid (\<lambda>_. parent') t))
          else ([], t))"

definition mark_wait_event :: "u32 \<Rightarrow> process_status \<Rightarrow> pending_wait_event \<Rightarrow> process_table \<Rightarrow> process_table" where
  "mark_wait_event pid next_status event t =
     (case bt_get (pt_entries t) pid of
        None \<Rightarrow> t
      | Some r \<Rightarrow>
          if status_of r = Exited \<or> status_of r = next_status then t
          else
            let t1 = update_record pid (\<lambda>r. (update_entry (\<lambda>e. e\<lparr>p_status := next_status\<rparr>) r)
                       \<lparr>r_wait_events := r_wait_events r @ [event]\<rparr>) t;
                (deliveries, t2) = notify_parent (p_ppid (r_entry r)) t1
            in driver_kills deliveries t2)"

definition stopped_event :: "int \<Rightarrow> pending_wait_event" where
  "stopped_event signal = \<lparr>pending_status = signal, pending_event = WaitStopped\<rparr>"

definition continued_event :: pending_wait_event where
  "continued_event = \<lparr>pending_status = SIGCONT, pending_event = WaitContinued\<rparr>"

definition mark_stopped :: "u32 \<Rightarrow> int \<Rightarrow> process_table \<Rightarrow> process_table" where
  "mark_stopped pid signal = mark_wait_event pid Stopped (stopped_event signal)"

definition mark_continued :: "u32 \<Rightarrow> process_table \<Rightarrow> process_table" where
  "mark_continued pid = mark_wait_event pid Running continued_event"

definition stops :: "signal_delivery \<Rightarrow> bool" where
  "stops d \<longleftrightarrow> (d_signal d = SIGSTOP \<or> d_signal d = SIGTSTP) \<and> d_status d = Running"

definition continues :: "signal_delivery \<Rightarrow> bool" where
  "continues d \<longleftrightarrow> d_signal d = SIGCONT \<and> d_status d = Stopped"

definition deliver_signals :: "signal_delivery list \<Rightarrow> process_table \<Rightarrow> process_table" where
  "deliver_signals deliveries t =
     fold (\<lambda>d. mark_continued (d_pid d)) (filter continues deliveries)
       (fold (\<lambda>d. mark_stopped (d_pid d) (d_signal d)) (filter stops deliveries)
         (driver_kills deliveries t))"

subsection \<open>Registering and looking up\<close>

definition pt_allocate_pid :: "process_table \<Rightarrow> u32 \<times> process_table" where
  "pt_allocate_pid t = (pt_next_pid t, t\<lparr>pt_next_pid := pt_next_pid t + 1\<rparr>)"

definition pt_set_on_process_exit :: "bool \<Rightarrow> process_table \<Rightarrow> process_table" where
  "pt_set_on_process_exit has_callback t = t\<lparr>pt_has_exit_callback := has_callback\<rparr>"

definition pt_register ::
    "u32 \<Rightarrow> string \<Rightarrow> string \<Rightarrow> string list \<Rightarrow> process_context \<Rightarrow> driver_handle \<Rightarrow> process_table
      \<Rightarrow> process_entry \<times> process_table" where
  "pt_register pid driver command args ctx driver_process t =
     (let (pgid, sid) = (case bt_get (pt_entries t) (ctx_ppid ctx) of
                           Some parent \<Rightarrow> (p_pgid (r_entry parent), p_sid (r_entry parent))
                         | None \<Rightarrow> (pid, pid));
          entry = \<lparr>p_pid = pid, p_ppid = ctx_ppid ctx, p_pgid = pgid, p_sid = sid, p_driver = driver,
                   p_command = command, p_args = args, p_status = Running, p_exit_code = None,
                   p_exit_time_ms = None, p_env = ctx_env ctx, p_cwd = ctx_cwd ctx,
                   p_umask = ctx_umask ctx AND 0x1FF, p_identity = ctx_identity ctx\<rparr>
      in (entry, t\<lparr>pt_entries := bt_insert pid
            \<lparr>r_entry = entry, r_driver_process = driver_process, r_wait_events = [],
             r_blocked = ctx_blocked ctx, r_pending = ctx_pending ctx\<rparr> (pt_entries t),
          pt_exit_hooks := pt_exit_hooks t @ [(driver_process, pid)]\<rparr>))"

definition pt_get :: "process_table \<Rightarrow> u32 \<Rightarrow> process_entry option" where
  "pt_get t pid = map_option r_entry (bt_get (pt_entries t) pid)"

definition pt_running_count :: "process_table \<Rightarrow> nat" where
  "pt_running_count t = length (filter (\<lambda>r. status_of r = Running) (pt_records t))"

definition to_process_info :: "process_entry \<Rightarrow> process_info" where
  "to_process_info e = \<lparr>info_pid = p_pid e, info_ppid = p_ppid e, info_pgid = p_pgid e, info_sid = p_sid e,
     info_driver = p_driver e, info_command = p_command e, info_status = p_status e,
     info_exit_code = p_exit_code e, info_identity = p_identity e\<rparr>"

definition pt_list_processes :: "process_table \<Rightarrow> (u32, process_info) btree" where
  "pt_list_processes t =
     fold (\<lambda>r. bt_insert (p_pid (r_entry r)) (to_process_info (r_entry r))) (pt_records t) bt_empty"

subsection \<open>Exit\<close>

definition reparent_target_pid :: "process_table \<Rightarrow> u32 \<Rightarrow> u32" where
  "reparent_target_pid t exiting_pid =
     (if exiting_pid \<noteq> INIT_PID \<and>
         (case bt_get (pt_entries t) INIT_PID of None \<Rightarrow> False | Some r \<Rightarrow> status_of r \<noteq> Exited)
      then INIT_PID else 0)"

definition reparent_children_to_init :: "u32 \<Rightarrow> u32 bset \<Rightarrow> process_table \<Rightarrow> u32 bset \<times> process_table" where
  "reparent_children_to_init exiting_pid affected_pgids t =
     (let new_parent = reparent_target_pid t exiting_pid;
          is_child = (\<lambda>r. p_ppid (r_entry r) = exiting_pid)
      in (fold (\<lambda>r. bs_insert (p_pgid (r_entry r))) (filter is_child (pt_records t)) affected_pgids,
          t\<lparr>pt_entries := bt_mapv (\<lambda>_ r. if is_child r then update_entry (\<lambda>e. e\<lparr>p_ppid := new_parent\<rparr>) r else r)
              (pt_entries t)\<rparr>))"

definition has_parent_outside_group_in_same_session :: "process_table \<Rightarrow> process_entry \<Rightarrow> bool" where
  "has_parent_outside_group_in_same_session t e =
     (if p_ppid e = 0 \<or> p_ppid e = INIT_PID then False
      else case bt_get (pt_entries t) (p_ppid e) of
        None \<Rightarrow> False
      | Some parent \<Rightarrow> status_of parent \<noteq> Exited \<and> p_sid (r_entry parent) = p_sid e
                       \<and> p_pgid (r_entry parent) \<noteq> p_pgid e)"

definition group_members :: "process_table \<Rightarrow> u32 \<Rightarrow> process_record list" where
  "group_members t pgid = filter (\<lambda>r. p_pgid (r_entry r) = pgid \<and> status_of r \<noteq> Exited) (pt_records t)"

definition process_group_is_orphaned :: "process_table \<Rightarrow> u32 \<Rightarrow> bool" where
  "process_group_is_orphaned t pgid \<longleftrightarrow> group_members t pgid \<noteq> [] \<and>
     \<not> list_ex (\<lambda>r. has_parent_outside_group_in_same_session t (r_entry r)) (group_members t pgid)"

definition process_group_has_stopped_member :: "process_table \<Rightarrow> u32 \<Rightarrow> bool" where
  "process_group_has_stopped_member t pgid \<longleftrightarrow>
     list_ex (\<lambda>r. p_pgid (r_entry r) = pgid \<and> status_of r = Stopped) (pt_records t)"

definition collect_orphaned_group_signal_targets :: "process_table \<Rightarrow> u32 bset \<Rightarrow> u32 list" where
  "collect_orphaned_group_signal_targets t candidate_pgids =
     concat (map (\<lambda>pgid. map (\<lambda>r. p_pid (r_entry r)) (group_members t pgid))
       (filter (\<lambda>pgid. process_group_is_orphaned t pgid \<and> process_group_has_stopped_member t pgid)
         (bs_elems candidate_pgids)))"

text \<open>\<^verbatim>\<open>queue_or_schedule_signal(...).expect(...)\<close> on the record of a process, if it exists.\<close>

definition send_valid_signal :: "u32 \<Rightarrow> int \<Rightarrow> process_table \<Rightarrow> signal_delivery list \<times> process_table" where
  "send_valid_signal pid signal t =
     (case bt_get (pt_entries t) pid of
        None \<Rightarrow> ([], t)
      | Some r \<Rightarrow>
          (case queue_or_schedule_signal r signal of
             Inl _ \<Rightarrow> ([], t)
           | Inr (delivery, r') \<Rightarrow>
               (case delivery of None \<Rightarrow> [] | Some d \<Rightarrow> [d], update_record pid (\<lambda>_. r') t)))"

fun hangup_orphans :: "u32 list \<Rightarrow> process_table \<Rightarrow> signal_delivery list \<times> process_table" where
  "hangup_orphans [] t = ([], t)"
| "hangup_orphans (pid # pids) t =
     (let (d1, t1) = send_valid_signal pid SIGHUP t;
          (d2, t2) = send_valid_signal pid SIGCONT t1;
          (ds, t3) = hangup_orphans pids t2
      in (d1 @ d2 @ ds, t3))"

definition pt_mark_exited :: "nat \<Rightarrow> u32 \<Rightarrow> int \<Rightarrow> process_table \<Rightarrow> process_table" where
  "pt_mark_exited now pid exit_code t =
     (case bt_get (pt_entries t) pid of
        None \<Rightarrow> t
      | Some r \<Rightarrow>
          if status_of r = Exited then t
          else
            let t1 = update_record pid (update_entry (\<lambda>e. e\<lparr>p_status := Exited, p_exit_code := Some exit_code,
                       p_exit_time_ms := Some now\<rparr>)) t;
                (affected_pgids, t2) =
                  reparent_children_to_init pid (bs_insert (p_pgid (r_entry r)) bs_empty) t1;
                targets = collect_orphaned_group_signal_targets t2 affected_pgids;
                should_schedule = (\<not> pt_terminating_all t2);
                (d1, t3) = (if should_schedule then notify_parent (p_ppid (r_entry r)) t2 else ([], t2));
                (d2, t4) = hangup_orphans targets t3;
                t5 = t4\<lparr>pt_reaper := (if should_schedule
                        then reaper_schedule now pid (pt_zombie_ttl t4) (pt_reaper t4)
                        else reaper_cancel pid (pt_reaper t4))\<rparr>;
                t6 = deliver_signals (d1 @ d2) t5
            in t6\<lparr>pt_exit_calls := (if pt_has_exit_callback t4 then pt_exit_calls t6 @ [pid] else pt_exit_calls t6)\<rparr>)"

subsection \<open>Waiting\<close>

text \<open>One pass of \<^verbatim>\<open>waitpid\<close>.\<close>

definition pt_waitpid :: "u32 \<Rightarrow> process_table \<Rightarrow> (u32 \<times> int) result attempt \<times> process_table" where
  "pt_waitpid pid t =
     (case bt_get (pt_entries t) pid of
        None \<Rightarrow> (Return (Inl (no_such_process pid)), t)
      | Some r \<Rightarrow>
          if status_of r = Exited
          then (Return (Inr (pid, unwrap_or (p_exit_code (r_entry r)) 0)),
                t\<lparr>pt_entries := bt_remove pid (pt_entries t), pt_reaper := reaper_cancel pid (pt_reaper t)\<rparr>)
          else (Blocked, t))"

datatype wait_selector = AnyChild | ChildPid u32 | ProcessGroup u32

definition resolve_wait_selector :: "process_table \<Rightarrow> u32 \<Rightarrow> int \<Rightarrow> wait_selector result" where
  "resolve_wait_selector t waiter_pid pid =
     (case bt_get (pt_entries t) waiter_pid of
        None \<Rightarrow> Inl (no_such_process waiter_pid)
      | Some waiter \<Rightarrow>
          Inr (if pid = - 1 then AnyChild
               else if pid = 0 then ProcessGroup (p_pgid (r_entry waiter))
               else if pid < - 1 then ProcessGroup (of_int (- pid))
               else ChildPid (of_int pid)))"

fun selects :: "wait_selector \<Rightarrow> process_entry \<Rightarrow> bool" where
  "selects AnyChild e = True"
| "selects (ChildPid pid) e = (p_pid e = pid)"
| "selects (ProcessGroup pgid) e = (p_pgid e = pgid)"

definition matching_child_pids :: "process_table \<Rightarrow> u32 \<Rightarrow> wait_selector \<Rightarrow> u32 list" where
  "matching_child_pids t waiter_pid selector =
     map (\<lambda>r. p_pid (r_entry r))
       (filter (\<lambda>r. selects selector (r_entry r))
         (filter (\<lambda>r. p_ppid (r_entry r) = waiter_pid) (pt_records t)))"

fun is_waitable_event :: "process_wait_event \<Rightarrow> wait_pid_flags \<Rightarrow> bool" where
  "is_waitable_event WaitExited flags = True"
| "is_waitable_event WaitStopped flags = flags_contain flags WUNTRACED"
| "is_waitable_event WaitContinued flags = flags_contain flags WCONTINUED"

text \<open>\<^verbatim>\<open>position\<close> and \<^verbatim>\<open>remove\<close>: the first waitable event and the queue without it.\<close>

fun take_event ::
    "wait_pid_flags \<Rightarrow> pending_wait_event list \<Rightarrow> (pending_wait_event \<times> pending_wait_event list) option" where
  "take_event flags [] = None"
| "take_event flags (event # events) =
     (if is_waitable_event (pending_event event) flags then Some (event, events)
      else map_option (\<lambda>(x, rest). (x, event # rest)) (take_event flags events))"

fun take_waitable_event ::
    "u32 list \<Rightarrow> wait_pid_flags \<Rightarrow> process_table \<Rightarrow> process_wait_result option \<times> process_table" where
  "take_waitable_event [] flags t = (None, t)"
| "take_waitable_event (child_pid # children) flags t =
     (case bt_get (pt_entries t) child_pid of
        None \<Rightarrow> (None, t)
      | Some r \<Rightarrow>
          (case take_event flags (r_wait_events r) of
             Some (event, rest) \<Rightarrow>
               (Some \<lparr>wait_pid = child_pid, wait_status = pending_status event, wait_event = pending_event event\<rparr>,
                update_record child_pid (\<lambda>r. r\<lparr>r_wait_events := rest\<rparr>) t)
           | None \<Rightarrow>
               if status_of r = Exited
               then (Some \<lparr>wait_pid = child_pid, wait_status = unwrap_or (p_exit_code (r_entry r)) 0,
                           wait_event = WaitExited\<rparr>,
                     t\<lparr>pt_entries := bt_remove child_pid (pt_entries t)\<rparr>)
               else take_waitable_event children flags t))"

definition pt_waitpid_for ::
    "u32 \<Rightarrow> int \<Rightarrow> wait_pid_flags \<Rightarrow> process_table
      \<Rightarrow> process_wait_result option result attempt \<times> process_table" where
  "pt_waitpid_for waiter_pid pid flags t =
     (case resolve_wait_selector t waiter_pid pid of
        Inl e \<Rightarrow> (Return (Inl e), t)
      | Inr selector \<Rightarrow>
          let children = matching_child_pids t waiter_pid selector
          in if children = [] then (Return (Inl (no_matching_child waiter_pid pid)), t)
             else case take_waitable_event children flags t of
                    (Some result, t') \<Rightarrow>
                      (Return (Inr (Some result)),
                       if wait_event result = WaitExited
                       then t'\<lparr>pt_reaper := reaper_cancel (wait_pid result) (pt_reaper t')\<rparr> else t')
                  | (None, t') \<Rightarrow>
                      if flags_contain flags WNOHANG then (Return (Inr None), t') else (Blocked, t'))"

subsection \<open>Sending signals and masking them\<close>

definition pt_kill :: "int \<Rightarrow> int \<Rightarrow> process_table \<Rightarrow> unit result \<times> process_table" where
  "pt_kill pid signal t =
     (if \<not> (0 \<le> signal \<and> signal \<le> MAX_SIGNAL) then (Inl (invalid_signal signal), t)
      else if pid < 0 then
        let pgid = of_int (- pid);
            grouped = map (\<lambda>r. p_pid (r_entry r)) (filter (\<lambda>r. p_pgid (r_entry r) = pgid) (pt_records t))
        in if grouped = [] then (Inl (no_such_process_group pgid), t)
           else (case collect_signal_deliveries grouped signal t of
                   (Inl e, t') \<Rightarrow> (Inl e, t')
                 | (Inr deliveries, t') \<Rightarrow>
                     (Inr (), if signal = 0 then t' else deliver_signals deliveries t'))
      else
        let target = of_int pid
        in case bt_get (pt_entries t) target of
             None \<Rightarrow> (Inl (no_such_process target), t)
           | Some r \<Rightarrow>
               if status_of r = Exited \<or> signal = 0 then (Inr (), t)
               else (case collect_signal_deliveries [target] signal t of
                       (Inl e, t') \<Rightarrow> (Inl e, t')
                     | (Inr deliveries, t') \<Rightarrow> (Inr (), deliver_signals deliveries t')))"

definition new_mask :: "sigmask_how \<Rightarrow> signal_set \<Rightarrow> signal_set \<Rightarrow> signal_set" where
  "new_mask how previous sigs =
     (case how of SigBlock \<Rightarrow> sigset_union previous sigs
      | SigUnblock \<Rightarrow> sigset_difference previous sigs
      | SigSetMask \<Rightarrow> sigs)"

definition pt_sigprocmask ::
    "u32 \<Rightarrow> sigmask_how \<Rightarrow> signal_set \<Rightarrow> process_table \<Rightarrow> signal_set result \<times> process_table" where
  "pt_sigprocmask pid how sigs t =
     (case bt_get (pt_entries t) pid of
        None \<Rightarrow> (Inl (no_such_process pid), t)
      | Some r \<Rightarrow>
          let previous = r_blocked r;
              r1 = r\<lparr>r_blocked := new_mask how previous sigs\<rparr>;
              unblocked_pending = sigset_difference (r_pending r1) (r_blocked r1)
          in case collect_pending_signal_deliveries (sigset_signals unblocked_pending) r1 of
               (Inl e, r2) \<Rightarrow> (Inl e, update_record pid (\<lambda>_. r2) t)
             | (Inr deliveries, r2) \<Rightarrow> (Inr previous, deliver_signals deliveries (update_record pid (\<lambda>_. r2) t)))"

definition pt_sigpending :: "process_table \<Rightarrow> u32 \<Rightarrow> signal_set result" where
  "pt_sigpending t pid = ok_or (map_option r_pending (bt_get (pt_entries t) pid)) (no_such_process pid)"

subsection \<open>Process groups, sessions and masks\<close>

text \<open>
  The loop of \<^verbatim>\<open>setpgid\<close> stops at the first live member of the group: \<open>None\<close> is a group without one.
\<close>

definition first_group_member :: "process_table \<Rightarrow> u32 \<Rightarrow> process_record option" where
  "first_group_member t pgid =
     find (\<lambda>r. p_pgid (r_entry r) = pgid \<and> status_of r \<noteq> Exited) (pt_records t)"

definition pt_setpgid :: "u32 \<Rightarrow> u32 \<Rightarrow> process_table \<Rightarrow> unit result \<times> process_table" where
  "pt_setpgid pid pgid t =
     (case bt_get (pt_entries t) pid of
        None \<Rightarrow> (Inl (no_such_process pid), t)
      | Some r \<Rightarrow>
          let target_pgid = (if pgid = 0 then pid else pgid);
              join = (Inr (), update_record pid (update_entry (\<lambda>e. e\<lparr>p_pgid := target_pgid\<rparr>)) t)
          in if target_pgid \<noteq> pid then
               (case first_group_member t target_pgid of
                  None \<Rightarrow> (Inl (permission_denied (''no such process group '' @ show_word target_pgid)), t)
                | Some m \<Rightarrow>
                    if p_sid (r_entry m) \<noteq> p_sid (r_entry r)
                    then (Inl (permission_denied ''cannot join process group in different session''), t)
                    else join)
             else join)"

definition pt_setsid :: "u32 \<Rightarrow> process_table \<Rightarrow> u32 result \<times> process_table" where
  "pt_setsid pid t =
     (case bt_get (pt_entries t) pid of
        None \<Rightarrow> (Inl (no_such_process pid), t)
      | Some r \<Rightarrow>
          if p_pgid (r_entry r) = pid
          then (Inl (permission_denied (''process '' @ show_word pid @ '' is already a process group leader'')), t)
          else (Inr pid, update_record pid (update_entry (\<lambda>e. e\<lparr>p_sid := pid, p_pgid := pid\<rparr>)) t))"

definition pt_getpgid :: "process_table \<Rightarrow> u32 \<Rightarrow> u32 result" where
  "pt_getpgid t pid = ok_or (map_option p_pgid (pt_get t pid)) (no_such_process pid)"

definition pt_getsid :: "process_table \<Rightarrow> u32 \<Rightarrow> u32 result" where
  "pt_getsid t pid = ok_or (map_option p_sid (pt_get t pid)) (no_such_process pid)"

definition pt_getppid :: "process_table \<Rightarrow> u32 \<Rightarrow> u32 result" where
  "pt_getppid t pid = ok_or (map_option p_ppid (pt_get t pid)) (no_such_process pid)"

definition pt_get_umask :: "process_table \<Rightarrow> u32 \<Rightarrow> u32 result" where
  "pt_get_umask t pid = ok_or (map_option p_umask (pt_get t pid)) (no_such_process pid)"

definition pt_set_umask :: "u32 \<Rightarrow> u32 \<Rightarrow> process_table \<Rightarrow> u32 result \<times> process_table" where
  "pt_set_umask pid umask t =
     (case bt_get (pt_entries t) pid of
        None \<Rightarrow> (Inl (no_such_process pid), t)
      | Some r \<Rightarrow> (Inr (p_umask (r_entry r)),
          update_record pid (update_entry (\<lambda>e. e\<lparr>p_umask := umask AND 0x1FF\<rparr>)) t))"

definition pt_has_process_group :: "process_table \<Rightarrow> u32 \<Rightarrow> bool" where
  "pt_has_process_group t pgid =
     list_ex (\<lambda>r. p_pgid (r_entry r) = pgid \<and> status_of r \<noteq> Exited) (pt_records t)"

subsection \<open>Terminating everything\<close>

text \<open>
  \<^verbatim>\<open>terminate_all\<close>. What \<^verbatim>\<open>DriverProcess::wait\<close> returns for a driver in the first and in the second round
  is \<open>wait1\<close> and \<open>wait2\<close>.
\<close>

definition running_drivers :: "process_table \<Rightarrow> (u32 \<times> driver_handle) list" where
  "running_drivers t =
     map (\<lambda>r. (p_pid (r_entry r), r_driver_process r)) (filter (\<lambda>r. status_of r = Running) (pt_records t))"

definition kill_drivers :: "int \<Rightarrow> (u32 \<times> driver_handle) list \<Rightarrow> process_table \<Rightarrow> process_table" where
  "kill_drivers signal ds t = t\<lparr>pt_driver_calls := pt_driver_calls t @ map (\<lambda>(_, d). (d, signal)) ds\<rparr>"

definition wait_drivers ::
    "nat \<Rightarrow> (driver_handle \<Rightarrow> int option) \<Rightarrow> (u32 \<times> driver_handle) list \<Rightarrow> process_table \<Rightarrow> process_table" where
  "wait_drivers now wait =
     fold (\<lambda>(pid, d) t. case wait d of None \<Rightarrow> t | Some exit_code \<Rightarrow> pt_mark_exited now pid exit_code t)"

definition still_running :: "process_table \<Rightarrow> u32 \<times> driver_handle \<Rightarrow> bool" where
  "still_running t = (\<lambda>(pid, _). case bt_get (pt_entries t) pid of None \<Rightarrow> False | Some r \<Rightarrow> status_of r = Running)"

definition pt_terminate_all ::
    "nat \<Rightarrow> (driver_handle \<Rightarrow> int option) \<Rightarrow> (driver_handle \<Rightarrow> int option) \<Rightarrow> process_table \<Rightarrow> process_table" where
  "pt_terminate_all now wait1 wait2 t =
     (let running = running_drivers t;
          t1 = t\<lparr>pt_terminating_all := True, pt_reaper := reaper_clear (pt_reaper t)\<rparr>;
          t2 = wait_drivers now wait1 running (kill_drivers SIGTERM running t1);
          survivors = filter (still_running t2) running;
          t3 = wait_drivers now wait2 survivors (kill_drivers SIGKILL survivors t2)
      in t3\<lparr>pt_terminating_all := False\<rparr>)"

subsection \<open>Signal sets as sets\<close>

lemma signal_bit_range: "1 \<le> signal \<and> signal \<le> 64 \<Longrightarrow> signal_bit signal = Inr (push_bit (nat (signal - 1)) 1)"
  by (simp add: signal_bit_def MAX_SIGNAL_def)

lemma sigset_contains_bit:
  "sigset_contains s signal \<longleftrightarrow> 1 \<le> signal \<and> signal \<le> 64 \<and> bit s (nat (signal - 1))"
proof (cases "1 \<le> signal \<and> signal \<le> 64")
  case True
  have "s AND push_bit (nat (signal - 1)) 1 \<noteq> 0 \<longleftrightarrow> bit s (nat (signal - 1))"
    by (simp add: push_bit_eq_mult and_exp_eq_0_iff_not_bit)
  with True show ?thesis
    by (simp add: sigset_contains_def signal_bit_range)
qed (auto simp: sigset_contains_def signal_bit_def MAX_SIGNAL_def)

lemma sigset_eqI: "(\<And>signal. sigset_contains s signal = sigset_contains s' signal) \<Longrightarrow> s = s'"
proof (rule bit_word_eqI)
  fix n
  assume "\<And>signal. sigset_contains s signal = sigset_contains s' signal" "n < LENGTH(64)"
  then show "bit s n = bit s' n"
    using sigset_contains_bit [of s "int n + 1"] sigset_contains_bit [of s' "int n + 1"] by simp
qed

lemma sigset_contains_simps [simp]:
  "\<not> sigset_contains 0 signal"
  "sigset_contains (sigset_union a b) signal \<longleftrightarrow> sigset_contains a signal \<or> sigset_contains b signal"
  "sigset_contains (sigset_difference a b) signal \<longleftrightarrow> sigset_contains a signal \<and> \<not> sigset_contains b signal"
  by (auto simp: sigset_contains_bit sigset_union_def sigset_difference_def bit_simps)

lemma bit_signal:
  "1 \<le> i \<Longrightarrow> i \<le> 64 \<Longrightarrow> 1 \<le> j \<Longrightarrow> bit (2 ^ nat (i - 1) :: u64) (nat (j - 1)) \<longleftrightarrow> j = i"
  by (auto simp: bit_exp_iff)

lemma sigset_insert_contains:
  assumes "sigset_insert i s = Inr s'"
  shows "sigset_contains s' j \<longleftrightarrow> j = i \<or> sigset_contains s j"
proof -
  have "1 \<le> i" "i \<le> 64" "s' = s OR 2 ^ nat (i - 1)"
    using assms by (auto simp: sigset_insert_def signal_bit_def MAX_SIGNAL_def split: if_splits)
  then show ?thesis
    by (auto simp: sigset_contains_bit bit_or_iff bit_signal)
qed

lemma sigset_remove_contains:
  assumes "sigset_remove i s = Inr s'"
  shows "sigset_contains s' j \<longleftrightarrow> j \<noteq> i \<and> sigset_contains s j"
proof -
  have "1 \<le> i" "i \<le> 64" "s' = s AND NOT (2 ^ nat (i - 1))"
    using assms by (auto simp: sigset_remove_def signal_bit_def MAX_SIGNAL_def split: if_splits)
  then show ?thesis
    by (auto simp: sigset_contains_bit bit_and_iff bit_not_iff bit_signal nat_less_iff)
qed

lemma sigset_valid:
  "(\<exists>s'. sigset_insert i s = Inr s') \<longleftrightarrow> 1 \<le> i \<and> i \<le> 64"
  "(\<exists>s'. sigset_remove i s = Inr s') \<longleftrightarrow> 1 \<le> i \<and> i \<le> 64"
  by (auto simp: sigset_insert_def sigset_remove_def signal_bit_def MAX_SIGNAL_def)

lemma set_sigset_signals [simp]: "set (sigset_signals s) = {i. sigset_contains s i}"
  by (auto simp: sigset_signals_def sigset_contains_bit MAX_SIGNAL_def)

lemma sigset_signals_sorted: "sorted_wrt (<) (sigset_signals s)"
  unfolding sigset_signals_def by (intro sorted_wrt_filter) (simp add: sorted_wrt_upto)

end
