(* ===== verification/Process_Inv.thy ===== *)
theory Process_Inv
  imports Process_Table
begin

text \<open>
  Invariants of the process table, over every sequence of its operations. Sending signals, stopping
  and continuing change no identity and no exit of a process: \<open>signals_only\<close> captures this once for
  all operations that end in \<^verbatim>\<open>deliver_signals\<close>. On top of it: parents of table entries are alive,
  pending signals are blocked ones, and process groups do not cross sessions.
\<close>

subsection \<open>Records\<close>

definition pending_ok :: "process_record \<Rightarrow> bool" where
  "pending_ok r \<longleftrightarrow> (\<forall>i. sigset_contains (r_pending r) i \<longrightarrow>
     sigset_contains (r_blocked r) i \<and> signal_can_be_blocked i)"

definition record_ok :: "u32 \<Rightarrow> process_record \<Rightarrow> bool" where
  "record_ok pid r \<longleftrightarrow> p_pid (r_entry r) = pid \<and> (status_of r = Exited \<longleftrightarrow> p_exit_code (r_entry r) \<noteq> None) \<and> pending_ok r"

definition same_identity :: "process_record \<Rightarrow> process_record \<Rightarrow> bool" where
  "same_identity r r' \<longleftrightarrow> p_pid (r_entry r') = p_pid (r_entry r) \<and> p_ppid (r_entry r') = p_ppid (r_entry r) \<and>
     p_pgid (r_entry r') = p_pgid (r_entry r) \<and> p_sid (r_entry r') = p_sid (r_entry r) \<and>
     (status_of r' = Exited \<longleftrightarrow> status_of r = Exited)"

definition record_signalled :: "u32 \<Rightarrow> process_record \<Rightarrow> process_record \<Rightarrow> bool" where
  "record_signalled pid r r' \<longleftrightarrow> same_identity r r' \<and> (record_ok pid r \<longrightarrow> record_ok pid r')"

definition signals_only :: "process_table \<Rightarrow> process_table \<Rightarrow> bool" where
  "signals_only t t' \<longleftrightarrow> pt_next_pid t' = pt_next_pid t \<and>
     (\<forall>pid. rel_option (record_signalled pid) (bt_get (pt_entries t) pid) (bt_get (pt_entries t') pid))"

lemma record_signalled_refl [simp]: "record_signalled pid r r"
  by (simp add: record_signalled_def same_identity_def)

lemma record_signalled_trans:
  "record_signalled pid r r1 \<Longrightarrow> record_signalled pid r1 r2 \<Longrightarrow> record_signalled pid r r2"
  by (simp add: record_signalled_def same_identity_def)

lemma signals_only_refl [simp]: "signals_only t t"
  by (simp add: signals_only_def option.rel_refl)

lemma signals_only_trans:
  assumes "signals_only t t1" "signals_only t1 t2"
  shows "signals_only t t2"
proof -
  have "rel_option (record_signalled pid) (bt_get (pt_entries t) pid) (bt_get (pt_entries t2) pid)" for pid
  proof -
    have "rel_option (record_signalled pid) (bt_get (pt_entries t) pid) (bt_get (pt_entries t1) pid)"
      "rel_option (record_signalled pid) (bt_get (pt_entries t1) pid) (bt_get (pt_entries t2) pid)"
      using assms by (simp_all add: signals_only_def)
    then show ?thesis
      by (auto simp: rel_option_iff split: option.splits intro: record_signalled_trans)
  qed
  then show ?thesis
    using assms by (simp add: signals_only_def)
qed

lemma update_record_fields [simp]:
  "bt_get (pt_entries (update_record pid f t)) q =
     (if q = pid then map_option f (bt_get (pt_entries t) pid) else bt_get (pt_entries t) q)"
  "pt_next_pid (update_record pid f t) = pt_next_pid t"
  "pt_reaper (update_record pid f t) = pt_reaper t"
  "pt_driver_calls (update_record pid f t) = pt_driver_calls t"
  "pt_terminating_all (update_record pid f t) = pt_terminating_all t"
  by (simp_all add: update_record_def)

lemma update_entry_fields [simp]:
  "r_entry (update_entry f r) = f (r_entry r)" "r_blocked (update_entry f r) = r_blocked r"
  "r_pending (update_entry f r) = r_pending r" "r_wait_events (update_entry f r) = r_wait_events r"
  "r_driver_process (update_entry f r) = r_driver_process r"
  by (simp_all add: update_entry_def)

lemma signals_only_update:
  "bt_get (pt_entries t) pid = Some r \<Longrightarrow> record_signalled pid r r' \<Longrightarrow>
     signals_only t (update_record pid (\<lambda>_. r') t)"
  by (simp add: signals_only_def option.rel_refl)

lemma signals_only_fields:
  "pt_entries t' = pt_entries t \<Longrightarrow> pt_next_pid t' = pt_next_pid t \<Longrightarrow> signals_only t t'"
  by (simp add: signals_only_def option.rel_refl)

lemma queue_record_signalled:
  assumes "queue_or_schedule_signal r signal = Inr (d, r')"
  shows "record_signalled pid r r'"
proof (cases "signal_can_be_blocked signal \<and> sigset_contains (r_blocked r) signal")
  case True
  then obtain pending where "sigset_insert signal (r_pending r) = Inr pending" "r' = r\<lparr>r_pending := pending\<rparr>"
    using assms by (auto simp: queue_or_schedule_signal_def split: sum.splits)
  with True show ?thesis
    using sigset_insert_contains [of signal "r_pending r" pending]
    by (auto simp: record_signalled_def same_identity_def record_ok_def status_of_def pending_ok_def)
next
  case False
  then have "r' = r"
    using assms by (auto simp: queue_or_schedule_signal_def)
  then show ?thesis by simp
qed

lemma queue_valid:
  "1 \<le> signal \<Longrightarrow> signal \<le> 64 \<Longrightarrow> \<exists>d r'. queue_or_schedule_signal r signal = Inr (d, r')"
  using sigset_valid(1) [of signal "r_pending r"] by (auto simp: queue_or_schedule_signal_def)

lemma signals_only_send:
  "send_valid_signal pid signal t = (ds, t') \<Longrightarrow> signals_only t t'"
  by (auto simp: send_valid_signal_def split: option.splits sum.splits
      intro: signals_only_update queue_record_signalled)

lemma signals_only_collect:
  "collect_signal_deliveries pids signal t = (r, t') \<Longrightarrow> signals_only t t'"
proof (induction pids signal t arbitrary: r t' rule: collect_signal_deliveries.induct)
  case (2 pid pids signal t)
  show ?case
  proof (cases "bt_get (pt_entries t) pid")
    case None
    with 2 show ?thesis by simp
  next
    case (Some rec)
    show ?thesis
    proof (cases "queue_or_schedule_signal rec signal")
      case (Inl e)
      with 2 Some show ?thesis by simp
    next
      case (Inr x)
      obtain d rec' where x: "x = (d, rec')" by fastforce
      obtain r1 t1 where rest: "collect_signal_deliveries pids signal (update_record pid (\<lambda>_. rec') t) = (r1, t1)"
        by fastforce
      have "signals_only (update_record pid (\<lambda>_. rec') t) t1"
        by (rule 2(2) [OF Some Inr x [symmetric] rest])
      moreover have "signals_only t (update_record pid (\<lambda>_. rec') t)"
        using Some Inr x by (blast intro: signals_only_update queue_record_signalled)
      moreover have "t' = t1"
        using 2(3) Some Inr x rest by (simp split: sum.splits)
      ultimately show ?thesis by (blast intro: signals_only_trans)
    qed
  qed
qed simp

lemma signals_only_notify: "notify_parent ppid t = (ds, t') \<Longrightarrow> signals_only t t'"
  by (auto simp: notify_parent_def split: option.splits sum.splits if_splits
      intro: signals_only_update queue_record_signalled)

lemma signals_only_kills [simp]: "signals_only t (driver_kills ds t)"
  by (rule signals_only_fields) (simp_all add: driver_kills_def)

lemma signals_only_wait_event:
  assumes "next_status \<noteq> Exited"
  shows "signals_only t (mark_wait_event pid next_status event t)"
proof (cases "bt_get (pt_entries t) pid")
  case None
  then show ?thesis by (simp add: mark_wait_event_def)
next
  case (Some r)
  show ?thesis
  proof (cases "status_of r = Exited \<or> status_of r = next_status")
    case True
    with Some show ?thesis by (auto simp: mark_wait_event_def)
  next
    case False
    let ?f = "\<lambda>r. (update_entry (\<lambda>e. e\<lparr>p_status := next_status\<rparr>) r)\<lparr>r_wait_events := r_wait_events r @ [event]\<rparr>"
    have upd: "signals_only t (update_record pid ?f t)"
      using Some False assms
      by (auto simp: signals_only_def option.rel_refl record_signalled_def same_identity_def record_ok_def
          status_of_def pending_ok_def)
    obtain ds t2 where n: "notify_parent (p_ppid (r_entry r)) (update_record pid ?f t) = (ds, t2)" by fastforce
    have "mark_wait_event pid next_status event t = driver_kills ds t2"
      using Some False n by (simp add: mark_wait_event_def)
    then show ?thesis
      using signals_only_trans [OF upd signals_only_trans [OF signals_only_notify [OF n] signals_only_kills]]
      by simp
  qed
qed

lemma signals_only_fold:
  "(\<And>x t. signals_only t (f x t)) \<Longrightarrow> signals_only t (fold f xs t)"
  by (induction xs arbitrary: t) (auto intro: signals_only_trans)

lemma signals_only_deliver: "signals_only t (deliver_signals ds t)"
proof -
  let ?t1 = "driver_kills ds t"
  let ?t2 = "fold (\<lambda>d. mark_stopped (d_pid d) (d_signal d)) (filter stops ds) ?t1"
  have a: "signals_only ?t1 ?t2"
    by (rule signals_only_fold) (simp add: mark_stopped_def signals_only_wait_event)
  have b: "signals_only ?t2 (deliver_signals ds t)"
    unfolding deliver_signals_def
    by (rule signals_only_fold) (simp add: mark_continued_def signals_only_wait_event)
  show ?thesis
    by (rule signals_only_trans [OF signals_only_trans [OF signals_only_kills a] b])
qed

text \<open>The definition of \<open>mark_wait_event\<close> is the mutually recursive one of the source.\<close>

lemma notify_parent_SIGCHLD: "notify_parent ppid t = (ds, t') \<Longrightarrow> d \<in> set ds \<Longrightarrow> d_signal d = SIGCHLD"
  by (auto simp: notify_parent_def queue_or_schedule_signal_def delivery_to_def
      split: option.splits sum.splits if_splits)

lemma deliver_SIGCHLD:
  assumes "\<And>d. d \<in> set ds \<Longrightarrow> d_signal d = SIGCHLD"
  shows "deliver_signals ds t = driver_kills ds t"
proof -
  have "filter stops ds = []" "filter continues ds = []"
    using assms by (auto simp: filter_empty_conv stops_def continues_def signal_consts)
  then show ?thesis by (simp add: deliver_signals_def)
qed

lemma mark_wait_event_unfold:
  "mark_wait_event pid next_status event t =
     (case bt_get (pt_entries t) pid of
        None \<Rightarrow> t
      | Some r \<Rightarrow>
          if status_of r = Exited \<or> status_of r = next_status then t
          else
            let t1 = update_record pid (\<lambda>r. (update_entry (\<lambda>e. e\<lparr>p_status := next_status\<rparr>) r)
                       \<lparr>r_wait_events := r_wait_events r @ [event]\<rparr>) t;
                (deliveries, t2) = notify_parent (p_ppid (r_entry r)) t1
            in deliver_signals deliveries t2)"
  using notify_parent_SIGCHLD
  by (auto simp: mark_wait_event_def Let_def deliver_SIGCHLD split: option.splits prod.splits)

subsection \<open>The invariant of the table\<close>

text \<open>
  \<open>table_ok\<close>: keys and process numbers agree and are below the counter, an exit code is present
  exactly for exited processes, pending signals are blocked ones that may be blocked, and a
  parent that is still in the table has not exited.
\<close>

definition table_ok :: "process_table \<Rightarrow> bool" where
  "table_ok t \<longleftrightarrow> 0 < pt_next_pid t \<and>
     (\<forall>pid r. bt_get (pt_entries t) pid = Some r \<longrightarrow>
        record_ok pid r \<and> 0 < pid \<and> pid < pt_next_pid t \<and> p_pgid (r_entry r) < pt_next_pid t \<and>
        (\<forall>q. bt_get (pt_entries t) (p_ppid (r_entry r)) = Some q \<longrightarrow> status_of q \<noteq> Exited))"

text \<open>
  \<open>groups_ok\<close>: live processes of one group are in one session, which is that of the process the group
  is named after if that one lives.
\<close>

definition alive :: "process_table \<Rightarrow> u32 \<Rightarrow> process_record \<Rightarrow> bool" where
  "alive t pid r \<longleftrightarrow> bt_get (pt_entries t) pid = Some r \<and> status_of r \<noteq> Exited"

definition groups_ok :: "process_table \<Rightarrow> bool" where
  "groups_ok t \<longleftrightarrow>
     (\<forall>p r q s. alive t p r \<and> alive t q s \<longrightarrow>
        (p_pgid (r_entry r) = p_pgid (r_entry s) \<longrightarrow> p_sid (r_entry r) = p_sid (r_entry s)) \<and>
        (p_pgid (r_entry r) = q \<longrightarrow> p_sid (r_entry r) = p_sid (r_entry s)))"

definition entry_ok :: "process_table \<Rightarrow> u32 \<Rightarrow> process_record \<Rightarrow> bool" where
  "entry_ok t pid r \<longleftrightarrow> record_ok pid r \<and> 0 < pid \<and> pid < pt_next_pid t \<and> p_pgid (r_entry r) < pt_next_pid t \<and>
     (\<forall>q. bt_get (pt_entries t) (p_ppid (r_entry r)) = Some q \<longrightarrow> status_of q \<noteq> Exited)"

lemma table_okI:
  "0 < pt_next_pid t \<Longrightarrow> (\<And>pid r. bt_get (pt_entries t) pid = Some r \<Longrightarrow> entry_ok t pid r) \<Longrightarrow> table_ok t"
  unfolding table_ok_def entry_ok_def by blast

lemma table_okD:
  assumes "table_ok t" "bt_get (pt_entries t) pid = Some r"
  shows "record_ok pid r" "0 < pid" "pid < pt_next_pid t" "p_pgid (r_entry r) < pt_next_pid t"
    "bt_get (pt_entries t) (p_ppid (r_entry r)) = Some q \<Longrightarrow> status_of q \<noteq> Exited"
  using assms unfolding table_ok_def by blast+

text \<open>
  Operations that register no process, move none between groups and let none exit leave a table
  with at most the old processes, each with its old identity.
\<close>

definition narrows :: "process_table \<Rightarrow> process_table \<Rightarrow> bool" where
  "narrows t t' \<longleftrightarrow> pt_next_pid t' = pt_next_pid t \<and>
     (\<forall>pid r'. bt_get (pt_entries t') pid = Some r' \<longrightarrow>
        (\<exists>r. bt_get (pt_entries t) pid = Some r \<and> record_signalled pid r r'))"

lemma narrows_get:
  assumes "narrows t t'" "bt_get (pt_entries t') pid = Some r'"
  obtains r where "bt_get (pt_entries t) pid = Some r" "same_identity r r'" "record_ok pid r \<longrightarrow> record_ok pid r'"
  using assms unfolding narrows_def record_signalled_def by blast

lemma narrows_next: "narrows t t' \<Longrightarrow> pt_next_pid t' = pt_next_pid t"
  by (simp add: narrows_def)

lemma signals_only_narrows: "signals_only t t' \<Longrightarrow> narrows t t'"
  unfolding signals_only_def narrows_def by (metis option_rel_Some2)

lemma narrows_refl [simp]: "narrows t t"
  by (simp add: signals_only_narrows)

lemma narrows_trans:
  assumes "narrows t t1" "narrows t1 t2"
  shows "narrows t t2"
  unfolding narrows_def
proof (intro conjI allI impI)
  show "pt_next_pid t2 = pt_next_pid t" using narrows_next [OF assms(1)] narrows_next [OF assms(2)] by simp
  fix pid r2 assume "bt_get (pt_entries t2) pid = Some r2"
  then obtain r1 where "bt_get (pt_entries t1) pid = Some r1" "record_signalled pid r1 r2"
    using assms(2) unfolding narrows_def by blast
  moreover then obtain r where "bt_get (pt_entries t) pid = Some r" "record_signalled pid r r1"
    using assms(1) unfolding narrows_def by blast
  ultimately show "\<exists>r. bt_get (pt_entries t) pid = Some r \<and> record_signalled pid r r2"
    by (blast intro: record_signalled_trans)
qed

lemma narrows_remove:
  "pt_entries t' = bt_remove pid (pt_entries t) \<Longrightarrow> pt_next_pid t' = pt_next_pid t \<Longrightarrow> narrows t t'"
  unfolding narrows_def by simp

lemma narrows_fields:
  "pt_entries t' = pt_entries t \<Longrightarrow> pt_next_pid t' = pt_next_pid t \<Longrightarrow> narrows t t'"
  unfolding narrows_def by simp

lemma table_ok_narrows:
  assumes "table_ok t" "narrows t t'"
  shows "table_ok t'"
  unfolding table_ok_def
proof (intro allI impI conjI)
  show "0 < pt_next_pid t'" using assms(1) narrows_next [OF assms(2)] by (simp add: table_ok_def)
  fix pid r' assume r': "bt_get (pt_entries t') pid = Some r'"
  obtain r where r: "bt_get (pt_entries t) pid = Some r" "same_identity r r'" "record_ok pid r \<longrightarrow> record_ok pid r'"
    by (rule narrows_get [OF assms(2) r'])
  note ok = table_okD [OF assms(1) r(1)]
  show "record_ok pid r'" using r(3) ok(1) by simp
  show "0 < pid" "pid < pt_next_pid t'" using ok(2,3) narrows_next [OF assms(2)] by simp_all
  show "p_pgid (r_entry r') < pt_next_pid t'" using ok(4) narrows_next [OF assms(2)] r(2) by (simp add: same_identity_def)
  fix q' assume q': "bt_get (pt_entries t') (p_ppid (r_entry r')) = Some q'"
  obtain q where "bt_get (pt_entries t) (p_ppid (r_entry r')) = Some q" "same_identity q q'"
    by (rule narrows_get [OF assms(2) q'])
  then show "status_of q' \<noteq> Exited" using ok(5) [of q] r(2) by (simp add: same_identity_def)
qed

lemma groups_okD:
  assumes "groups_ok t" "alive t p r" "alive t q s"
  shows "p_pgid (r_entry r) = p_pgid (r_entry s) \<Longrightarrow> p_sid (r_entry r) = p_sid (r_entry s)"
    "p_pgid (r_entry r) = q \<Longrightarrow> p_sid (r_entry r) = p_sid (r_entry s)"
  using assms unfolding groups_ok_def by blast+

text \<open>Live groups are only affected where a live process changes its group or session.\<close>

lemma groups_ok_mono:
  assumes "groups_ok t" "\<And>p r'. alive t' p r' \<Longrightarrow> \<exists>r. alive t p r \<and> p_pgid (r_entry r') = p_pgid (r_entry r)
    \<and> p_sid (r_entry r') = p_sid (r_entry r)"
  shows "groups_ok t'"
  unfolding groups_ok_def
proof (intro allI impI)
  fix p r' q s' assume a: "alive t' p r' \<and> alive t' q s'"
  obtain r where r: "alive t p r" "p_pgid (r_entry r') = p_pgid (r_entry r)" "p_sid (r_entry r') = p_sid (r_entry r)"
    using a assms(2) by blast
  obtain s where s: "alive t q s" "p_pgid (r_entry s') = p_pgid (r_entry s)" "p_sid (r_entry s') = p_sid (r_entry s)"
    using a assms(2) by blast
  show "(p_pgid (r_entry r') = p_pgid (r_entry s') \<longrightarrow> p_sid (r_entry r') = p_sid (r_entry s')) \<and>
      (p_pgid (r_entry r') = q \<longrightarrow> p_sid (r_entry r') = p_sid (r_entry s'))"
    using assms(1) r s unfolding groups_ok_def by metis
qed

lemma groups_ok_narrows:
  assumes "groups_ok t" "narrows t t'"
  shows "groups_ok t'"
proof (rule groups_ok_mono [OF assms(1)])
  fix p r' assume a: "alive t' p r'"
  then have "bt_get (pt_entries t') p = Some r'" by (simp add: alive_def)
  then obtain r where "bt_get (pt_entries t) p = Some r" "same_identity r r'" by (rule narrows_get [OF assms(2)])
  then show "\<exists>r. alive t p r \<and> p_pgid (r_entry r') = p_pgid (r_entry r) \<and> p_sid (r_entry r') = p_sid (r_entry r)"
    using a by (auto simp: same_identity_def alive_def)
qed

subsection \<open>Operations that narrow the table\<close>

lemma narrows_waitpid: "narrows t (snd (pt_waitpid pid t))"
  by (auto simp: pt_waitpid_def split: option.splits intro: narrows_remove)

lemma narrows_reap: "narrows t (reap_step now t)"
  by (auto simp: reap_step_def Let_def split: attempt.splits option.splits prod.splits
      intro: narrows_remove narrows_fields)

lemma narrows_take_waitable:
  "take_waitable_event children flags t = (result, t') \<Longrightarrow> narrows t t'"
proof (induction children flags t rule: take_waitable_event.induct)
  case (2 child_pid children flags t)
  show ?case
  proof (cases "bt_get (pt_entries t) child_pid")
    case None
    with 2 show ?thesis by simp
  next
    case (Some r)
    have "narrows t (update_record child_pid (\<lambda>r. r\<lparr>r_wait_events := rest\<rparr>) t)" for rest
      using Some by (auto simp: narrows_def record_signalled_def same_identity_def record_ok_def status_of_def
          pending_ok_def)
    then show ?thesis
      using 2 Some by (auto split: option.splits if_splits intro: narrows_remove)
  qed
qed simp

lemma narrows_waitpid_for: "narrows t (snd (pt_waitpid_for waiter_pid pid flags t))"
proof -
  have "narrows t t' \<Longrightarrow> narrows t (t'\<lparr>pt_reaper := r\<rparr>)" for t' r
    by (rule narrows_trans) (auto intro: narrows_fields)
  then show ?thesis
    by (auto simp: pt_waitpid_for_def Let_def split: sum.splits option.splits prod.splits
        dest: narrows_take_waitable)
qed

lemma narrows_kill: "narrows t (snd (pt_kill pid signal t))"
proof -
  have "narrows t (deliver_signals ds t')" if "collect_signal_deliveries pids signal t = (r, t')" for pids r ds t'
    by (rule signals_only_narrows, rule signals_only_trans [OF signals_only_collect [OF that] signals_only_deliver])
  moreover have "narrows t t'" if "collect_signal_deliveries pids signal t = (r, t')" for pids r t'
    by (rule signals_only_narrows, rule signals_only_collect [OF that])
  ultimately show ?thesis
    by (auto simp del: collect_signal_deliveries.simps
        simp: pt_kill_def Let_def split: option.splits sum.splits prod.splits)
qed

lemma narrows_set_umask: "narrows t (snd (pt_set_umask pid umask t))"
  by (auto simp: pt_set_umask_def narrows_def record_signalled_def same_identity_def record_ok_def
      status_of_def pending_ok_def split: option.splits if_splits)

subsection \<open>Changing the mask\<close>

lemma delivery_to_pending [simp]:
  "delivery_to (r\<lparr>r_pending := p\<rparr>) = delivery_to r" "delivery_to (r\<lparr>r_blocked := b\<rparr>) = delivery_to r"
  by (simp_all add: delivery_to_def status_of_def fun_eq_iff)

lemma collect_pending_spec:
  "(\<forall>i \<in> set sigs. 1 \<le> i \<and> i \<le> 64) \<Longrightarrow>
     \<exists>p. collect_pending_signal_deliveries sigs r = (Inr (map (delivery_to r) sigs), r\<lparr>r_pending := p\<rparr>) \<and>
       (\<forall>j. sigset_contains p j \<longleftrightarrow> sigset_contains (r_pending r) j \<and> j \<notin> set sigs)"
proof (induction sigs arbitrary: r)
  case Nil
  show ?case by (rule exI [of _ "r_pending r"]) simp
next
  case (Cons i sigs)
  then obtain q where q: "sigset_remove i (r_pending r) = Inr q"
    using sigset_valid(2) [of i "r_pending r"] by auto
  obtain p where p: "collect_pending_signal_deliveries sigs (r\<lparr>r_pending := q\<rparr>) =
      (Inr (map (delivery_to r) sigs), r\<lparr>r_pending := p\<rparr>)"
    "\<forall>j. sigset_contains p j \<longleftrightarrow> sigset_contains q j \<and> j \<notin> set sigs"
    using Cons.IH [of "r\<lparr>r_pending := q\<rparr>"] Cons.prems by auto
  have "collect_pending_signal_deliveries (i # sigs) r = (Inr (map (delivery_to r) (i # sigs)), r\<lparr>r_pending := p\<rparr>)"
    using q p(1) by simp
  moreover have "\<forall>j. sigset_contains p j \<longleftrightarrow> sigset_contains (r_pending r) j \<and> j \<notin> set (i # sigs)"
    using p(2) sigset_remove_contains [OF q] by auto
  ultimately show ?case by blast
qed

lemma sigset_contains_and [simp]:
  "sigset_contains (a AND b) i \<longleftrightarrow> sigset_contains a i \<and> sigset_contains b i"
  by (auto simp: sigset_contains_bit bit_simps)

definition masked_record :: "signal_set \<Rightarrow> process_record \<Rightarrow> process_record" where
  "masked_record b r = r\<lparr>r_blocked := b, r_pending := r_pending r AND b\<rparr>"

lemma sigprocmask_eq:
  assumes "bt_get (pt_entries t) pid = Some r" "b = new_mask how (r_blocked r) sigs"
  shows "pt_sigprocmask pid how sigs t =
    (Inr (r_blocked r), deliver_signals (map (delivery_to r) (sigset_signals (sigset_difference (r_pending r) b)))
       (update_record pid (\<lambda>_. masked_record b r) t))"
proof -
  let ?sigs = "sigset_signals (sigset_difference (r_pending r) b)"
  have "\<forall>i \<in> set ?sigs. 1 \<le> i \<and> i \<le> 64" by (simp add: sigset_contains_bit)
  from collect_pending_spec [OF this, of "r\<lparr>r_blocked := b\<rparr>"] obtain p where
    p: "collect_pending_signal_deliveries ?sigs (r\<lparr>r_blocked := b\<rparr>) =
      (Inr (map (delivery_to r) ?sigs), r\<lparr>r_blocked := b, r_pending := p\<rparr>)"
    "\<forall>j. sigset_contains p j \<longleftrightarrow> sigset_contains (r_pending r) j \<and> j \<notin> set ?sigs" by auto
  have "p = r_pending r AND b" by (rule sigset_eqI) (use p(2) in auto)
  with p(1) assms show ?thesis by (simp add: pt_sigprocmask_def masked_record_def Let_def)
qed

lemma masked_record_signalled: "record_signalled pid r (masked_record b r)"
  by (auto simp: masked_record_def record_signalled_def same_identity_def record_ok_def status_of_def pending_ok_def)

lemma narrows_sigprocmask: "narrows t (snd (pt_sigprocmask pid how sigs t))"
proof (cases "bt_get (pt_entries t) pid")
  case None
  then show ?thesis by (simp add: pt_sigprocmask_def)
next
  case (Some r)
  show ?thesis
    unfolding sigprocmask_eq [OF Some refl] snd_conv
    by (rule signals_only_narrows, rule signals_only_trans [OF signals_only_update signals_only_deliver])
      (use Some masked_record_signalled in auto)
qed

subsection \<open>Registering\<close>

lemma registered:
  assumes "pt_register pid driver command args ctx d t = (e, t')"
  shows "pt_entries t' = bt_insert pid \<lparr>r_entry = e, r_driver_process = d, r_wait_events = [],
             r_blocked = ctx_blocked ctx, r_pending = ctx_pending ctx\<rparr> (pt_entries t)"
    "pt_next_pid t' = pt_next_pid t" "p_pid e = pid" "p_ppid e = ctx_ppid ctx" "p_status e = Running" "p_exit_code e = None"
    "bt_get (pt_entries t) (ctx_ppid ctx) = None \<Longrightarrow> p_pgid e = pid \<and> p_sid e = pid"
    "bt_get (pt_entries t) (ctx_ppid ctx) = Some q \<Longrightarrow> p_pgid e = p_pgid (r_entry q) \<and> p_sid e = p_sid (r_entry q)"
  using assms by (auto simp: pt_register_def Let_def split: option.splits)

text \<open>A process is spawned under the next number, by a process that lives or by none.\<close>

definition spawnable :: "process_context \<Rightarrow> process_table \<Rightarrow> bool" where
  "spawnable ctx t \<longleftrightarrow> pt_next_pid t + 1 \<noteq> 0 \<and>
     (case bt_get (pt_entries t) (ctx_ppid ctx) of None \<Rightarrow> True | Some q \<Rightarrow> status_of q \<noteq> Exited) \<and>
     (\<forall>i. sigset_contains (ctx_pending ctx) i \<longrightarrow> sigset_contains (ctx_blocked ctx) i \<and> signal_can_be_blocked i)"

definition pt_spawn ::
    "string \<Rightarrow> string \<Rightarrow> string list \<Rightarrow> process_context \<Rightarrow> driver_handle \<Rightarrow> process_table \<Rightarrow> process_table" where
  "pt_spawn driver command args ctx d t =
     (let (pid, t1) = pt_allocate_pid t in snd (pt_register pid driver command args ctx d t1))"

lemma word_less_inc: "(w :: u32) + 1 \<noteq> 0 \<Longrightarrow> w < w + 1"
  using unatSuc [of w] by (simp add: word_less_nat_alt add.commute)

lemma spawned:
  obtains e where "pt_entries (pt_spawn driver command args ctx d t) = bt_insert (pt_next_pid t)
      \<lparr>r_entry = e, r_driver_process = d, r_wait_events = [],
       r_blocked = ctx_blocked ctx, r_pending = ctx_pending ctx\<rparr> (pt_entries t)"
    "pt_next_pid (pt_spawn driver command args ctx d t) = pt_next_pid t + 1"
    "p_pid e = pt_next_pid t" "p_ppid e = ctx_ppid ctx" "p_status e = Running" "p_exit_code e = None"
    "bt_get (pt_entries t) (ctx_ppid ctx) = None \<longrightarrow> p_pgid e = pt_next_pid t \<and> p_sid e = pt_next_pid t"
    "\<forall>q. bt_get (pt_entries t) (ctx_ppid ctx) = Some q \<longrightarrow> p_pgid e = p_pgid (r_entry q) \<and> p_sid e = p_sid (r_entry q)"
proof -
  obtain e t' where r: "pt_register (pt_next_pid t) driver command args ctx d (t\<lparr>pt_next_pid := pt_next_pid t + 1\<rparr>) = (e, t')"
    by fastforce
  then have "pt_spawn driver command args ctx d t = t'"
    by (simp add: pt_spawn_def pt_allocate_pid_def)
  with that [of e] registered [OF r] show ?thesis by simp
qed

lemma table_ok_spawn:
  assumes ok: "table_ok t" and can: "spawnable ctx t"
  shows "table_ok (pt_spawn driver command args ctx d t)"
proof -
  let ?n = "pt_next_pid t"
  obtain e where e: "pt_entries (pt_spawn driver command args ctx d t) = bt_insert ?n
      \<lparr>r_entry = e, r_driver_process = d, r_wait_events = [],
       r_blocked = ctx_blocked ctx, r_pending = ctx_pending ctx\<rparr> (pt_entries t)"
    "pt_next_pid (pt_spawn driver command args ctx d t) = ?n + 1"
    "p_pid e = ?n" "p_ppid e = ctx_ppid ctx" "p_status e = Running" "p_exit_code e = None"
    "bt_get (pt_entries t) (ctx_ppid ctx) = None \<longrightarrow> p_pgid e = ?n \<and> p_sid e = ?n"
    "\<forall>q. bt_get (pt_entries t) (ctx_ppid ctx) = Some q \<longrightarrow> p_pgid e = p_pgid (r_entry q) \<and> p_sid e = p_sid (r_entry q)"
    by (rule spawned)
  have inc: "?n < ?n + 1" using can by (simp add: spawnable_def word_less_inc)
  show ?thesis
  proof (rule table_okI)
    show "0 < pt_next_pid (pt_spawn driver command args ctx d t)"
      using e(2) can by (simp add: spawnable_def word_gt_0)
    fix pid r assume r: "bt_get (pt_entries (pt_spawn driver command args ctx d t)) pid = Some r"
    show "entry_ok (pt_spawn driver command args ctx d t) pid r"
    proof (cases "pid = ?n")
      case True
      have "p_pgid e < ?n + 1"
        using e(7,8) table_okD(4) [OF ok] inc by (cases "bt_get (pt_entries t) (ctx_ppid ctx)") (auto intro: less_trans)
      moreover have "0 < ?n" using ok by (simp add: table_ok_def)
      ultimately show ?thesis
        using True r e can inc
        by (auto simp: entry_ok_def record_ok_def pending_ok_def status_of_def spawnable_def split: option.splits)
    next
      case False
      then have "bt_get (pt_entries t) pid = Some r" using r e(1) by simp
      from table_okD [OF ok this] show ?thesis
        using e inc by (auto simp: entry_ok_def status_of_def intro: less_trans)
    qed
  qed
qed

lemma groups_ok_spawn:
  assumes ok: "table_ok t" and groups: "groups_ok t" and can: "spawnable ctx t"
  shows "groups_ok (pt_spawn driver command args ctx d t)"
proof -
  let ?n = "pt_next_pid t" and ?t = "pt_spawn driver command args ctx d t"
  obtain e where e: "pt_entries ?t = bt_insert ?n
      \<lparr>r_entry = e, r_driver_process = d, r_wait_events = [],
       r_blocked = ctx_blocked ctx, r_pending = ctx_pending ctx\<rparr> (pt_entries t)"
    "p_pid e = ?n" "p_ppid e = ctx_ppid ctx"
    "bt_get (pt_entries t) (ctx_ppid ctx) = None \<longrightarrow> p_pgid e = ?n \<and> p_sid e = ?n"
    "\<forall>q. bt_get (pt_entries t) (ctx_ppid ctx) = Some q \<longrightarrow> p_pgid e = p_pgid (r_entry q) \<and> p_sid e = p_sid (r_entry q)"
    by (rule spawned)
  have old: "p < ?n" "p_pgid (r_entry r) < ?n" if "alive t p r" for p r
    using that table_okD(3,4) [OF ok] by (auto simp: alive_def)
  have new: "(p = ?n \<and> r_entry r = e) \<or> (p \<noteq> ?n \<and> alive t p r)" if "alive ?t p r" for p r
    using that e(1) by (auto simp: alive_def split: if_splits)
  have parent: "(\<exists>p r. alive t p r \<and> p_pgid (r_entry r) = p_pgid e \<and> p_sid (r_entry r) = p_sid e) \<or> p_pgid e = ?n"
    using e(4,5) can by (auto simp: spawnable_def alive_def split: option.splits)
  show ?thesis
    unfolding groups_ok_def
  proof (intro allI impI)
    fix p r q s assume a: "alive ?t p r \<and> alive ?t q s"
    show "(p_pgid (r_entry r) = p_pgid (r_entry s) \<longrightarrow> p_sid (r_entry r) = p_sid (r_entry s)) \<and>
        (p_pgid (r_entry r) = q \<longrightarrow> p_sid (r_entry r) = p_sid (r_entry s))"
      using new [of p r] new [of q s] a parent old groups unfolding groups_ok_def
      by (metis less_irrefl)
  qed
qed

subsection \<open>Exit\<close>

definition exited_record :: "nat \<Rightarrow> int \<Rightarrow> process_record \<Rightarrow> process_record" where
  "exited_record now exit_code = update_entry (\<lambda>e. e\<lparr>p_status := Exited, p_exit_code := Some exit_code,
     p_exit_time_ms := Some now\<rparr>)"

definition adopted_by :: "u32 \<Rightarrow> u32 \<Rightarrow> process_record \<Rightarrow> process_record" where
  "adopted_by new_parent exiting r =
     (if p_ppid (r_entry r) = exiting then update_entry (\<lambda>e. e\<lparr>p_ppid := new_parent\<rparr>) r else r)"

lemma adopted_by_fields [simp]:
  "p_pid (r_entry (adopted_by n x r)) = p_pid (r_entry r)"
  "p_pgid (r_entry (adopted_by n x r)) = p_pgid (r_entry r)"
  "p_sid (r_entry (adopted_by n x r)) = p_sid (r_entry r)"
  "p_exit_code (r_entry (adopted_by n x r)) = p_exit_code (r_entry r)"
  "p_ppid (r_entry (adopted_by n x r)) = (if p_ppid (r_entry r) = x then n else p_ppid (r_entry r))"
  "status_of (adopted_by n x r) = status_of r"
  "pending_ok (adopted_by n x r) = pending_ok r"
  by (simp_all add: adopted_by_def status_of_def pending_ok_def)

lemma exited_record_fields [simp]:
  "p_pid (r_entry (exited_record now c r)) = p_pid (r_entry r)"
  "p_pgid (r_entry (exited_record now c r)) = p_pgid (r_entry r)"
  "p_sid (r_entry (exited_record now c r)) = p_sid (r_entry r)"
  "p_ppid (r_entry (exited_record now c r)) = p_ppid (r_entry r)"
  "p_exit_code (r_entry (exited_record now c r)) = Some c"
  "status_of (exited_record now c r) = Exited"
  "pending_ok (exited_record now c r) = pending_ok r"
  by (simp_all add: exited_record_def status_of_def pending_ok_def)

text \<open>The table after an exit is recorded and the children have been adopted, before any signal.\<close>

definition exit_table :: "nat \<Rightarrow> u32 \<Rightarrow> int \<Rightarrow> process_table \<Rightarrow> process_table" where
  "exit_table now pid exit_code t =
     (let t1 = update_record pid (exited_record now exit_code) t
      in t1\<lparr>pt_entries := bt_mapv (\<lambda>_. adopted_by (reparent_target_pid t1 pid) pid) (pt_entries t1)\<rparr>)"

lemma exit_table_reparent:
  "snd (reparent_children_to_init pid groups (update_record pid (exited_record now exit_code) t)) =
     exit_table now pid exit_code t"
  by (simp add: reparent_children_to_init_def exit_table_def adopted_by_def [abs_def] Let_def)

lemma exit_table_next [simp]: "pt_next_pid (exit_table now pid exit_code t) = pt_next_pid t"
  by (simp add: exit_table_def Let_def)

lemma exit_table_get:
  assumes "bt_get (pt_entries (exit_table now pid exit_code t)) q = Some r'"
  obtains r where "bt_get (pt_entries t) q = Some r"
    "r' = adopted_by (reparent_target_pid (update_record pid (exited_record now exit_code) t) pid) pid
       (if q = pid then exited_record now exit_code r else r)"
  using assms by (auto simp: exit_table_def Let_def split: if_splits)

lemma reparent_target_alive:
  assumes "bt_get (pt_entries t) (reparent_target_pid t pid) = Some q" "bt_get (pt_entries t) 0 = None"
  shows "reparent_target_pid t pid \<noteq> pid" "status_of q \<noteq> Exited"
  using assms by (auto simp: reparent_target_pid_def split: if_splits option.splits)

lemma hangup_signals_only: "hangup_orphans pids t = (ds, t') \<Longrightarrow> signals_only t t'"
proof (induction pids arbitrary: t ds t')
  case (Cons pid pids)
  obtain d1 t1 where 1: "send_valid_signal pid SIGHUP t = (d1, t1)" by fastforce
  obtain d2 t2 where 2: "send_valid_signal pid SIGCONT t1 = (d2, t2)" by fastforce
  obtain d3 t3 where 3: "hangup_orphans pids t2 = (d3, t3)" by fastforce
  have "t' = t3" using Cons.prems 1 2 3 by simp
  then show ?case
    using signals_only_trans [OF signals_only_trans [OF signals_only_send [OF 1] signals_only_send [OF 2]] Cons.IH [OF 3]]
    by simp
qed simp

text \<open>The stages of an exit: record it, tell the parent, wake the orphaned groups, schedule the reaper, deliver.\<close>

lemma mark_exited_stages:
  assumes "bt_get (pt_entries t) pid = Some r" "status_of r \<noteq> Exited"
  obtains groups d1 t3 d2 t4 reaper calls where
    "reparent_children_to_init pid (bs_insert (p_pgid (r_entry r)) bs_empty)
       (update_record pid (exited_record now exit_code) t) = (groups, exit_table now pid exit_code t)"
    "(d1, t3) = (if pt_terminating_all (exit_table now pid exit_code t) then ([], exit_table now pid exit_code t)
       else notify_parent (p_ppid (r_entry r)) (exit_table now pid exit_code t))"
    "hangup_orphans (collect_orphaned_group_signal_targets (exit_table now pid exit_code t) groups) t3 = (d2, t4)"
    "pt_mark_exited now pid exit_code t = (deliver_signals (d1 @ d2) (t4\<lparr>pt_reaper := reaper\<rparr>))\<lparr>pt_exit_calls := calls\<rparr>"
proof -
  let ?t2 = "exit_table now pid exit_code t"
  obtain groups where 2: "reparent_children_to_init pid (bs_insert (p_pgid (r_entry r)) bs_empty)
       (update_record pid (exited_record now exit_code) t) = (groups, ?t2)"
    using exit_table_reparent by (metis prod.collapse)
  obtain d1 t3 where 3: "(if pt_terminating_all ?t2 then ([], ?t2) else notify_parent (p_ppid (r_entry r)) ?t2) = (d1, t3)"
    by fastforce
  obtain d2 t4 where 4: "hangup_orphans (collect_orphaned_group_signal_targets ?t2 groups) t3 = (d2, t4)" by fastforce
  let ?t5 = "t4\<lparr>pt_reaper := (if \<not> pt_terminating_all ?t2 then reaper_schedule now pid (pt_zombie_ttl t4) (pt_reaper t4)
                              else reaper_cancel pid (pt_reaper t4))\<rparr>"
  have "pt_mark_exited now pid exit_code t = (deliver_signals (d1 @ d2) ?t5)\<lparr>pt_exit_calls :=
      (if pt_has_exit_callback t4 then pt_exit_calls (deliver_signals (d1 @ d2) ?t5) @ [pid]
       else pt_exit_calls (deliver_signals (d1 @ d2) ?t5))\<rparr>"
    using assms 2 3 4
    by (simp add: pt_mark_exited_def exited_record_def [symmetric] Let_def split: if_splits)
  with that [OF 2 3 [symmetric] 4] show ?thesis by blast
qed

lemma mark_exited_signals:
  assumes "bt_get (pt_entries t) pid = Some r" "status_of r \<noteq> Exited"
  shows "signals_only (exit_table now pid exit_code t) (pt_mark_exited now pid exit_code t)"
proof (rule mark_exited_stages [OF assms, of now exit_code])
  fix groups d1 d2 reaper calls and t3 t4 :: process_table
  let ?t2 = "exit_table now pid exit_code t" and ?t5 = "t4\<lparr>pt_reaper := reaper\<rparr>"
  assume 3: "(d1, t3) = (if pt_terminating_all ?t2 then ([], ?t2) else notify_parent (p_ppid (r_entry r)) ?t2)"
    and 4: "hangup_orphans (collect_orphaned_group_signal_targets ?t2 groups) t3 = (d2, t4)"
    and eq: "pt_mark_exited now pid exit_code t = (deliver_signals (d1 @ d2) ?t5)\<lparr>pt_exit_calls := calls\<rparr>"
  have "signals_only ?t2 t3"
    using 3 signals_only_notify [of "p_ppid (r_entry r)" ?t2 d1 t3] by (cases "pt_terminating_all ?t2") simp_all
  moreover have "signals_only t4 ?t5" by (rule signals_only_fields) simp_all
  moreover have "signals_only (deliver_signals (d1 @ d2) ?t5) (pt_mark_exited now pid exit_code t)"
    unfolding eq by (rule signals_only_fields) simp_all
  ultimately show ?thesis
    using hangup_signals_only [OF 4] signals_only_deliver [of ?t5 "d1 @ d2"]
    by (blast intro: signals_only_trans)
qed

lemma mark_exited_idle:
  "\<not> (\<exists>r. alive t pid r) \<Longrightarrow> pt_mark_exited now pid exit_code t = t"
  by (auto simp: pt_mark_exited_def alive_def split: option.splits)

lemma table_ok_exit_table:
  assumes ok: "table_ok t"
  shows "table_ok (exit_table now pid exit_code t)"
proof (rule table_okI)
  let ?t1 = "update_record pid (exited_record now exit_code) t"
  let ?n = "reparent_target_pid ?t1 pid"
  show "0 < pt_next_pid (exit_table now pid exit_code t)" using ok by (simp add: table_ok_def)
  fix q r' assume "bt_get (pt_entries (exit_table now pid exit_code t)) q = Some r'"
  then obtain r where r: "bt_get (pt_entries t) q = Some r"
    "r' = adopted_by ?n pid (if q = pid then exited_record now exit_code r else r)"
    by (rule exit_table_get)
  have zero: "bt_get (pt_entries t) 0 = None"
    using table_okD(2) [OF ok, of 0] by (cases "bt_get (pt_entries t) 0") auto
  have parent: "status_of s' \<noteq> Exited"
    if "bt_get (pt_entries (exit_table now pid exit_code t)) (p_ppid (r_entry r')) = Some s'" for s'
  proof -
    from that obtain s where s: "bt_get (pt_entries t) (p_ppid (r_entry r')) = Some s"
      "s' = adopted_by ?n pid (if p_ppid (r_entry r') = pid then exited_record now exit_code s else s)"
      by (rule exit_table_get)
    show ?thesis
    proof (cases "p_ppid (r_entry r) = pid")
      case True
      then have "p_ppid (r_entry r') = ?n" using r(2) by simp
      then have n: "bt_get (pt_entries t) ?n = Some s"
        "s' = adopted_by ?n pid (if ?n = pid then exited_record now exit_code s else s)"
        using s by simp_all
      have zero1: "bt_get (pt_entries ?t1) 0 = None" using zero by simp
      have n1: "bt_get (pt_entries ?t1) ?n = Some (if ?n = pid then exited_record now exit_code s else s)"
        using n(1) by auto
      show ?thesis
        using reparent_target_alive [OF n1 zero1] n(2) by simp
    next
      case False
      then have "p_ppid (r_entry r') = p_ppid (r_entry r)" using r(2) by simp
      with s False show ?thesis using table_okD(5) [OF ok r(1)] by simp
    qed
  qed
  have "record_ok q r'"
    using table_okD(1) [OF ok r(1)] r(2) by (auto simp: record_ok_def)
  moreover have "p_pgid (r_entry r') < pt_next_pid t"
    using r(2) table_okD(4) [OF ok r(1)] by simp
  ultimately show "entry_ok (exit_table now pid exit_code t) q r'"
    using table_okD(2,3) [OF ok r(1)] parent unfolding entry_ok_def exit_table_next by blast
qed

lemma groups_ok_exit_table: "groups_ok t \<Longrightarrow> groups_ok (exit_table now pid exit_code t)"
  by (erule groups_ok_mono) (auto simp: alive_def elim!: exit_table_get split: if_splits)

lemma table_ok_mark_exited: "table_ok t \<Longrightarrow> table_ok (pt_mark_exited now pid exit_code t)"
  using table_ok_narrows [OF table_ok_exit_table signals_only_narrows [OF mark_exited_signals]] mark_exited_idle
  unfolding alive_def by metis

lemma groups_ok_mark_exited: "groups_ok t \<Longrightarrow> groups_ok (pt_mark_exited now pid exit_code t)"
  using groups_ok_narrows [OF groups_ok_exit_table signals_only_narrows [OF mark_exited_signals]] mark_exited_idle
  unfolding alive_def by metis

lemma fold_preserves: "(\<And>x s. P s \<Longrightarrow> P (f x s)) \<Longrightarrow> P s \<Longrightarrow> P (fold f xs s)"
  by (induction xs arbitrary: s) auto

lemma wait_drivers_preserves:
  "(\<And>pid c t. P t \<Longrightarrow> P (pt_mark_exited now pid c t)) \<Longrightarrow> P t \<Longrightarrow> P (wait_drivers now wait ds t)"
  unfolding wait_drivers_def by (rule fold_preserves) (auto split: option.splits)

lemma terminate_all_preserves:
  assumes exits: "\<And>pid c t. P t \<Longrightarrow> P (pt_mark_exited now pid c t)"
    and narrow: "\<And>t t'. P t \<Longrightarrow> narrows t t' \<Longrightarrow> P t'" and P: "P t"
  shows "P (pt_terminate_all now wait1 wait2 t)"
proof -
  have kills: "P (kill_drivers signal ds t)" if "P t" for signal ds t
    by (rule narrow [OF that]) (simp add: kill_drivers_def narrows_fields)
  have waits: "P (wait_drivers now wait ds t)" if "P t" for wait ds t
    by (rule wait_drivers_preserves [of P, OF _ that]) (rule exits)
  have "P (t\<lparr>pt_terminating_all := True, pt_reaper := reaper_clear (pt_reaper t)\<rparr>)"
    by (rule narrow [OF P]) (simp add: narrows_fields)
  then have "P (wait_drivers now wait1 (running_drivers t) (kill_drivers SIGTERM (running_drivers t)
      (t\<lparr>pt_terminating_all := True, pt_reaper := reaper_clear (pt_reaper t)\<rparr>)))" (is "P ?t2")
    by (rule waits [OF kills])
  then have "P (wait_drivers now wait2 (filter (still_running ?t2) (running_drivers t))
      (kill_drivers SIGKILL (filter (still_running ?t2) (running_drivers t)) ?t2))" (is "P ?t3")
    by (rule waits [OF kills])
  then have "P (?t3\<lparr>pt_terminating_all := False\<rparr>)"
    by (rule narrow) (simp add: narrows_fields)
  then show ?thesis by (simp add: pt_terminate_all_def Let_def)
qed

subsection \<open>Groups and sessions\<close>

lemma first_group_member_alive:
  assumes "first_group_member t pgid = Some m"
  shows "\<exists>p. alive t p m" "p_pgid (r_entry m) = pgid"
  using assms by (auto simp: first_group_member_def find_Some_iff alive_def pt_records_def in_bt_values_iff [symmetric])

lemma setpgid_cases:
  assumes "pt_setpgid pid pgid t = (x, t')"
  obtains "t' = t"
  | r g where "bt_get (pt_entries t) pid = Some r" "t' = update_record pid (update_entry (\<lambda>e. e\<lparr>p_pgid := g\<rparr>)) t"
      "g = pid \<or> (\<exists>p m. alive t p m \<and> p_pgid (r_entry m) = g \<and> p_sid (r_entry m) = p_sid (r_entry r))"
proof (cases "bt_get (pt_entries t) pid")
  case None
  then show ?thesis using assms that(1) by (simp add: pt_setpgid_def)
next
  case (Some r)
  define g where "g = (if pgid = 0 then pid else pgid)"
  let ?join = "update_record pid (update_entry (\<lambda>e. e\<lparr>p_pgid := g\<rparr>)) t"
  have t': "t' = (if g = pid then ?join else case first_group_member t g of None \<Rightarrow> t
      | Some m \<Rightarrow> if p_sid (r_entry m) = p_sid (r_entry r) then ?join else t)"
    using assms Some by (auto simp: pt_setpgid_def Let_def simp flip: g_def split: option.splits if_splits)
  show ?thesis
  proof (cases "g = pid")
    case True
    then show ?thesis using that(2) [OF Some] t' by simp
  next
    case False
    show ?thesis
    proof (cases "first_group_member t g")
      case None
      then show ?thesis using False t' that(1) by simp
    next
      case m: (Some m)
      from first_group_member_alive [OF m] obtain p where "alive t p m" "p_pgid (r_entry m) = g" by blast
      then show ?thesis using False m t' that(1) that(2) [OF Some, of g] by (auto split: if_splits)
    qed
  qed
qed

lemma table_ok_update_group:
  assumes ok: "table_ok t" and r: "bt_get (pt_entries t) pid = Some r" and g: "g < pt_next_pid t"
    and same: "\<And>e. p_pid (f e) = p_pid e" "\<And>e. p_ppid (f e) = p_ppid e" "\<And>e. p_pgid (f e) = g"
      "\<And>e. p_status (f e) = p_status e" "\<And>e. p_exit_code (f e) = p_exit_code e"
  shows "table_ok (update_record pid (update_entry f) t)"
proof (rule table_okI)
  show "0 < pt_next_pid (update_record pid (update_entry f) t)" using ok by (simp add: table_ok_def)
  fix q s' assume "bt_get (pt_entries (update_record pid (update_entry f) t)) q = Some s'"
  then obtain s where s: "bt_get (pt_entries t) q = Some s" "s' = (if q = pid then update_entry f s else s)"
    using r by (auto split: if_splits)
  have "status_of u' \<noteq> Exited"
    if "bt_get (pt_entries (update_record pid (update_entry f) t)) (p_ppid (r_entry s')) = Some u'" for u'
    using that table_okD(5) [OF ok s(1)] s(2) same by (auto simp: status_of_def split: if_splits)
  moreover have "record_ok q s'"
    using table_okD(1) [OF ok s(1)] s(2) same by (auto simp: record_ok_def status_of_def pending_ok_def)
  moreover have "p_pgid (r_entry s') < pt_next_pid t"
    using table_okD(4) [OF ok s(1)] s(2) g same by simp
  ultimately show "entry_ok (update_record pid (update_entry f) t) q s'"
    using table_okD(2,3) [OF ok s(1)] unfolding entry_ok_def by simp
qed

lemma table_ok_setpgid:
  assumes ok: "table_ok t"
  shows "table_ok (snd (pt_setpgid pid pgid t))"
proof -
  obtain x t' where t': "pt_setpgid pid pgid t = (x, t')" by fastforce
  from t' show ?thesis
  proof (cases rule: setpgid_cases)
    case (2 r g)
    have "g < pt_next_pid t"
      using 2(3) table_okD(3) [OF ok 2(1)] table_okD(4) [OF ok] by (auto simp: alive_def)
    then have "table_ok (update_record pid (update_entry (\<lambda>e. e\<lparr>p_pgid := g\<rparr>)) t)"
      by (rule table_ok_update_group [OF ok 2(1)]) simp_all
    with 2(2) t' show ?thesis by simp
  qed (use ok t' in simp)
qed

lemma groups_ok_setpgid:
  assumes ok: "groups_ok t"
  shows "groups_ok (snd (pt_setpgid pid pgid t))"
proof -
  obtain x t' where t': "pt_setpgid pid pgid t = (x, t')" by fastforce
  from t' show ?thesis
  proof (cases rule: setpgid_cases)
    case (2 r g)
    have new: "(p = pid \<and> p_pgid (r_entry u') = g \<and> p_sid (r_entry u') = p_sid (r_entry r) \<and> alive t pid r) \<or>
        (p \<noteq> pid \<and> alive t p u')" if "alive t' p u'" for p u'
      using that 2(1,2) by (auto simp: alive_def status_of_def split: if_splits)
    have key: "p_sid (r_entry a) = p_sid (r_entry r)"
      if "alive t p a" "alive t pid r" "p_pgid (r_entry a) = g \<or> p_pgid (r_entry a) = pid \<or> (p = g \<and> p \<noteq> pid)" for p a
      using that(3) 2(3) groups_okD(2) [OF ok that(1,2)] groups_okD [OF ok _ that(1)]
      by metis
    show ?thesis
      unfolding t' snd_conv groups_ok_def
    proof (intro allI impI)
      fix p a q b assume "alive t' p a \<and> alive t' q b"
      with new [of p a] new [of q b] key [of p a] key [of q b] groups_okD [OF ok, of p a q b]
      show "(p_pgid (r_entry a) = p_pgid (r_entry b) \<longrightarrow> p_sid (r_entry a) = p_sid (r_entry b)) \<and>
          (p_pgid (r_entry a) = q \<longrightarrow> p_sid (r_entry a) = p_sid (r_entry b))"
        by metis
    qed
  qed (use ok t' in simp)
qed

text \<open>
  \<^verbatim>\<open>setsid\<close> refuses a process in the group named after it. It does not look for other members of such a
  group, which a process that was moved out of the group it leads leaves behind.
\<close>

definition leads_no_other :: "u32 \<Rightarrow> process_table \<Rightarrow> bool" where
  "leads_no_other pid t \<longleftrightarrow>
     list_all (\<lambda>r. status_of r = Exited \<or> p_pgid (r_entry r) \<noteq> pid \<or> p_pid (r_entry r) = pid) (pt_records t)"

lemma table_ok_setsid:
  assumes ok: "table_ok t"
  shows "table_ok (snd (pt_setsid pid t))"
proof (cases "bt_get (pt_entries t) pid")
  case None
  with ok show ?thesis by (simp add: pt_setsid_def)
next
  case (Some r)
  have "table_ok (update_record pid (update_entry (\<lambda>e. e\<lparr>p_sid := pid, p_pgid := pid\<rparr>)) t)"
    by (rule table_ok_update_group [OF ok Some table_okD(3) [OF ok Some]]) simp_all
  with Some ok show ?thesis by (simp add: pt_setsid_def)
qed

lemma groups_ok_setsid:
  assumes ok: "table_ok t" and groups: "groups_ok t" and no_other: "leads_no_other pid t"
  shows "groups_ok (snd (pt_setsid pid t))"
proof (cases "\<exists>r. bt_get (pt_entries t) pid = Some r \<and> p_pgid (r_entry r) \<noteq> pid")
  case True
  let ?t = "update_record pid (update_entry (\<lambda>e. e\<lparr>p_sid := pid, p_pgid := pid\<rparr>)) t"
  have t': "snd (pt_setsid pid t) = ?t" using True by (auto simp: pt_setsid_def)
  have others: "p_pgid (r_entry a) \<noteq> pid" if "alive t p a" "p \<noteq> pid" for p a
  proof -
    have "bt_get (pt_entries t) p = Some a" "status_of a \<noteq> Exited" using that(1) by (simp_all add: alive_def)
    moreover from this(1) have "p_pid (r_entry a) = p" using table_okD(1) [OF ok] by (simp add: record_ok_def)
    ultimately show ?thesis
      using no_other that(2) by (auto simp: leads_no_other_def list_all_iff pt_records_def in_bt_values_iff)
  qed
  have new: "(p = pid \<and> p_pgid (r_entry a) = pid \<and> p_sid (r_entry a) = pid) \<or> (p \<noteq> pid \<and> alive t p a)"
    if "alive ?t p a" for p a
    using that True by (auto simp: alive_def split: if_splits)
  show ?thesis
    unfolding t' groups_ok_def
  proof (intro allI impI)
    fix p a q b assume ab: "alive ?t p a \<and> alive ?t q b"
    have "(p_pgid (r_entry a) = p_pgid (r_entry b) \<longrightarrow> p_sid (r_entry a) = p_sid (r_entry b)) \<and>
        (p_pgid (r_entry a) = q \<longrightarrow> p_sid (r_entry a) = p_sid (r_entry b))" if "alive t p a" "alive t q b"
      using groups that unfolding groups_ok_def by blast
    with ab new [of p a] new [of q b] others [of p a] others [of q b]
    show "(p_pgid (r_entry a) = p_pgid (r_entry b) \<longrightarrow> p_sid (r_entry a) = p_sid (r_entry b)) \<and>
        (p_pgid (r_entry a) = q \<longrightarrow> p_sid (r_entry a) = p_sid (r_entry b))" by metis
  qed
next
  case False
  then have "snd (pt_setsid pid t) = t" by (auto simp: pt_setsid_def split: option.splits)
  with groups show ?thesis by simp
qed

end
