(* ===== verification/Process_Spec.thy ===== *)
theory Process_Spec
  imports Process_Inv
begin

text \<open>
  What the process table guarantees: a step relation over all its operations with the invariants that
  every reachable table has, and the behaviour of waiting, masking, exiting and terminating.
\<close>

subsection \<open>All operations\<close>

text \<open>
  One operation on the table. Under \<open>careful\<close>, \<^verbatim>\<open>setsid\<close> is only called by a process whose number names no
  group with another live member.
\<close>

inductive pt_step :: "bool \<Rightarrow> process_table \<Rightarrow> process_table \<Rightarrow> bool" for careful where
  spawn: "spawnable ctx t \<Longrightarrow> pt_step careful t (pt_spawn driver command args ctx d t)"
| on_exit: "pt_step careful t (pt_set_on_process_exit b t)"
| exits: "pt_step careful t (pt_mark_exited now pid exit_code t)"
| stopped: "pt_step careful t (mark_stopped pid signal t)"
| continued: "pt_step careful t (mark_continued pid t)"
| waitpid: "pt_step careful t (snd (pt_waitpid pid t))"
| waitpid_for: "pt_step careful t (snd (pt_waitpid_for waiter pid' flags t))"
| kill: "pt_step careful t (snd (pt_kill pid' signal t))"
| sigprocmask: "pt_step careful t (snd (pt_sigprocmask pid how sigs t))"
| setpgid: "pt_step careful t (snd (pt_setpgid pid pgid t))"
| setsid: "(careful \<longrightarrow> leads_no_other pid t) \<Longrightarrow> pt_step careful t (snd (pt_setsid pid t))"
| set_umask: "pt_step careful t (snd (pt_set_umask pid umask t))"
| terminate: "pt_step careful t (pt_terminate_all now wait1 wait2 t)"
| reap: "pt_step careful t (reap_step now t)"

lemma narrowing_step:
  assumes "pt_step careful t t'"
  obtains "narrows t t'"
  | ctx driver command args d where "spawnable ctx t" "t' = pt_spawn driver command args ctx d t"
  | now pid exit_code where "t' = pt_mark_exited now pid exit_code t"
  | now wait1 wait2 where "t' = pt_terminate_all now wait1 wait2 t"
  | pid pgid where "t' = snd (pt_setpgid pid pgid t)"
  | pid where "t' = snd (pt_setsid pid t)" "careful \<longrightarrow> leads_no_other pid t"
  using assms
proof (cases rule: pt_step.cases)
  case (stopped pid signal)
  then show ?thesis
    using that(1) signals_only_narrows [OF signals_only_wait_event] by (simp add: mark_stopped_def)
next
  case (continued pid)
  then show ?thesis
    using that(1) signals_only_narrows [OF signals_only_wait_event] by (simp add: mark_continued_def)
next
  case (on_exit b)
  then show ?thesis
    using that(1) by (simp add: pt_set_on_process_exit_def narrows_fields)
qed (use that narrows_waitpid narrows_waitpid_for narrows_kill narrows_sigprocmask narrows_set_umask narrows_reap
     in metis)+

lemma table_ok_step:
  assumes ok: "table_ok t" and step: "pt_step careful t t'"
  shows "table_ok t'"
  using step
proof (cases rule: narrowing_step)
  case 1
  then show ?thesis by (rule table_ok_narrows [OF ok])
next
  case 4
  show ?thesis
    unfolding 4 by (rule terminate_all_preserves [of table_ok, OF table_ok_mark_exited table_ok_narrows ok])
qed (use ok table_ok_spawn table_ok_mark_exited table_ok_setpgid table_ok_setsid in auto)

lemma groups_ok_step:
  assumes ok: "table_ok t" "groups_ok t" and step: "pt_step True t t'"
  shows "groups_ok t'"
  using step
proof (cases rule: narrowing_step)
  case 1
  then show ?thesis by (rule groups_ok_narrows [OF ok(2)])
next
  case 4
  show ?thesis
    unfolding 4 by (rule terminate_all_preserves [of groups_ok, OF groups_ok_mark_exited groups_ok_narrows ok(2)])
qed (use ok groups_ok_spawn groups_ok_mark_exited groups_ok_setpgid groups_ok_setsid in auto)

lemma empty_table_ok: "table_ok (process_table_with_ttl ttl)" "groups_ok (process_table_with_ttl ttl)"
  by (simp_all add: table_ok_def groups_ok_def alive_def process_table_with_ttl_def)

interpretation any_run: invariant_system "process_table_with_ttl ttl" "pt_step careful" table_ok for ttl careful
  by unfold_locales (auto intro: empty_table_ok table_ok_step)

interpretation careful_run: invariant_system "process_table_with_ttl ttl" "pt_step True"
    "\<lambda>t. table_ok t \<and> groups_ok t" for ttl
  by unfold_locales (auto intro: empty_table_ok table_ok_step groups_ok_step)

subsection \<open>What delivering signals leaves alone\<close>

definition mask_of :: "process_table \<Rightarrow> u32 \<Rightarrow> (signal_set \<times> signal_set \<times> u32) option" where
  "mask_of t pid = map_option (\<lambda>r. (r_blocked r, r_pending r, p_ppid (r_entry r))) (bt_get (pt_entries t) pid)"

lemma mask_of_notify:
  "notify_parent ppid t = (ds, t') \<Longrightarrow> pid \<noteq> ppid \<Longrightarrow> mask_of t' pid = mask_of t pid"
  by (auto simp: notify_parent_def mask_of_def split: option.splits sum.splits if_splits)

lemma driver_kills_fields [simp]:
  "pt_entries (driver_kills ds t) = pt_entries t"
  "pt_driver_calls (driver_kills ds t) = pt_driver_calls t @ map (\<lambda>d. (d_driver d, d_signal d)) ds"
  by (simp_all add: driver_kills_def)

lemma notify_calls: "notify_parent ppid t = (ds, t') \<Longrightarrow> pt_driver_calls t' = pt_driver_calls t"
  by (auto simp: notify_parent_def split: option.splits sum.splits if_splits)

lemma mark_wait_event_cases:
  obtains "mark_wait_event pid next_status event t = t"
      "\<forall>r. bt_get (pt_entries t) pid = Some r \<longrightarrow> status_of r = Exited \<or> status_of r = next_status"
  | r t1 ds t2 where "bt_get (pt_entries t) pid = Some r" "status_of r \<noteq> Exited" "status_of r \<noteq> next_status"
      "t1 = update_record pid (\<lambda>r. (update_entry (\<lambda>e. e\<lparr>p_status := next_status\<rparr>) r)
              \<lparr>r_wait_events := r_wait_events r @ [event]\<rparr>) t"
      "notify_parent (p_ppid (r_entry r)) t1 = (ds, t2)"
      "mark_wait_event pid next_status event t = driver_kills ds t2"
proof (cases "bt_get (pt_entries t) pid")
  case None
  then show ?thesis using that(1) by (simp add: mark_wait_event_def)
next
  case (Some r)
  let ?t1 = "update_record pid (\<lambda>r. (update_entry (\<lambda>e. e\<lparr>p_status := next_status\<rparr>) r)
              \<lparr>r_wait_events := r_wait_events r @ [event]\<rparr>) t"
  obtain ds t2 where n: "notify_parent (p_ppid (r_entry r)) ?t1 = (ds, t2)" by fastforce
  show ?thesis
  proof (cases "status_of r = Exited \<or> status_of r = next_status")
    case True
    with Some that(1) show ?thesis by (auto simp: mark_wait_event_def)
  next
    case False
    with Some n have "mark_wait_event pid next_status event t = driver_kills ds t2"
      by (simp add: mark_wait_event_def)
    with that(2) [OF Some] False n show ?thesis by blast
  qed
qed

lemma mark_wait_event_mask:
  assumes "mask_of t pid = Some (b, p, ppid)" "ppid \<noteq> pid"
  shows "mask_of (mark_wait_event pid next_status event t) pid = mask_of t pid"
proof (cases rule: mark_wait_event_cases [where pid = pid and next_status = next_status and event = event and t = t])
  case (2 r t1 ds t2)
  then have "p_ppid (r_entry r) \<noteq> pid" using assms by (auto simp: mask_of_def)
  then have "mask_of t2 pid = mask_of t1 pid" using mask_of_notify [OF 2(5)] by simp
  with 2 show ?thesis by (simp add: mask_of_def)
qed simp

lemma mark_wait_event_calls:
  "\<exists>rest. pt_driver_calls (mark_wait_event pid next_status event t) = pt_driver_calls t @ rest \<and>
     (\<forall>x \<in> set rest. snd x = SIGCHLD)"
proof (cases rule: mark_wait_event_cases [where pid = pid and next_status = next_status and event = event and t = t])
  case (2 r t1 ds t2)
  then show ?thesis
    using notify_calls [OF 2(5)] notify_parent_SIGCHLD [OF 2(5)] by auto
qed simp

lemma fold_calls:
  assumes "\<And>x t. \<exists>rest. pt_driver_calls (f x t) = pt_driver_calls t @ rest \<and> (\<forall>c \<in> set rest. snd c = SIGCHLD)"
  shows "\<exists>rest. pt_driver_calls (fold f xs t) = pt_driver_calls t @ rest \<and> (\<forall>c \<in> set rest. snd c = SIGCHLD)"
proof (induction xs arbitrary: t)
  case (Cons x xs)
  obtain r1 where r1: "pt_driver_calls (f x t) = pt_driver_calls t @ r1" "\<forall>c \<in> set r1. snd c = SIGCHLD"
    using assms by blast
  obtain r2 where r2: "pt_driver_calls (fold f xs (f x t)) = pt_driver_calls (f x t) @ r2" "\<forall>c \<in> set r2. snd c = SIGCHLD"
    using Cons.IH by blast
  have "pt_driver_calls (fold f (x # xs) t) = pt_driver_calls t @ (r1 @ r2)" using r1(1) r2(1) by simp
  with r1(2) r2(2) show ?case by (metis UnE set_append)
qed simp

lemma deliver_calls:
  "\<exists>rest. pt_driver_calls (deliver_signals ds t) =
      pt_driver_calls t @ map (\<lambda>d. (d_driver d, d_signal d)) ds @ rest \<and> (\<forall>c \<in> set rest. snd c = SIGCHLD)"
proof -
  let ?t1 = "driver_kills ds t"
  let ?t2 = "fold (\<lambda>d. mark_stopped (d_pid d) (d_signal d)) (filter stops ds) ?t1"
  obtain r1 where r1: "pt_driver_calls ?t2 = pt_driver_calls ?t1 @ r1" "\<forall>c \<in> set r1. snd c = SIGCHLD"
    using fold_calls [of "\<lambda>d. mark_stopped (d_pid d) (d_signal d)"] mark_wait_event_calls
    unfolding mark_stopped_def by blast
  obtain r2 where r2: "pt_driver_calls (deliver_signals ds t) = pt_driver_calls ?t2 @ r2" "\<forall>c \<in> set r2. snd c = SIGCHLD"
    using fold_calls [of "\<lambda>d. mark_continued (d_pid d)"] mark_wait_event_calls
    unfolding mark_continued_def deliver_signals_def by blast
  have "pt_driver_calls (deliver_signals ds t) =
      pt_driver_calls t @ map (\<lambda>d. (d_driver d, d_signal d)) ds @ (r1 @ r2)"
    using r1(1) r2(1) by simp
  with r1(2) r2(2) show ?thesis by (metis UnE set_append)
qed

lemma fold_mask:
  assumes "\<And>d t. d \<in> set ds \<Longrightarrow> mask_of t pid = Some m \<Longrightarrow> mask_of (f d t) pid = Some m" "mask_of t pid = Some m"
  shows "mask_of (fold f ds t) pid = Some m"
  using assms by (induction ds arbitrary: t) auto

lemma deliver_mask:
  assumes "\<And>d. d \<in> set ds \<Longrightarrow> d_pid d = pid" "mask_of t pid = Some (b, p, ppid)" "ppid \<noteq> pid"
  shows "mask_of (deliver_signals ds t) pid = Some (b, p, ppid)"
proof -
  have "mask_of (driver_kills ds t) pid = Some (b, p, ppid)" using assms(2) by (simp add: mask_of_def)
  then show ?thesis
    unfolding deliver_signals_def mark_stopped_def mark_continued_def
    by (intro fold_mask) (use assms(1,3) mark_wait_event_mask in auto)
qed

subsection \<open>A small family of processes\<close>

text \<open>\<open>family\<close>: process 1, its child 2, and 3, a child of 2, all in group 1 and session 1.\<close>

definition child_of :: "u32 \<Rightarrow> process_context" where
  "child_of ppid = process_context_default\<lparr>ctx_ppid := ppid\<rparr>"

definition spawn_child :: "u32 \<Rightarrow> driver_handle \<Rightarrow> process_table \<Rightarrow> process_table" where
  "spawn_child ppid d = pt_spawn ''wasm'' ''sh'' [] (child_of ppid) d"

definition family :: process_table where
  "family = spawn_child 2 12 (spawn_child 1 11 (spawn_child 0 10 (process_table_with_ttl 0)))"

lemma spawn_child_step:
  assumes "pt_next_pid t + 1 \<noteq> 0" "\<forall>q. bt_get (pt_entries t) ppid = Some q \<longrightarrow> status_of q \<noteq> Exited"
  shows "pt_step careful t (spawn_child ppid d t)"
  unfolding spawn_child_def
  by (rule pt_step.spawn) (use assms in \<open>auto simp: spawnable_def child_of_def process_context_default_def split: option.splits\<close>)

lemma family_reachable: "(pt_step careful)\<^sup>*\<^sup>* (process_table_with_ttl 0) family"
proof -
  let ?t0 = "process_table_with_ttl 0"
  let ?t1 = "spawn_child 0 10 ?t0" and ?t2 = "spawn_child 1 11 (spawn_child 0 10 ?t0)"
  have f: "family = spawn_child 2 12 ?t2" by (simp add: family_def)
  have "pt_step careful ?t0 ?t1" by (rule spawn_child_step) (simp_all add: process_table_with_ttl_def)
  moreover have "pt_step careful ?t1 ?t2"
    by (rule spawn_child_step) (simp_all add: spawn_child_def pt_spawn_def pt_allocate_pid_def pt_register_def
        child_of_def process_table_with_ttl_def process_context_default_def Let_def status_of_def)
  moreover have "pt_step careful ?t2 family"
    unfolding f
    by (rule spawn_child_step) (simp_all add: spawn_child_def pt_spawn_def pt_allocate_pid_def pt_register_def
        child_of_def process_table_with_ttl_def process_context_default_def Let_def status_of_def)
  ultimately show ?thesis
    by (meson converse_rtranclp_into_rtranclp r_into_rtranclp)
qed

subsection \<open>Invariants of reachable tables\<close>






subsection \<open>Waiting for children\<close>

definition waitable :: "wait_pid_flags \<Rightarrow> process_record \<Rightarrow> bool" where
  "waitable flags r \<longleftrightarrow> take_event flags (r_wait_events r) \<noteq> None \<or> status_of r = Exited"

definition selected_child :: "process_table \<Rightarrow> u32 \<Rightarrow> wait_selector \<Rightarrow> u32 \<Rightarrow> process_record \<Rightarrow> bool" where
  "selected_child t waiter sel c r \<longleftrightarrow>
     bt_get (pt_entries t) c = Some r \<and> p_ppid (r_entry r) = waiter \<and> selects sel (r_entry r)"

text \<open>\<open>collected flags t c r res t'\<close>: waiting took \<open>res\<close> from the child \<open>c\<close> with record \<open>r\<close> and left \<open>t'\<close>.\<close>

definition collected ::
    "wait_pid_flags \<Rightarrow> process_table \<Rightarrow> process_record \<Rightarrow> process_wait_result \<Rightarrow> process_table \<Rightarrow> bool" where
  "collected flags t r res t' \<longleftrightarrow>
     (\<forall>q. q \<noteq> wait_pid res \<longrightarrow> bt_get (pt_entries t') q = bt_get (pt_entries t) q) \<and>
     (case take_event flags (r_wait_events r) of
        Some (event, rest) \<Rightarrow> wait_status res = pending_status event \<and> wait_event res = pending_event event \<and>
          bt_get (pt_entries t') (wait_pid res) = Some (r\<lparr>r_wait_events := rest\<rparr>)
      | None \<Rightarrow> wait_event res = WaitExited \<and> wait_status res = unwrap_or (p_exit_code (r_entry r)) 0 \<and>
          bt_get (pt_entries t') (wait_pid res) = None)"

lemma take_event_spec:
  "take_event flags es = None \<longleftrightarrow> (\<forall>e \<in> set es. \<not> is_waitable_event (pending_event e) flags)"
  "take_event flags es = Some (e, rest) \<Longrightarrow> \<exists>xs ys. es = xs @ e # ys \<and> rest = xs @ ys \<and>
     is_waitable_event (pending_event e) flags \<and> (\<forall>x \<in> set xs. \<not> is_waitable_event (pending_event x) flags)"
proof (induction es arbitrary: rest)
  case (Cons a es)
  { case 1
    show ?case using Cons.IH(1) by simp
  next
    case 2
    show ?case
    proof (cases "is_waitable_event (pending_event a) flags")
      case True
      with 2 have "a # es = [] @ e # rest" "rest = [] @ rest" by simp_all
      with True 2 show ?thesis by (metis empty_iff list.inject list.set(1) append_Nil)
    next
      case False
      with 2 obtain rest' where "take_event flags es = Some (e, rest')" "rest = a # rest'" by auto
      with Cons.IH(2) [of rest'] obtain xs ys where "a # es = (a # xs) @ e # ys" "rest = (a # xs) @ ys"
        "is_waitable_event (pending_event e) flags" "\<forall>x \<in> set (a # xs). \<not> is_waitable_event (pending_event x) flags"
        using False by auto
      then show ?thesis by blast
    qed }
qed simp_all

lemma take_waitable_spec:
  assumes "\<forall>c \<in> set cs. bt_get (pt_entries t) c \<noteq> None" "take_waitable_event cs flags t = (res, t')"
  shows "case res of
      None \<Rightarrow> t' = t \<and> (\<forall>c \<in> set cs. \<not> waitable flags (the (bt_get (pt_entries t) c)))
    | Some w \<Rightarrow> \<exists>xs ys r. cs = xs @ wait_pid w # ys \<and> (\<forall>c \<in> set xs. \<not> waitable flags (the (bt_get (pt_entries t) c))) \<and>
        bt_get (pt_entries t) (wait_pid w) = Some r \<and> waitable flags r \<and> collected flags t r w t'"
  using assms
proof (induction cs)
  case (Cons c cs)
  then obtain r where r: "bt_get (pt_entries t) c = Some r" by auto
  show ?case
  proof (cases "waitable flags r")
    case True
    then have "case res of None \<Rightarrow> False | Some w \<Rightarrow> wait_pid w = c \<and> collected flags t r w t'"
      using Cons.prems(2) r by (auto simp: waitable_def collected_def split: option.splits if_splits)
    then obtain w where "res = Some w" "wait_pid w = c" "collected flags t r w t'" by (cases res) auto
    with r True show ?thesis by force
  next
    case False
    then have "take_waitable_event cs flags t = (res, t')"
      using Cons.prems(2) r unfolding waitable_def by (cases "take_event flags (r_wait_events r)") simp_all
    with Cons.IH Cons.prems(1) have ih: "case res of
        None \<Rightarrow> t' = t \<and> (\<forall>c \<in> set cs. \<not> waitable flags (the (bt_get (pt_entries t) c)))
      | Some w \<Rightarrow> \<exists>xs ys r. cs = xs @ wait_pid w # ys \<and> (\<forall>c \<in> set xs. \<not> waitable flags (the (bt_get (pt_entries t) c))) \<and>
          bt_get (pt_entries t) (wait_pid w) = Some r \<and> waitable flags r \<and> collected flags t r w t'" by simp
    show ?thesis
    proof (cases res)
      case None
      with ih False r show ?thesis by simp
    next
      case (Some w)
      with ih obtain xs ys r' where "cs = xs @ wait_pid w # ys"
        "\<forall>c \<in> set xs. \<not> waitable flags (the (bt_get (pt_entries t) c))"
        "bt_get (pt_entries t) (wait_pid w) = Some r'" "waitable flags r'" "collected flags t r' w t'" by auto
      moreover from this have "c # cs = (c # xs) @ wait_pid w # ys"
        "\<forall>c \<in> set (c # xs). \<not> waitable flags (the (bt_get (pt_entries t) c))" using False r by simp_all
      ultimately show ?thesis unfolding Some option.case by blast
    qed
  qed
qed simp

lemma matching_children:
  assumes "table_ok t"
  shows "matching_child_pids t w sel =
    filter (\<lambda>c. selected_child t w sel c (the (bt_get (pt_entries t) c))) (bt_keys (pt_entries t))"
proof -
  let ?rec = "\<lambda>c. the (bt_get (pt_entries t) c)"
  have "matching_child_pids t w sel = map (\<lambda>c. p_pid (r_entry (?rec c)))
      (filter (\<lambda>c. p_ppid (r_entry (?rec c)) = w \<and> selects sel (r_entry (?rec c))) (bt_keys (pt_entries t)))"
    by (simp add: matching_child_pids_def pt_records_def bt_values_keys filter_map comp_def conj_commute)
  also have "\<dots> = map (\<lambda>c. c)
      (filter (\<lambda>c. selected_child t w sel c (?rec c)) (bt_keys (pt_entries t)))"
  proof (rule map_cong)
    show "filter (\<lambda>c. p_ppid (r_entry (?rec c)) = w \<and> selects sel (r_entry (?rec c))) (bt_keys (pt_entries t)) =
        filter (\<lambda>c. selected_child t w sel c (?rec c)) (bt_keys (pt_entries t))"
      by (rule filter_cong) (auto simp: selected_child_def)
    fix c assume "c \<in> set (filter (\<lambda>c. selected_child t w sel c (?rec c)) (bt_keys (pt_entries t)))"
    then show "p_pid (r_entry (?rec c)) = c"
      using table_okD(1) [OF assms, of c] by (auto simp: selected_child_def record_ok_def)
  qed
  finally show ?thesis by simp
qed

lemma matching_children_set:
  assumes "table_ok t"
  shows "c \<in> set (matching_child_pids t w sel) \<longleftrightarrow> (\<exists>r. selected_child t w sel c r)"
  unfolding matching_children [OF assms] by (auto simp: selected_child_def)

lemma matching_children_sorted: "table_ok t \<Longrightarrow> sorted_wrt (<) (matching_child_pids t w sel)"
  unfolding matching_children by (rule sorted_wrt_filter) simp

text \<open>
  C19. \<^verbatim>\<open>waitpid_for\<close> on a listed caller. Without a child that the argument selects it fails with \<^verbatim>\<open>ECHILD\<close>.
  With one but none that has a waitable event or has exited, it blocks, or returns nothing under
  \<^verbatim>\<open>WNOHANG\<close>, and changes nothing. Otherwise it answers for the child with the least number among those:
  the first waitable event of its queue, which is taken off, or else its exit, and the entry is removed.
  No other entry changes.
\<close>

theorem waitpid_for_spec:
  assumes "(pt_step careful)\<^sup>*\<^sup>* (process_table_with_ttl ttl) t"
    "resolve_wait_selector t waiter pid = Inr sel"
  shows "case pt_waitpid_for waiter pid flags t of
      (Return (Inl e), t') \<Rightarrow>
        e = no_matching_child waiter pid \<and> t' = t \<and> (\<nexists>c r. selected_child t waiter sel c r)
    | (Return (Inr (Some res)), t') \<Rightarrow>
        (\<exists>r. selected_child t waiter sel (wait_pid res) r \<and> waitable flags r \<and> collected flags t r res t') \<and>
        (\<forall>c r. selected_child t waiter sel c r \<and> waitable flags r \<longrightarrow> wait_pid res \<le> c)
    | (x, t') \<Rightarrow>
        x = (if flags_contain flags WNOHANG then Return (Inr None) else Blocked) \<and> t' = t \<and>
        (\<exists>c r. selected_child t waiter sel c r) \<and>
        (\<forall>c r. selected_child t waiter sel c r \<longrightarrow> \<not> waitable flags r)"
proof -
  have ok: "table_ok t" by (rule any_run.reachable_inv [OF assms(1)])
  let ?cs = "matching_child_pids t waiter sel"
  note in_cs = matching_children_set [OF ok, of _ waiter sel]
  have rec: "the (bt_get (pt_entries t) c) = r" if "selected_child t waiter sel c r" for c r
    using that by (simp add: selected_child_def)
  show ?thesis
  proof (cases "?cs = []")
    case True
    then show ?thesis
      using assms(2) in_cs by (auto simp: pt_waitpid_for_def)
  next
    case False
    then have some: "\<exists>c r. selected_child t waiter sel c r" using in_cs by (metis list.set_intros(1) neq_Nil_conv)
    obtain res t' where take: "take_waitable_event ?cs flags t = (res, t')" by fastforce
    have "\<forall>c \<in> set ?cs. bt_get (pt_entries t) c \<noteq> None"
      using in_cs by (auto simp: selected_child_def)
    note spec = take_waitable_spec [OF this take]
    show ?thesis
    proof (cases res)
      case None
      then have none: "t' = t" "\<forall>c \<in> set ?cs. \<not> waitable flags (the (bt_get (pt_entries t) c))"
        using spec by simp_all
      have "\<forall>c r. selected_child t waiter sel c r \<longrightarrow> \<not> waitable flags r"
        using none(2) in_cs rec by blast
      with none(1) show ?thesis
        using None assms(2) False take some by (simp add: pt_waitpid_for_def)
    next
      case (Some w)
      then obtain xs ys r where w: "?cs = xs @ wait_pid w # ys" "\<forall>c \<in> set xs. \<not> waitable flags (the (bt_get (pt_entries t) c))"
        "bt_get (pt_entries t) (wait_pid w) = Some r" "waitable flags r" "collected flags t r w t'"
        using spec by auto
      have sel: "selected_child t waiter sel (wait_pid w) r"
        using in_cs [of "wait_pid w"] w(1,3) by (auto simp: selected_child_def)
      have "wait_pid w \<le> c" if c: "selected_child t waiter sel c s" "waitable flags s" for c s
      proof -
        have "c \<in> set ?cs" "c \<notin> set xs" using in_cs c w(2) rec by blast+
        then have "c = wait_pid w \<or> c \<in> set ys" using w(1) by auto
        then show ?thesis
          using matching_children_sorted [OF ok, of waiter sel] unfolding w(1) by (auto simp: sorted_wrt_append)
      qed
      moreover have "collected flags t r w (t'\<lparr>pt_reaper := x\<rparr>)" for x
        using w(5) by (cases "take_event flags (r_wait_events r)") (auto simp: collected_def)
      ultimately show ?thesis
        using Some assms(2) False take sel w(4,5) by (auto simp: pt_waitpid_for_def)
    qed
  qed
qed

text \<open>The family after process 2 was stopped and process 3 exited.\<close>

definition stopped_family :: process_table where
  "stopped_family = snd (pt_kill 2 SIGSTOP family)"

lemma waitpid_for_spec_witness:
  "(case pt_waitpid_for 1 (- 1) WUNTRACED stopped_family of
      (Return (Inr (Some res)), t') \<Rightarrow> wait_pid res = 2 \<and> wait_status res = SIGSTOP \<and>
        (\<exists>r. selected_child stopped_family 1 AnyChild 2 r \<and> waitable WUNTRACED r)
    | _ \<Rightarrow> False)"
proof -
  have reach: "(pt_step False)\<^sup>*\<^sup>* (process_table_with_ttl 0) stopped_family"
    unfolding stopped_family_def
    by (rule rtranclp.rtrancl_into_rtrancl [OF family_reachable]) (rule pt_step.kill)
  have sel: "resolve_wait_selector stopped_family 1 (- 1) = Inr AnyChild" by code_simp
  have "case pt_waitpid_for 1 (- 1) WUNTRACED stopped_family of
      (Return (Inr (Some res)), t') \<Rightarrow> wait_pid res = 2 \<and> wait_status res = SIGSTOP | _ \<Rightarrow> False"
    by code_simp
  with waitpid_for_spec [OF reach sel, of WUNTRACED] show ?thesis
    by (auto split: prod.splits attempt.splits sum.splits option.splits)
qed

subsection \<open>Masking signals\<close>


text \<open>A process that starts with two signals blocked, is sent both and one of them again.\<close>

definition masked_process :: process_table where
  "masked_process = snd (pt_kill 1 SIGHUP (snd (pt_kill 1 SIGTERM (snd (pt_kill 1 SIGHUP
     (pt_spawn ''wasm'' ''sh'' [] (process_context_default\<lparr>ctx_blocked := 0x4001\<rparr>) 11 (process_table_with_ttl 0)))))))"


end
