(* ===== verification/Process_Exit.thy ===== *)
theory Process_Exit
  imports Process_Spec
begin

text \<open>
  What an exit does to the other processes: stopped groups that it orphans are hung up and continued,
  nothing else changes state, and \<^verbatim>\<open>terminate_all\<close> and the zombie reaper built on it.
\<close>

subsection \<open>States of processes\<close>

definition status_at :: "process_table \<Rightarrow> u32 \<Rightarrow> process_status option" where
  "status_at t q = map_option status_of (bt_get (pt_entries t) q)"

lemma status_at_fields: "pt_entries t' = pt_entries t \<Longrightarrow> status_at t' q = status_at t q"
  by (simp add: status_at_def)

lemma same_pending: "\<exists>p. r = r\<lparr>r_pending := p\<rparr>" for r :: process_record
  by (rule exI [of _ "r_pending r"]) simp

lemma queue_status:
  assumes "queue_or_schedule_signal r signal = Inr (d, r')"
  shows "\<exists>p. r' = r\<lparr>r_pending := p\<rparr>"
proof -
  have "r' = r \<or> (\<exists>p. r' = r\<lparr>r_pending := p\<rparr>)"
    using assms by (auto simp: queue_or_schedule_signal_def split: if_splits sum.splits)
  with same_pending show ?thesis by blast
qed

text \<open>\<open>pending_only\<close>: nothing but pending signals changes in the entries.\<close>

definition pending_only :: "process_table \<Rightarrow> process_table \<Rightarrow> bool" where
  "pending_only t t' \<longleftrightarrow> (\<forall>q. rel_option (\<lambda>r r'. \<exists>p. r' = r\<lparr>r_pending := p\<rparr>)
     (bt_get (pt_entries t) q) (bt_get (pt_entries t') q))"

lemma pending_only_refl [simp]: "pending_only t t"
  by (simp add: pending_only_def option.rel_refl same_pending)

lemma pending_only_get:
  assumes "pending_only t t'" "bt_get (pt_entries t) q = Some r"
  obtains p where "bt_get (pt_entries t') q = Some (r\<lparr>r_pending := p\<rparr>)"
proof -
  have "rel_option (\<lambda>r r'. \<exists>p. r' = r\<lparr>r_pending := p\<rparr>) (bt_get (pt_entries t) q) (bt_get (pt_entries t') q)"
    using assms(1) unfolding pending_only_def by blast
  then obtain p where "bt_get (pt_entries t') q = Some (r\<lparr>r_pending := p\<rparr>)"
    unfolding assms(2) by (auto simp: option_rel_Some1)
  then show ?thesis by (rule that)
qed

lemma pending_only_trans:
  assumes "pending_only t t1" "pending_only t1 t2"
  shows "pending_only t t2"
  unfolding pending_only_def
proof
  fix q
  have "rel_option (\<lambda>r r'. \<exists>p. r' = r\<lparr>r_pending := p\<rparr>) (bt_get (pt_entries t) q) (bt_get (pt_entries t1) q)"
    "rel_option (\<lambda>r r'. \<exists>p. r' = r\<lparr>r_pending := p\<rparr>) (bt_get (pt_entries t1) q) (bt_get (pt_entries t2) q)"
    using assms by (simp_all add: pending_only_def)
  then show "rel_option (\<lambda>r r'. \<exists>p. r' = r\<lparr>r_pending := p\<rparr>) (bt_get (pt_entries t) q) (bt_get (pt_entries t2) q)"
    by (auto simp: rel_option_iff split: option.splits)
qed

lemma pending_only_update:
  "bt_get (pt_entries t) pid = Some r \<Longrightarrow> pending_only t (update_record pid (\<lambda>_. r\<lparr>r_pending := p\<rparr>) t)"
  by (auto simp: pending_only_def option.rel_refl same_pending)

lemma pending_only_queue:
  "bt_get (pt_entries t) pid = Some r \<Longrightarrow> queue_or_schedule_signal r signal = Inr (d, r') \<Longrightarrow>
     pending_only t (update_record pid (\<lambda>_. r') t)"
  by (auto dest!: queue_status intro: pending_only_update)

lemma pending_only_notify: "notify_parent ppid t = (ds, t') \<Longrightarrow> pending_only t t'"
  by (auto simp: notify_parent_def split: option.splits sum.splits if_splits intro: pending_only_queue)

lemma pending_only_send: "send_valid_signal pid signal t = (ds, t') \<Longrightarrow> pending_only t t'"
  by (auto simp: send_valid_signal_def split: option.splits sum.splits intro: pending_only_queue)

lemma pending_only_status: "pending_only t t' \<Longrightarrow> status_at t' q = status_at t q"
  unfolding pending_only_def status_at_def
  by (drule spec [of _ q]) (auto simp: rel_option_iff status_of_def split: option.splits)

lemma hangup_step:
  assumes "hangup_orphans (pid # pids) t = (ds, t')"
  obtains d1 t1 d2 t2 d3 where "send_valid_signal pid SIGHUP t = (d1, t1)" "send_valid_signal pid SIGCONT t1 = (d2, t2)"
    "hangup_orphans pids t2 = (d3, t')" "ds = d1 @ d2 @ d3"
  using assms by (auto split: prod.splits)

lemma pending_only_hangup: "hangup_orphans pids t = (ds, t') \<Longrightarrow> pending_only t t'"
proof (induction pids arbitrary: t ds t')
  case (Cons pid pids)
  from Cons.prems obtain d1 t1 d2 t2 d3 where "send_valid_signal pid SIGHUP t = (d1, t1)"
    "send_valid_signal pid SIGCONT t1 = (d2, t2)" "hangup_orphans pids t2 = (d3, t')" by (rule hangup_step)
  then show ?case
    using Cons.IH by (blast intro: pending_only_trans pending_only_send)
qed simp

lemma status_at_wait_event:
  "status_at (mark_wait_event pid next_status event t) q =
     (if q = pid \<and> status_at t q \<notin> {None, Some Exited} then Some next_status else status_at t q)"
proof (cases rule: mark_wait_event_cases [where pid = pid and next_status = next_status and event = event and t = t])
  case 1
  then show ?thesis
    by (auto simp: status_at_def)
next
  case (2 r t1 ds t2)
  have "status_at t2 q = status_at t1 q" by (rule pending_only_status [OF pending_only_notify [OF 2(5)]])
  with 2 show ?thesis by (auto simp: status_at_def status_of_def)
qed

lemma status_at_continued:
  "status_at (fold (\<lambda>d. mark_continued (d_pid d)) ds t) q =
     (if (\<exists>d \<in> set ds. d_pid d = q) \<and> status_at t q \<notin> {None, Some Exited} then Some Running else status_at t q)"
  by (induction ds arbitrary: t) (auto simp: mark_continued_def status_at_wait_event)

lemma status_at_deliver:
  assumes "filter stops ds = []"
  shows "status_at (deliver_signals ds t) q =
     (if (\<exists>d \<in> set ds. continues d \<and> d_pid d = q) \<and> status_at t q \<notin> {None, Some Exited}
      then Some Running else status_at t q)"
  unfolding deliver_signals_def assms
  by (simp add: status_at_continued) (auto simp: status_at_def)

lemma send_valid_deliveries:
  assumes "send_valid_signal pid signal t = (ds, t')"
  shows "d \<in> set ds \<Longrightarrow> d_signal d = signal"
    "bt_get (pt_entries t) pid = Some r \<Longrightarrow> \<not> (signal_can_be_blocked signal \<and> sigset_contains (r_blocked r) signal) \<Longrightarrow>
       ds = [delivery_to r signal]"
  using assms
  by (auto simp: send_valid_signal_def queue_or_schedule_signal_def delivery_to_def
      split: option.splits sum.splits if_splits)

lemma hangup_signals: "hangup_orphans pids t = (ds, t') \<Longrightarrow> d \<in> set ds \<Longrightarrow> d_signal d \<in> {SIGHUP, SIGCONT}"
proof (induction pids arbitrary: t ds)
  case (Cons pid pids)
  from Cons.prems(1) obtain d1 t1 d2 t2 d3 where "send_valid_signal pid SIGHUP t = (d1, t1)"
    "send_valid_signal pid SIGCONT t1 = (d2, t2)" "hangup_orphans pids t2 = (d3, t')" "ds = d1 @ d2 @ d3"
    by (rule hangup_step)
  then show ?case
    using Cons.IH Cons.prems(2) send_valid_deliveries(1) by fastforce
qed simp

lemma status_at_exit_table:
  "status_at (exit_table now pid exit_code t) q =
     (if q = pid \<and> status_at t q \<noteq> None then Some Exited else status_at t q)"
  by (auto simp: status_at_def exit_table_def Let_def option.map_comp comp_def split: option.splits)

lemma calls_send: "send_valid_signal pid signal t = (ds, t') \<Longrightarrow> pt_driver_calls t' = pt_driver_calls t"
  by (auto simp: send_valid_signal_def split: option.splits sum.splits)

lemma calls_hangup: "hangup_orphans pids t = (ds, t') \<Longrightarrow> pt_driver_calls t' = pt_driver_calls t"
proof (induction pids arbitrary: t ds)
  case (Cons pid pids)
  from Cons.prems obtain d1 t1 d2 t2 d3 where "send_valid_signal pid SIGHUP t = (d1, t1)"
    "send_valid_signal pid SIGCONT t1 = (d2, t2)" "hangup_orphans pids t2 = (d3, t')" by (rule hangup_step)
  then show ?case
    using Cons.IH [of t2 d3] calls_send [of pid] by metis
qed simp

lemma mark_exited_deliveries:
  assumes alive: "alive t pid r"
  obtains groups d1 d2 t3 t4 t5 where
    "reparent_children_to_init pid (bs_insert (p_pgid (r_entry r)) bs_empty)
       (update_record pid (exited_record now exit_code) t) = (groups, exit_table now pid exit_code t)"
    "pending_only (exit_table now pid exit_code t) t3"
    "hangup_orphans (collect_orphaned_group_signal_targets (exit_table now pid exit_code t) groups) t3 = (d2, t4)"
    "pending_only (exit_table now pid exit_code t) t5" "filter stops (d1 @ d2) = []"
    "pt_driver_calls t5 = pt_driver_calls t"
    "pt_entries (pt_mark_exited now pid exit_code t) = pt_entries (deliver_signals (d1 @ d2) t5)"
    "pt_driver_calls (pt_mark_exited now pid exit_code t) = pt_driver_calls (deliver_signals (d1 @ d2) t5)"
proof -
  have r: "bt_get (pt_entries t) pid = Some r" "status_of r \<noteq> Exited" using alive by (simp_all add: alive_def)
  show ?thesis
  proof (rule mark_exited_stages [OF r, of now exit_code])
    fix groups d1 d2 reaper calls and t3 t4 :: process_table
    let ?t2 = "exit_table now pid exit_code t" and ?t5 = "t4\<lparr>pt_reaper := reaper\<rparr>"
    assume 2: "reparent_children_to_init pid (bs_insert (p_pgid (r_entry r)) bs_empty)
        (update_record pid (exited_record now exit_code) t) = (groups, ?t2)"
      and 3: "(d1, t3) = (if pt_terminating_all ?t2 then ([], ?t2) else notify_parent (p_ppid (r_entry r)) ?t2)"
      and 4: "hangup_orphans (collect_orphaned_group_signal_targets ?t2 groups) t3 = (d2, t4)"
      and eq: "pt_mark_exited now pid exit_code t = (deliver_signals (d1 @ d2) ?t5)\<lparr>pt_exit_calls := calls\<rparr>"
    have n: "d1 = [] \<and> t3 = ?t2 \<or> notify_parent (p_ppid (r_entry r)) ?t2 = (d1, t3)"
      using 3 by (simp split: if_splits)
    then have t3: "pending_only ?t2 t3" using pending_only_notify by auto
    have "pending_only t4 ?t5" by (simp add: pending_only_def option.rel_refl same_pending)
    then have t5: "pending_only ?t2 ?t5"
      using pending_only_trans [OF pending_only_trans [OF t3 pending_only_hangup [OF 4]]] by simp
    have "\<not> stops d" if "d \<in> set (d1 @ d2)" for d
    proof -
      have "d_signal d \<in> {SIGCHLD, SIGHUP, SIGCONT}"
        using that n notify_parent_SIGCHLD hangup_signals [OF 4] by fastforce
      then show ?thesis by (auto simp: stops_def signal_consts)
    qed
    then have stops: "filter stops (d1 @ d2) = []" unfolding filter_empty_conv by blast
    have "pt_driver_calls t3 = pt_driver_calls ?t2" using n notify_calls by auto
    then have calls: "pt_driver_calls ?t5 = pt_driver_calls t"
      using calls_hangup [OF 4] by (simp add: exit_table_def Let_def)
    show ?thesis
      by (rule that [OF 2 t3 4 t5 stops calls]) (simp_all add: eq)
  qed
qed

text \<open>An exit leaves running processes running and can only set stopped ones running.\<close>

lemma status_at_mark_exited:
  assumes "alive t pid r"
  shows "status_at (pt_mark_exited now pid exit_code t) pid = Some Exited"
    "q \<noteq> pid \<Longrightarrow> status_at (pt_mark_exited now pid exit_code t) q = status_at t q \<or>
       status_at t q = Some Stopped \<and> status_at (pt_mark_exited now pid exit_code t) q = Some Running"
proof -
  obtain groups d1 d2 t3 t4 t5 where m: "pending_only (exit_table now pid exit_code t) t5" "filter stops (d1 @ d2) = []"
    "pt_entries (pt_mark_exited now pid exit_code t) = pt_entries (deliver_signals (d1 @ d2) t5)"
    by (rule mark_exited_deliveries [OF assms, of now exit_code])
  have eq: "status_at (pt_mark_exited now pid exit_code t) p =
      (if (\<exists>d \<in> set (d1 @ d2). continues d \<and> d_pid d = p) \<and> status_at t5 p \<notin> {None, Some Exited}
       then Some Running else status_at t5 p)" for p
    using status_at_fields [OF m(3)] status_at_deliver [OF m(2)] by simp
  have t5: "status_at t5 p = (if p = pid \<and> status_at t p \<noteq> None then Some Exited else status_at t p)" for p
    using pending_only_status [OF m(1)] status_at_exit_table by simp
  have "status_at t pid \<noteq> None" using assms by (simp add: alive_def status_at_def)
  then show "status_at (pt_mark_exited now pid exit_code t) pid = Some Exited"
    using eq [of pid] t5 [of pid] by simp
  assume "q \<noteq> pid"
  then have "status_at t5 q = status_at t q" using t5 by simp
  moreover have "status_at t q \<in> {None, Some Running, Some Stopped, Some Exited}"
    by (cases "status_at t q") (use process_status.exhaust in auto)
  ultimately show "status_at (pt_mark_exited now pid exit_code t) q = status_at t q \<or>
       status_at t q = Some Stopped \<and> status_at (pt_mark_exited now pid exit_code t) q = Some Running"
    using eq [of q] by auto
qed

subsection \<open>Orphaned groups\<close>

lemma hangup_delivers:
  "hangup_orphans pids t = (ds, t') \<Longrightarrow> q \<in> set pids \<Longrightarrow> bt_get (pt_entries t) q = Some s \<Longrightarrow>
     \<not> sigset_contains (r_blocked s) SIGHUP \<Longrightarrow>
     \<exists>xs ys. ds = xs @ [delivery_to s SIGHUP, delivery_to s SIGCONT] @ ys"
proof (induction pids arbitrary: t ds s)
  case (Cons pid pids)
  from Cons.prems(1) obtain d1 t1 d2 t2 d3 where st: "send_valid_signal pid SIGHUP t = (d1, t1)"
    "send_valid_signal pid SIGCONT t1 = (d2, t2)" "hangup_orphans pids t2 = (d3, t')" "ds = d1 @ d2 @ d3"
    by (rule hangup_step)
  obtain p1 where s1: "bt_get (pt_entries t1) q = Some (s\<lparr>r_pending := p1\<rparr>)"
    by (rule pending_only_get [OF pending_only_send [OF st(1)] Cons.prems(3)])
  obtain p2 where s2: "bt_get (pt_entries t2) q = Some (s\<lparr>r_pending := p1, r_pending := p2\<rparr>)"
    by (rule pending_only_get [OF pending_only_send [OF st(2)] s1])
  show ?case
  proof (cases "q = pid")
    case True
    have "d1 = [delivery_to s SIGHUP]"
      using send_valid_deliveries(2) [OF st(1)] Cons.prems(3,4) True by simp
    moreover have "d2 = [delivery_to s SIGCONT]"
      using send_valid_deliveries(2) [OF st(2)] s1 True by (simp add: signal_can_be_blocked_def)
    ultimately show ?thesis using st(4) by (auto intro: exI [of _ "[]"])
  next
    case False
    then obtain xs ys where "d3 = xs @ [delivery_to s SIGHUP, delivery_to s SIGCONT] @ ys"
      using Cons.IH [OF st(3) _ s2] Cons.prems(2,4) by auto
    then have "ds = (d1 @ d2 @ xs) @ [delivery_to s SIGHUP, delivery_to s SIGCONT] @ ys" using st(4) by simp
    then show ?thesis by blast
  qed
qed simp

lemma orphan_targets:
  assumes "bs_member groups g" "process_group_is_orphaned t g" "bt_get (pt_entries t) q = Some s"
    "p_pid (r_entry s) = q" "p_pgid (r_entry s) = g" "status_of s = Stopped"
  shows "q \<in> set (collect_orphaned_group_signal_targets t groups)"
proof -
  have s: "s \<in> set (pt_records t)" using assms(3) by (auto simp: pt_records_def in_bt_values_iff)
  then have "process_group_has_stopped_member t g"
    using assms(5,6) by (auto simp: process_group_has_stopped_member_def list_ex_iff)
  moreover have "s \<in> set (group_members t g)" using s assms(5,6) by (simp add: group_members_def)
  moreover have "g \<in> set (bs_elems groups)" using assms(1) by (simp add: bs_member_def bs_elems_def bt_contains_def)
  ultimately show ?thesis
    using assms(2,4) by (auto simp: collect_orphaned_group_signal_targets_def)
qed

lemma affected_groups:
  assumes "reparent_children_to_init pid groups0 t = (groups, t')"
  shows "bs_member groups g \<longleftrightarrow> bs_member groups0 g \<or>
    (\<exists>c s. bt_get (pt_entries t) c = Some s \<and> p_ppid (r_entry s) = pid \<and> p_pgid (r_entry s) = g)"
proof -
  have fold: "bs_member (fold (\<lambda>r. bs_insert (p_pgid (r_entry r))) rs acc) g \<longleftrightarrow>
      bs_member acc g \<or> (\<exists>r \<in> set rs. p_pgid (r_entry r) = g)" for rs :: "process_record list" and acc
    by (induction rs arbitrary: acc) (auto simp: bs_member_def bs_insert_def bt_contains_def)
  have "groups = fold (\<lambda>r. bs_insert (p_pgid (r_entry r))) (filter (\<lambda>r. p_ppid (r_entry r) = pid) (pt_records t)) groups0"
    using assms by (simp add: reparent_children_to_init_def Let_def)
  then show ?thesis by (auto simp: fold pt_records_def in_bt_values_iff)
qed


text \<open>
  Process 3 of the family leads a group of its own and is stopped; when its parent 2 exits, init adopts it
  and its group is orphaned.
\<close>

definition stopped_job :: process_table where
  "stopped_job = snd (pt_kill 3 SIGSTOP (snd (pt_setpgid 3 0 family)))"


subsection \<open>Terminating everything\<close>

lemma status_at_mark_exited_cases:
  "status_at (pt_mark_exited now p c t) q = (if p = q \<and> status_at t q \<noteq> None then Some Exited else status_at t q) \<or>
     p \<noteq> q \<and> status_at t q = Some Stopped \<and> status_at (pt_mark_exited now p c t) q = Some Running"
proof (cases "\<exists>r. alive t p r")
  case True
  then obtain r where r: "alive t p r" by blast
  then have "status_at t p \<noteq> None" by (simp add: alive_def status_at_def)
  with status_at_mark_exited [OF r, where now = now and exit_code = c] show ?thesis by (cases "q = p") auto
next
  case False
  then have "status_at t p \<in> {None, Some Exited}" by (auto simp: alive_def status_at_def split: option.splits)
  with mark_exited_idle [OF False] show ?thesis by auto
qed

lemma wait_drivers_Cons:
  "wait_drivers now wait ((p, d) # ds) t =
     wait_drivers now wait ds (case wait d of None \<Rightarrow> t | Some c \<Rightarrow> pt_mark_exited now p c t)"
  by (simp add: wait_drivers_def split: option.splits)

lemma wait_drivers_exited:
  "status_at t q = Some Exited \<Longrightarrow> status_at (wait_drivers now wait ds t) q = Some Exited"
proof (induction ds arbitrary: t)
  case (Cons x ds)
  obtain p d where x: "x = (p, d)" by fastforce
  have "status_at (case wait d of None \<Rightarrow> t | Some c \<Rightarrow> pt_mark_exited now p c t) q = Some Exited"
    using Cons.prems status_at_mark_exited_cases [of now p _ t q] by (auto split: option.splits)
  then show ?case unfolding x wait_drivers_Cons by (rule Cons.IH)
qed (simp add: wait_drivers_def)

lemma wait_drivers_waited:
  "status_at t q \<noteq> None \<Longrightarrow> (q, d) \<in> set ds \<Longrightarrow> wait d \<noteq> None \<Longrightarrow> status_at (wait_drivers now wait ds t) q = Some Exited"
proof (induction ds arbitrary: t)
  case (Cons x ds)
  obtain p d' where x: "x = (p, d')" by fastforce
  let ?t = "case wait d' of None \<Rightarrow> t | Some c \<Rightarrow> pt_mark_exited now p c t"
  have step: "status_at ?t q \<noteq> None \<and> (x = (q, d) \<longrightarrow> status_at ?t q = Some Exited)"
  proof (cases "wait d'")
    case (Some c)
    then show ?thesis
      using Cons.prems(1) status_at_mark_exited_cases [of now p c t q] by (auto simp: x split: if_splits)
  next
    case None
    then have "x \<noteq> (q, d)" using Cons.prems(3) x by auto
    then show ?thesis using None Cons.prems(1) by simp
  qed
  show ?case
    unfolding x wait_drivers_Cons
    using step Cons.IH [of ?t] Cons.prems(2,3) wait_drivers_exited by (cases "x = (q, d)") auto
qed simp

lemma wait_drivers_others:
  "\<forall>d. (q, d) \<in> set ds \<longrightarrow> wait d = None \<Longrightarrow> status_at (wait_drivers now wait ds t) q = status_at t q \<or>
     status_at t q = Some Stopped \<and> status_at (wait_drivers now wait ds t) q = Some Running"
proof (induction ds arbitrary: t)
  case (Cons x ds)
  obtain p d where x: "x = (p, d)" by fastforce
  let ?t = "case wait d of None \<Rightarrow> t | Some c \<Rightarrow> pt_mark_exited now p c t"
  have "p \<noteq> q \<or> wait d = None" using Cons.prems x by auto
  then have "status_at ?t q = status_at t q \<or> status_at t q = Some Stopped \<and> status_at ?t q = Some Running"
    using status_at_mark_exited_cases [of now p _ t q] by (cases "wait d") auto
  then show ?case
    unfolding x wait_drivers_Cons using Cons.IH [of ?t] Cons.prems by auto
qed (simp add: wait_drivers_def)

lemma status_at_kill_drivers [simp]: "status_at (kill_drivers signal ds t) q = status_at t q"
  by (simp add: status_at_def kill_drivers_def)

lemma in_running_drivers:
  assumes "table_ok t"
  shows "(q, d) \<in> set (running_drivers t) \<longleftrightarrow>
    (\<exists>r. bt_get (pt_entries t) q = Some r \<and> status_of r = Running \<and> r_driver_process r = d)"
proof -
  have own: "p_pid (r_entry r) = k" if "bt_get (pt_entries t) k = Some r" for k r
    using table_okD(1) [OF assms that] by (simp add: record_ok_def)
  have "(q, d) \<in> set (running_drivers t) \<longleftrightarrow> (\<exists>k r. bt_get (pt_entries t) k = Some r \<and> status_of r = Running \<and>
      p_pid (r_entry r) = q \<and> r_driver_process r = d)"
    unfolding running_drivers_def pt_records_def by (auto simp: in_bt_values_iff)
  with own show ?thesis by blast
qed

definition first_round :: "nat \<Rightarrow> (driver_handle \<Rightarrow> int option) \<Rightarrow> process_table \<Rightarrow> process_table" where
  "first_round now wait1 t = wait_drivers now wait1 (running_drivers t) (kill_drivers SIGTERM (running_drivers t)
     (t\<lparr>pt_terminating_all := True, pt_reaper := reaper_clear (pt_reaper t)\<rparr>))"

definition survivors :: "nat \<Rightarrow> (driver_handle \<Rightarrow> int option) \<Rightarrow> process_table \<Rightarrow> (u32 \<times> driver_handle) list" where
  "survivors now wait1 t = filter (still_running (first_round now wait1 t)) (running_drivers t)"

lemma status_at_terminate_all:
  "status_at (pt_terminate_all now wait1 wait2 t) q =
     status_at (wait_drivers now wait2 (survivors now wait1 t)
       (kill_drivers SIGKILL (survivors now wait1 t) (first_round now wait1 t))) q"
  by (simp add: pt_terminate_all_def Let_def first_round_def survivors_def status_at_def)

lemma status_at_first_round:
  "\<forall>d. (q, d) \<in> set (running_drivers t) \<longrightarrow> wait1 d = None \<Longrightarrow>
     status_at (first_round now wait1 t) q = status_at t q \<or>
     status_at t q = Some Stopped \<and> status_at (first_round now wait1 t) q = Some Running"
  "(q, d) \<in> set (running_drivers t) \<Longrightarrow> status_at t q \<noteq> None \<Longrightarrow> wait1 d \<noteq> None \<Longrightarrow>
     status_at (first_round now wait1 t) q = Some Exited"
proof -
  let ?t1 = "kill_drivers SIGTERM (running_drivers t) (t\<lparr>pt_terminating_all := True, pt_reaper := reaper_clear (pt_reaper t)\<rparr>)"
  have t1: "status_at ?t1 q = status_at t q" by (rule status_at_fields) (simp add: kill_drivers_def)
  show "status_at (first_round now wait1 t) q = status_at t q \<or>
      status_at t q = Some Stopped \<and> status_at (first_round now wait1 t) q = Some Running"
    if "\<forall>d. (q, d) \<in> set (running_drivers t) \<longrightarrow> wait1 d = None"
    using wait_drivers_others [OF that, of now ?t1] t1 unfolding first_round_def by simp
  show "status_at (first_round now wait1 t) q = Some Exited"
    if "(q, d) \<in> set (running_drivers t)" "status_at t q \<noteq> None" "wait1 d \<noteq> None"
    unfolding first_round_def by (rule wait_drivers_waited [of _ _ d]) (use that t1 in simp_all)
qed

lemma in_survivors:
  "(q, d) \<in> set (survivors now wait1 t) \<longleftrightarrow>
     (q, d) \<in> set (running_drivers t) \<and> status_at (first_round now wait1 t) q = Some Running"
  by (auto simp: survivors_def still_running_def status_at_def split: option.splits)

text \<open>
  C22. \<^verbatim>\<open>terminate_all\<close> leaves a running process exited if its driver reports an exit, after \<^verbatim>\<open>SIGTERM\<close> in the
  first round or after \<^verbatim>\<open>SIGKILL\<close> in the second.
\<close>

theorem terminate_all_exits_running:
  assumes "(pt_step careful)\<^sup>*\<^sup>* (process_table_with_ttl ttl) t" "bt_get (pt_entries t) pid = Some r"
    "p_status (r_entry r) = Running" "wait1 (r_driver_process r) \<noteq> None \<or> wait2 (r_driver_process r) \<noteq> None"
  shows "map_option p_status (pt_get (pt_terminate_all now wait1 wait2 t) pid) = Some Exited"
proof -
  have ok: "table_ok t" by (rule any_run.reachable_inv [OF assms(1)])
  let ?d = "r_driver_process r"
  have run: "status_at t pid = Some Running" "(pid, ?d) \<in> set (running_drivers t)"
    using assms(2,3) by (auto simp: in_running_drivers [OF ok] status_at_def status_of_def)
  have "status_at (pt_terminate_all now wait1 wait2 t) pid = Some Exited"
  proof (cases "wait1 ?d = None")
    case True
    then have "\<forall>d. (pid, d) \<in> set (running_drivers t) \<longrightarrow> wait1 d = None"
      using assms(2) by (auto simp: in_running_drivers [OF ok])
    from status_at_first_round(1) [OF this] run(1) have round: "status_at (first_round now wait1 t) pid = Some Running"
      by auto
    show ?thesis
      unfolding status_at_terminate_all
      by (rule wait_drivers_waited [of _ _ ?d]) (use True run(2) round assms(4) in \<open>simp_all add: in_survivors\<close>)
  next
    case False
    then have "status_at (first_round now wait1 t) pid = Some Exited"
      using status_at_first_round(2) [OF run(2)] run(1) by simp
    then show ?thesis unfolding status_at_terminate_all by (simp add: wait_drivers_exited)
  qed
  then show ?thesis by (auto simp: status_at_def pt_get_def status_of_def)
qed

lemma terminate_all_exits_running_witness:
  "map_option p_status (pt_get family 3) = Some Running \<and>
   map_option p_status (pt_get (pt_terminate_all 0 (\<lambda>_. None) (\<lambda>_. Some 137) family) 3) = Some Exited"
proof -
  have "map_option p_status (pt_get family 3) = Some Running" by code_simp
  then obtain r where r: "bt_get (pt_entries family) 3 = Some r" "p_status (r_entry r) = Running"
    by (auto simp: pt_get_def)
  from terminate_all_exits_running [OF family_reachable [of False] r, of "\<lambda>_. None" "\<lambda>_. Some 137" 0] r
  show ?thesis by (simp add: pt_get_def)
qed



end
