(* ===== verification/Glob.thy ===== *)
theory Glob
  imports Prelude
begin

text \<open>
  The matcher behind permission rules, \<^verbatim>\<open>permission_glob_matches\<close> of \<^verbatim>\<open>permissions.rs\<close>: a memoised
  backtracking search over byte indices. It is shown to decide the language of the pattern, in which
  \<open>?\<close> is one byte other than a slash, a single star a run of bytes without a slash, and two or more
  stars any run of bytes.
\<close>

subsection \<open>The program\<close>

type_synonym glob_memo = "nat \<times> nat \<Rightarrow> bool option"

definition star_run :: "string \<Rightarrow> nat \<Rightarrow> nat" where
  "star_run pattern i = i + length (takeWhile (\<lambda>c. c = CHR ''*'') (drop i pattern))"

lemma star_run_advances: "pi < length pattern \<Longrightarrow> pattern ! pi = CHR ''*'' \<Longrightarrow> pi < star_run pattern pi"
  by (cases "drop pi pattern") (auto simp: star_run_def nth_via_drop)

lemma star_run_le: "pi \<le> length pattern \<Longrightarrow> star_run pattern pi \<le> length pattern"
  using length_takeWhile_le [of "\<lambda>c. c = CHR ''*''" "drop pi pattern"] by (simp add: star_run_def)

text \<open>
  \<^verbatim>\<open>matches\<close> and the inner loop over \<^verbatim>\<open>next_value_index\<close>. The pattern index starts at 0 and is only
  advanced inside the pattern, so that the first test is the source's equality test. A match found in
  the loop returns without an entry in the memo.
\<close>

function glob_match :: "string \<Rightarrow> string \<Rightarrow> nat \<Rightarrow> nat \<Rightarrow> glob_memo \<Rightarrow> bool \<times> glob_memo"
  and glob_scan :: "string \<Rightarrow> string \<Rightarrow> bool \<Rightarrow> nat \<Rightarrow> nat \<Rightarrow> glob_memo \<Rightarrow> bool \<times> glob_memo" where
  "glob_match pattern val pi vi memo =
     (case memo (pi, vi) of
        Some result \<Rightarrow> (result, memo)
      | None \<Rightarrow>
          if length pattern \<le> pi then
            let result = (vi = length val) in (result, memo((pi, vi) \<mapsto> result))
          else if pattern ! pi = CHR ''?'' then
            let (result, memo') =
              (if vi < length val \<and> val ! vi \<noteq> CHR ''/''
               then glob_match pattern val (pi + 1) (vi + 1) memo else (False, memo))
            in (result, memo'((pi, vi) \<mapsto> result))
          else if pattern ! pi = CHR ''*'' then
            let next_pi = star_run pattern pi;
                (found, memo1) = glob_match pattern val next_pi vi memo
            in if found then (True, memo1((pi, vi) \<mapsto> True))
               else let (found2, memo2) = glob_scan pattern val (next_pi - pi > 1) next_pi vi memo1
                    in if found2 then (True, memo2) else (False, memo2((pi, vi) \<mapsto> False))
          else
            let (result, memo') =
              (if vi < length val \<and> pattern ! pi = val ! vi
               then glob_match pattern val (pi + 1) (vi + 1) memo else (False, memo))
            in (result, memo'((pi, vi) \<mapsto> result)))"
| "glob_scan pattern val crosses next_pi vi memo =
     (if vi < length val \<and> (crosses \<or> val ! vi \<noteq> CHR ''/'') then
        let (found, memo1) = glob_match pattern val next_pi (vi + 1) memo
        in if found then (True, memo1) else glob_scan pattern val crosses next_pi (vi + 1) memo1
      else (False, memo))"
  by pat_completeness auto

termination
proof (relation "measures [\<lambda>x. case x of Inl (p, v, pi, vi, m) \<Rightarrow> length p - pi | Inr (p, v, c, pi, vi, m) \<Rightarrow> length p - pi,
      \<lambda>x. case x of Inl (p, v, pi, vi, m) \<Rightarrow> 0 | Inr (p, v, c, pi, vi, m) \<Rightarrow> Suc (length v - vi)]", goal_cases)
  case (3 pattern val pi vi memo next_pi)
  then show ?case using star_run_advances [of pi pattern] by simp
next
  case (4 pattern val pi vi memo next_pi)
  then show ?case using star_run_advances [of pi pattern] by simp
qed auto

definition permission_glob_matches :: "string \<Rightarrow> string \<Rightarrow> bool" where
  "permission_glob_matches pattern val = fst (glob_match pattern val 0 0 Map.empty)"

subsection \<open>The language of a pattern\<close>

datatype glob_token = Byte char | AnyByte | Segment | AnyRun

function (sequential) glob_tokens :: "string \<Rightarrow> glob_token list" where
  "glob_tokens [] = []"
| "glob_tokens (c # cs) =
     (if c = CHR ''?'' then AnyByte # glob_tokens cs
      else if c = CHR ''*'' then
        (if cs \<noteq> [] \<and> hd cs = CHR ''*'' then AnyRun else Segment) # glob_tokens (dropWhile (\<lambda>c. c = CHR ''*'') cs)
      else Byte c # glob_tokens cs)"
  by pat_completeness auto
termination
  by (relation "measure length") (auto simp: le_imp_less_Suc length_dropWhile_le)

inductive in_glob :: "glob_token list \<Rightarrow> string \<Rightarrow> bool" where
  in_nil: "in_glob [] []"
| in_byte: "in_glob ts v \<Longrightarrow> in_glob (Byte c # ts) (c # v)"
| in_any: "c \<noteq> CHR ''/'' \<Longrightarrow> in_glob ts v \<Longrightarrow> in_glob (AnyByte # ts) (c # v)"
| in_segment: "CHR ''/'' \<notin> set u \<Longrightarrow> in_glob ts v \<Longrightarrow> in_glob (Segment # ts) (u @ v)"
| in_run: "in_glob ts v \<Longrightarrow> in_glob (AnyRun # ts) (u @ v)"

inductive_simps in_glob_simps [simp]:
  "in_glob [] v" "in_glob (Byte c # ts) v" "in_glob (AnyByte # ts) v" "in_glob (Segment # ts) v" "in_glob (AnyRun # ts) v"

text \<open>What \<^verbatim>\<open>matches\<close> computes at a pair of indices.\<close>

definition glob_at :: "string \<Rightarrow> string \<Rightarrow> nat \<Rightarrow> nat \<Rightarrow> bool" where
  "glob_at p v i j \<longleftrightarrow> in_glob (glob_tokens (drop i p)) (drop j v)"

lemma drop_star_run: "drop (star_run p i) p = dropWhile (\<lambda>c. c = CHR ''*'') (drop i p)"
  by (simp add: star_run_def dropWhile_eq_drop add.commute)

lemma glob_at_end: "length p \<le> i \<Longrightarrow> j \<le> length v \<Longrightarrow> glob_at p v i j \<longleftrightarrow> j = length v"
  by (auto simp: glob_at_def)

lemma glob_at_any:
  assumes "i < length p" "p ! i = CHR ''?''" "j \<le> length v"
  shows "glob_at p v i j \<longleftrightarrow> j < length v \<and> v ! j \<noteq> CHR ''/'' \<and> glob_at p v (i + 1) (j + 1)"
proof (cases "j < length v")
  case True
  then have "drop j v = v ! j # drop (j + 1) v" by (simp add: Cons_nth_drop_Suc)
  with assms True show ?thesis by (simp add: glob_at_def Cons_nth_drop_Suc [symmetric])
qed (use assms in \<open>simp add: glob_at_def Cons_nth_drop_Suc [symmetric]\<close>)

lemma glob_at_byte:
  assumes "i < length p" "p ! i \<noteq> CHR ''?''" "p ! i \<noteq> CHR ''*''" "j \<le> length v"
  shows "glob_at p v i j \<longleftrightarrow> j < length v \<and> p ! i = v ! j \<and> glob_at p v (i + 1) (j + 1)"
proof (cases "j < length v")
  case True
  then have "drop j v = v ! j # drop (j + 1) v" by (simp add: Cons_nth_drop_Suc)
  with assms True show ?thesis by (auto simp: glob_at_def Cons_nth_drop_Suc [symmetric])
qed (use assms in \<open>simp add: glob_at_def Cons_nth_drop_Suc [symmetric]\<close>)

lemma split_at_index:
  "j \<le> length v \<Longrightarrow> (\<exists>u w. drop j v = u @ w \<and> Q u \<and> R w) \<longleftrightarrow>
     (\<exists>k. j \<le> k \<and> k \<le> length v \<and> Q (take (k - j) (drop j v)) \<and> R (drop k v))"
proof
  assume "j \<le> length v" "\<exists>u w. drop j v = u @ w \<and> Q u \<and> R w"
  then obtain u w where uw: "drop j v = u @ w" "Q u" "R w" by blast
  have "drop (j + length u) v = w" using uw(1) by (metis add.commute append_eq_conv_conj drop_drop)
  moreover have "take (j + length u - j) (drop j v) = u" using uw(1) by simp
  moreover have "length v - j = length u + length w" using uw(1) by (metis length_append length_drop)
  then have "j + length u \<le> length v" using \<open>j \<le> length v\<close> by simp
  ultimately show "\<exists>k. j \<le> k \<and> k \<le> length v \<and> Q (take (k - j) (drop j v)) \<and> R (drop k v)"
    using uw(2,3) by (intro exI [of _ "j + length u"]) simp
next
  assume "\<exists>k. j \<le> k \<and> k \<le> length v \<and> Q (take (k - j) (drop j v)) \<and> R (drop k v)"
  then obtain k where k: "j \<le> k" "Q (take (k - j) (drop j v))" "R (drop k v)" by blast
  have "drop k v = drop (k - j) (drop j v)" using k(1) by simp
  then have "drop j v = take (k - j) (drop j v) @ drop k v" by (metis append_take_drop_id)
  with k(2,3) show "\<exists>u w. drop j v = u @ w \<and> Q u \<and> R w" by blast
qed

lemma glob_at_star:
  assumes "i < length p" "p ! i = CHR ''*''" "j \<le> length v"
  shows "glob_at p v i j \<longleftrightarrow> (\<exists>k. j \<le> k \<and> k \<le> length v \<and>
      (star_run p i - i > 1 \<or> CHR ''/'' \<notin> set (take (k - j) (drop j v))) \<and> glob_at p v (star_run p i) k)"
proof -
  let ?rest = "drop (Suc i) p"
  have d: "drop i p = CHR ''*'' # ?rest" using assms(1,2) by (simp add: Cons_nth_drop_Suc [symmetric])
  have after: "dropWhile (\<lambda>c. c = CHR ''*'') ?rest = drop (star_run p i) p"
    unfolding drop_star_run d by simp
  have many: "star_run p i - i > 1 \<longleftrightarrow> ?rest \<noteq> [] \<and> hd ?rest = CHR ''*''"
    unfolding star_run_def d by (cases ?rest) auto
  have "glob_at p v i j \<longleftrightarrow> (\<exists>u w. drop j v = u @ w \<and>
      (star_run p i - i > 1 \<or> CHR ''/'' \<notin> set u) \<and> in_glob (glob_tokens (drop (star_run p i) p)) w)"
    unfolding glob_at_def d many [symmetric] glob_tokens.simps after by (auto simp flip: many)
  also have "\<dots> \<longleftrightarrow> (\<exists>k. j \<le> k \<and> k \<le> length v \<and>
      (star_run p i - i > 1 \<or> CHR ''/'' \<notin> set (take (k - j) (drop j v))) \<and> glob_at p v (star_run p i) k)"
    unfolding glob_at_def using split_at_index [OF assms(3)] by (simp add: conj_assoc)
  finally show ?thesis .
qed

subsection \<open>The matcher decides the language\<close>

text \<open>Every entry of the memo is the answer at its indices.\<close>

definition memo_ok :: "string \<Rightarrow> string \<Rightarrow> glob_memo \<Rightarrow> bool" where
  "memo_ok p v memo \<longleftrightarrow> (\<forall>i j b. memo (i, j) = Some b \<and> j \<le> length v \<longrightarrow> b = glob_at p v i j)"

lemma memo_ok_update:
  assumes "memo_ok p v memo" "j \<le> length v \<longrightarrow> b = glob_at p v i j"
  shows "memo_ok p v (memo((i, j) \<mapsto> b))" "memo_ok p v (\<lambda>k. if k = (i, j) then Some b else memo k)"
  using assms by (simp_all add: memo_ok_def)

definition scan_at :: "string \<Rightarrow> string \<Rightarrow> bool \<Rightarrow> nat \<Rightarrow> nat \<Rightarrow> bool" where
  "scan_at p v crosses i j \<longleftrightarrow> (\<exists>k. j < k \<and> k \<le> length v \<and>
     (crosses \<or> CHR ''/'' \<notin> set (take (k - j) (drop j v))) \<and> glob_at p v i k)"

lemma scan_at_step:
  assumes "j \<le> length v"
  shows "scan_at p v crosses i j \<longleftrightarrow> j < length v \<and> (crosses \<or> v ! j \<noteq> CHR ''/'') \<and>
    (glob_at p v i (j + 1) \<or> scan_at p v crosses i (j + 1))"
proof (cases "j < length v")
  case True
  have t: "take (k - j) (drop j v) = v ! j # take (k - Suc j) (drop (Suc j) v)" if "j < k" for k
    using True that by (simp add: Cons_nth_drop_Suc [symmetric] take_Cons' Suc_diff_Suc)
  have "scan_at p v crosses i j \<longleftrightarrow> (\<exists>k. j < k \<and> k \<le> length v \<and>
      (crosses \<or> v ! j \<noteq> CHR ''/'' \<and> CHR ''/'' \<notin> set (take (k - Suc j) (drop (Suc j) v))) \<and> glob_at p v i k)"
    unfolding scan_at_def using t by auto
  also have "\<dots> \<longleftrightarrow> (crosses \<or> v ! j \<noteq> CHR ''/'') \<and> (\<exists>k. Suc j \<le> k \<and> k \<le> length v \<and>
      (crosses \<or> CHR ''/'' \<notin> set (take (k - Suc j) (drop (Suc j) v))) \<and> glob_at p v i k)"
    by (auto simp: Suc_le_eq)
  also have "(\<exists>k. Suc j \<le> k \<and> k \<le> length v \<and>
      (crosses \<or> CHR ''/'' \<notin> set (take (k - Suc j) (drop (Suc j) v))) \<and> glob_at p v i k) \<longleftrightarrow>
      glob_at p v i (Suc j) \<or> scan_at p v crosses i (Suc j)"
    unfolding scan_at_def using True by (auto simp: Suc_le_eq le_less)
  finally show ?thesis using True by simp
qed (simp add: scan_at_def)

lemma glob_at_star_scan:
  assumes "i < length p" "p ! i = CHR ''*''" "j \<le> length v"
  shows "glob_at p v i j \<longleftrightarrow>
    glob_at p v (star_run p i) j \<or> scan_at p v (star_run p i - i > 1) (star_run p i) j"
  unfolding glob_at_star [OF assms] scan_at_def using assms(3) by (auto simp: le_less)

declare glob_match.simps [simp del] glob_scan.simps [simp del]

lemma glob_match_correct:
  "vi \<le> length v \<Longrightarrow> memo_ok p v memo \<Longrightarrow>
     fst (glob_match p v pi vi memo) = glob_at p v pi vi \<and> memo_ok p v (snd (glob_match p v pi vi memo))"
  "vi \<le> length v \<Longrightarrow> memo_ok p v memo \<Longrightarrow>
     fst (glob_scan p v crosses pi vi memo) = scan_at p v crosses pi vi \<and>
     memo_ok p v (snd (glob_scan p v crosses pi vi memo))"
proof (induction p v pi vi memo and p v crosses pi vi memo rule: glob_match_glob_scan.induct)
  case (1 p v pi vi memo)
  note unfold = glob_match.simps [of p v pi vi memo]
  show ?case
  proof (cases "memo (pi, vi)")
    case (Some result)
    then show ?thesis using 1(5,6) by (auto simp: unfold memo_ok_def)
  next
    case None
    consider (finish) "length p \<le> pi" | (any) "pi < length p" "p ! pi = CHR ''?''" | (star) "pi < length p" "p ! pi = CHR ''*''"
      | (byte) "pi < length p" "p ! pi \<noteq> CHR ''?''" "p ! pi \<noteq> CHR ''*''" by fastforce
    then show ?thesis
    proof cases
      case finish
      then show ?thesis using None 1(5,6) by (auto simp: unfold glob_at_end memo_ok_def Let_def)
    next
      case any
      show ?thesis
      proof (cases "vi < length v \<and> v ! vi \<noteq> CHR ''/''")
        case True
        with 1(1) [OF None] any 1(6)
        have "fst (glob_match p v (pi + 1) (vi + 1) memo) = glob_at p v (pi + 1) (vi + 1)"
          "memo_ok p v (snd (glob_match p v (pi + 1) (vi + 1) memo))" by auto
        with True None any 1(5) show ?thesis
          by (cases "glob_match p v (pi + 1) (vi + 1) memo") (simp add: unfold glob_at_any memo_ok_update)
      next
        case False
        with None any 1(5,6) show ?thesis by (auto simp: unfold glob_at_any memo_ok_update)
      qed
    next
      case byte
      show ?thesis
      proof (cases "vi < length v \<and> p ! pi = v ! vi")
        case True
        with 1(4) [OF None] byte 1(6)
        have "fst (glob_match p v (pi + 1) (vi + 1) memo) = glob_at p v (pi + 1) (vi + 1)"
          "memo_ok p v (snd (glob_match p v (pi + 1) (vi + 1) memo))" by auto
        with True None byte 1(5) show ?thesis
          by (cases "glob_match p v (pi + 1) (vi + 1) memo") (simp add: unfold glob_at_byte memo_ok_update)
      next
        case False
        with None byte 1(5,6) show ?thesis by (auto simp: unfold glob_at_byte memo_ok_update)
      qed
    next
      case star
      let ?n = "star_run p pi"
      obtain found memo1 where m: "glob_match p v ?n vi memo = (found, memo1)" by fastforce
      have first: "found = glob_at p v ?n vi" "memo_ok p v memo1"
        using 1(2) [OF None _ _ _ refl] star 1(5,6) m by auto
      show ?thesis
      proof (cases found)
        case True
        with None star m first 1(5) show ?thesis by (simp add: unfold glob_at_star_scan memo_ok_update Let_def)
      next
        case False
        obtain found2 memo2 where m2: "glob_scan p v (?n - pi > 1) ?n vi memo1 = (found2, memo2)" by fastforce
        have "found2 = scan_at p v (?n - pi > 1) ?n vi" "memo_ok p v memo2"
          using 1(3) [OF None _ _ _ refl m [symmetric] refl] star 1(5) first False m2 by auto
        with None star m m2 False first 1(5) show ?thesis
          by (simp add: unfold glob_at_star_scan memo_ok_update Let_def)
      qed
    qed
  qed
next
  case (2 p v crosses pi vi memo)
  note unfold = glob_scan.simps [of p v crosses pi vi memo]
  show ?case
  proof (cases "vi < length v \<and> (crosses \<or> v ! vi \<noteq> CHR ''/'')")
    case True
    obtain found memo1 where m: "glob_match p v pi (vi + 1) memo = (found, memo1)" by fastforce
    have first: "found = glob_at p v pi (vi + 1)" "memo_ok p v memo1"
      using 2(1) [OF True] True 2(4) m by auto
    show ?thesis
    proof (cases found)
      case True': True
      with True m first 2(3) scan_at_step [of vi v p crosses pi] show ?thesis by (simp add: unfold)
    next
      case False
      with True m first 2(3) scan_at_step [of vi v p crosses pi] 2(2) [OF True m [symmetric] refl] show ?thesis by (simp add: unfold)
    qed
  next
    case False
    then show ?thesis using 2(3,4) scan_at_step [of vi v p crosses pi] by (auto simp: unfold)
  qed
qed

text \<open>
  C24. \<^verbatim>\<open>permission_glob_matches\<close> decides whether the value is in the language of the pattern: the
  memoised search neither misses a split nor accepts a path across a slash that a single star or a
  question mark must not cross.
\<close>

theorem glob_matches_language:
  "permission_glob_matches pattern val \<longleftrightarrow> in_glob (glob_tokens pattern) val"
  using glob_match_correct(1) [of 0 val pattern Map.empty 0]
  by (simp add: permission_glob_matches_def glob_at_def memo_ok_def)

end
