(* ===== verification/Vfs_Path.thy ===== *)
theory Vfs_Path
  imports Prelude
begin

text \<open>
  Paths as \<^verbatim>\<open>vfs.rs\<close> treats them: validation, normalisation, parents. A string is its sequence of bytes.
  Normalised paths are shown to be the rendering of lists of proper names, so that normalising is a
  projection and never leaves the root.
\<close>

subsection \<open>Splitting and joining\<close>

text \<open>\<^verbatim>\<open>str::split('/')\<close> and \<^verbatim>\<open>join("/")\<close>.\<close>

fun split_slash :: "string \<Rightarrow> string list" where
  "split_slash [] = [[]]"
| "split_slash (c # cs) =
     (if c = CHR ''/'' then [] # split_slash cs
      else case split_slash cs of [] \<Rightarrow> [[c]] | p # ps \<Rightarrow> (c # p) # ps)"

fun join_slash :: "string list \<Rightarrow> string" where
  "join_slash [] = []"
| "join_slash [p] = p"
| "join_slash (p # ps) = p @ CHR ''/'' # join_slash ps"

subsection \<open>Normalisation\<close>

fun resolve_parts :: "string list \<Rightarrow> string list \<Rightarrow> string list" where
  "resolve_parts resolved [] = resolved"
| "resolve_parts resolved (part # parts) =
     (if part = [] \<or> part = ''.'' then resolve_parts resolved parts
      else if part = ''..'' then resolve_parts (butlast resolved) parts
      else resolve_parts (resolved @ [part]) parts)"

definition normalize_path :: "string \<Rightarrow> string" where
  "normalize_path path =
     (if path = [] then ''/''
      else
        let candidate = (if hd path = CHR ''/'' then path else CHR ''/'' # path);
            resolved = resolve_parts [] (split_slash candidate)
        in if resolved = [] then ''/'' else CHR ''/'' # join_slash resolved)"

definition dirname :: "string \<Rightarrow> string" where
  "dirname path =
     (let normalized = normalize_path path;
          head = rev (tl (dropWhile (\<lambda>c. c \<noteq> CHR ''/'') (rev normalized)))
      in if head = [] then ''/'' else head)"

definition components :: "string \<Rightarrow> string list" where
  "components path = filter (\<lambda>part. part \<noteq> []) (split_slash path)"

text \<open>\<^verbatim>\<open>format!\<close> of a directory and a name, without a second slash after the root.\<close>

definition child_path :: "string \<Rightarrow> string \<Rightarrow> string" where
  "child_path parent name = (if parent = ''/'' then CHR ''/'' # name else parent @ CHR ''/'' # name)"

subsection \<open>Validation\<close>

definition MAX_PATH_LENGTH :: nat where
  "MAX_PATH_LENGTH = 4096"

definition is_ascii_control :: "char \<Rightarrow> bool" where
  "is_ascii_control c \<longleftrightarrow> (of_char c :: nat) < 32 \<or> (of_char c :: nat) = 127"

definition vfs_path_too_long :: "string \<Rightarrow> sys_error" where
  "vfs_path_too_long path = SysError ENAMETOOLONG (''file name too long: '' @ path)"

definition vfs_invalid_input :: "string \<Rightarrow> sys_error" where
  "vfs_invalid_input msg = SysError EINVAL msg"

definition hex2 :: "nat \<Rightarrow> string" where
  "hex2 n = (let d = show_base 16 n in if length d < 2 then CHR ''0'' # d else d)"

definition validate_path :: "string \<Rightarrow> unit result" where
  "validate_path path =
     (if CHR 0x00 \<in> set path then Inl (vfs_invalid_input ''path contains NUL byte'')
      else case find (\<lambda>c. is_ascii_control c \<and> c \<noteq> CHR 0x00) path of
        Some c \<Rightarrow> Inl (vfs_invalid_input (''path contains control character byte 0x'' @ hex2 (of_char c)))
      | None \<Rightarrow>
          if length (normalize_path path) > MAX_PATH_LENGTH then Inl (vfs_path_too_long path) else Inr ())"

subsection \<open>Names and rendered paths\<close>

definition proper_name :: "string \<Rightarrow> bool" where
  "proper_name n \<longleftrightarrow> n \<noteq> [] \<and> CHR ''/'' \<notin> set n \<and> n \<noteq> ''.'' \<and> n \<noteq> ''..''"

definition render :: "string list \<Rightarrow> string" where
  "render names = (if names = [] then ''/'' else concat (map (\<lambda>n. CHR ''/'' # n) names))"

lemma split_slash_not_Nil [simp]: "split_slash s \<noteq> []"
  by (cases s) (auto split: list.splits)

lemma no_slash_in_split: "n \<in> set (split_slash s) \<Longrightarrow> CHR ''/'' \<notin> set n"
  by (induction s arbitrary: n) (auto split: if_splits list.splits)

lemma split_slash_name: "CHR ''/'' \<notin> set n \<Longrightarrow> split_slash n = [n]"
  by (induction n) auto

lemma split_slash_append: "CHR ''/'' \<notin> set n \<Longrightarrow> split_slash (n @ CHR ''/'' # s) = n # split_slash s"
  by (induction n) auto

lemma join_slash_render:
  "ps \<noteq> [] \<Longrightarrow> CHR ''/'' # join_slash ps = render ps"
  by (induction ps rule: join_slash.induct) (auto simp: render_def)

lemma split_render:
  "\<forall>n \<in> set ps. CHR ''/'' \<notin> set n \<Longrightarrow> ps \<noteq> [] \<Longrightarrow> split_slash (render ps) = [] # ps"
proof (induction ps rule: join_slash.induct)
  case (2 p)
  then show ?case by (simp add: render_def split_slash_name)
next
  case (3 p q ps)
  then have "split_slash (join_slash (q # ps)) = q # ps"
    by (metis join_slash_render list.discI list.inject list.set_intros(2) split_slash.simps(2))
  with 3 show ?case
    by (simp add: join_slash_render [symmetric] split_slash_append)
qed simp

lemma resolve_parts_proper:
  "\<forall>n \<in> set resolved. proper_name n \<Longrightarrow> \<forall>n \<in> set parts. CHR ''/'' \<notin> set n \<Longrightarrow>
     \<forall>n \<in> set (resolve_parts resolved parts). proper_name n"
proof (induction resolved parts rule: resolve_parts.induct)
  case (2 resolved part parts)
  have tail: "\<forall>n \<in> set parts. CHR ''/'' \<notin> set n" using 2(5) by simp
  consider (skip) "part = [] \<or> part = ''.''" | (up) "\<not> (part = [] \<or> part = ''.'')" "part = ''..''"
    | (name) "\<not> (part = [] \<or> part = ''.'')" "part \<noteq> ''..''" by blast
  then show ?case
  proof cases
    case skip
    show ?thesis using 2(1) [OF skip 2(4) tail] skip by (simp only: resolve_parts.simps if_True)
  next
    case up
    have "\<forall>n \<in> set (butlast resolved). proper_name n" using 2(4) by (metis in_set_butlastD)
    from 2(2) [OF up this tail] up show ?thesis by simp
  next
    case name
    have "\<forall>n \<in> set (resolved @ [part]). proper_name n"
      using 2(4,5) name by (auto simp: proper_name_def)
    from 2(3) [OF name this tail] name show ?thesis by (simp only: resolve_parts.simps if_False)
  qed
qed simp

lemma resolve_parts_names:
  "\<forall>n \<in> set parts. proper_name n \<Longrightarrow> resolve_parts resolved parts = resolved @ parts"
  by (induction resolved parts rule: resolve_parts.induct) (auto simp: proper_name_def)

definition normal_names :: "string \<Rightarrow> string list" where
  "normal_names path = resolve_parts [] (split_slash path)"

lemma normal_names_proper: "n \<in> set (normal_names path) \<Longrightarrow> proper_name n"
  unfolding normal_names_def using resolve_parts_proper [of "[]" "split_slash path"] no_slash_in_split by auto

lemma normalize_path_render: "normalize_path path = render (normal_names path)"
proof -
  have "resolve_parts [] (split_slash (if hd path = CHR ''/'' then path else CHR ''/'' # path)) = normal_names path"
    by (simp add: normal_names_def)
  then show ?thesis
    by (simp add: normalize_path_def Let_def join_slash_render) (auto simp: render_def normal_names_def)
qed

lemma render_not_Nil [simp]: "render ns \<noteq> []"
  by (simp add: render_def)

lemma components_render: "\<forall>n \<in> set ns. proper_name n \<Longrightarrow> components (render ns) = ns"
proof (cases "ns = []")
  case False
  assume p: "\<forall>n \<in> set ns. proper_name n"
  then have "split_slash (render ns) = [] # ns"
    using False by (intro split_render) (auto simp: proper_name_def)
  moreover have "filter (\<lambda>part. part \<noteq> []) ns = ns"
    using p by (auto simp: filter_id_conv proper_name_def)
  ultimately show ?thesis by (simp add: components_def)
qed (simp add: components_def render_def)

lemma normal_names_render: "\<forall>n \<in> set ns. proper_name n \<Longrightarrow> normal_names (render ns) = ns"
proof (cases "ns = []")
  case False
  assume p: "\<forall>n \<in> set ns. proper_name n"
  then have "split_slash (render ns) = [] # ns"
    using False by (intro split_render) (auto simp: proper_name_def)
  then show ?thesis using resolve_parts_names [OF p, of "[]"] by (simp add: normal_names_def)
qed (simp add: normal_names_def render_def)

lemma normalize_render: "\<forall>n \<in> set ns. proper_name n \<Longrightarrow> normalize_path (render ns) = render ns"
  by (simp add: normalize_path_render normal_names_render)

lemma render_inject:
  "\<forall>n \<in> set ns. proper_name n \<Longrightarrow> \<forall>n \<in> set ms. proper_name n \<Longrightarrow> render ns = render ms \<longleftrightarrow> ns = ms"
  by (metis components_render)

lemma render_root_iff: "[] \<notin> set ns \<Longrightarrow> render ns = ''/'' \<longleftrightarrow> ns = []"
  by (cases ns) (auto simp: render_def)

lemma render_snoc: "[] \<notin> set ns \<Longrightarrow> render (ns @ [n]) = (if ns = [] then [] else render ns) @ CHR ''/'' # n"
  by (simp add: render_def)

lemma child_path_render: "[] \<notin> set ns \<Longrightarrow> child_path (render ns) n = render (ns @ [n])"
  by (simp add: child_path_def render_root_iff render_snoc)

lemma dirname_render:
  assumes "\<forall>m \<in> set ns. proper_name m" "proper_name n"
  shows "dirname (render (ns @ [n])) = render ns"
proof -
  have "normalize_path (render (ns @ [n])) = render (ns @ [n])"
    using assms by (intro normalize_render) auto
  moreover have "rev (render (ns @ [n])) = rev n @ CHR ''/'' # rev (if ns = [] then [] else render ns)"
    using assms by (subst render_snoc) (auto simp: proper_name_def)
  moreover have "dropWhile (\<lambda>c. c \<noteq> CHR ''/'') (rev n @ CHR ''/'' # s) = CHR ''/'' # s" for s
    using assms(2) by (auto simp: proper_name_def dropWhile_append)
  ultimately show ?thesis
    by (simp add: dirname_def Let_def) (simp add: render_def)
qed

lemma dirname_root [simp]: "dirname ''/'' = ''/''"
  by (simp add: dirname_def normalize_path_def)

text \<open>
  C32. A normalized path is the root or a list of proper names, each after a slash: none is empty, \<^verbatim>\<open>.\<close>
  or \<^verbatim>\<open>..\<close>, whatever the caller passed, so no path leads out of the root. Normalizing again changes
  nothing, and splitting it gives the names back.
\<close>

theorem normalize_path_canonical:
  "\<exists>ns. (\<forall>n \<in> set ns. proper_name n) \<and>
     normalize_path path = (if ns = [] then ''/'' else concat (map (\<lambda>n. ''/'' @ n) ns)) \<and>
     components (normalize_path path) = ns \<and> normalize_path (normalize_path path) = normalize_path path"
proof (intro exI [of _ "normal_names path"] conjI)
  show "normalize_path path = (if normal_names path = [] then ''/'' else concat (map (\<lambda>n. ''/'' @ n) (normal_names path)))"
    by (simp add: normalize_path_render render_def)
qed (simp_all add: normal_names_proper normalize_path_render components_render normalize_render normal_names_render)

theorem normalize_path_canonical_witness:
  "normalize_path ''a//../../b/./c'' = ''/b/c'' \<and>
   (\<exists>ns. (\<forall>n \<in> set ns. proper_name n) \<and> components ''/b/c'' = ns)"
proof -
  have "normalize_path ''a//../../b/./c'' = ''/b/c''" by code_simp
  then show ?thesis using normalize_path_canonical [of "''a//../../b/./c''"] by auto
qed

end
