(* ===== verification/Memory_Fs.thy ===== *)
theory Memory_Fs
  imports Vfs_Path BTree_Map
begin

text \<open>
  The in-memory file system of \<^verbatim>\<open>vfs.rs\<close>: an index from normalised paths to inode numbers and a table
  of inodes. Operations of the \<^verbatim>\<open>VirtualFileSystem\<close> trait return a result and the new file system; the
  clock is an argument, read once per operation. The \<^verbatim>\<open>expect\<close> calls on the inode table are branches
  with the error \<open>PANIC\<close>. Inode numbers and link counts, 64-bit counters that move by one per operation,
  are natural numbers.
\<close>

subsection \<open>Constants and errors\<close>

definition S_IFREG :: u32 where
  "S_IFREG = 0x8000"

definition S_IFDIR :: u32 where
  "S_IFDIR = 0x4000"

definition S_IFLNK :: u32 where
  "S_IFLNK = 0xA000"

definition MEMORY_FILESYSTEM_DEVICE_ID :: u64 where
  "MEMORY_FILESYSTEM_DEVICE_ID = 1"

definition DEFAULT_UID :: u32 where
  "DEFAULT_UID = 1000"

definition DEFAULT_GID :: u32 where
  "DEFAULT_GID = 1000"

definition DIRECTORY_SIZE :: u64 where
  "DIRECTORY_SIZE = 4096"

definition MAX_SYMLINK_DEPTH :: nat where
  "MAX_SYMLINK_DEPTH = 40"

definition quoted :: "string \<Rightarrow> string" where
  "quoted s = CHR 0x27 # s @ [CHR 0x27]"

definition vfs_not_found :: "string \<Rightarrow> string \<Rightarrow> sys_error" where
  "vfs_not_found op path = SysError ENOENT (''no such file or directory, '' @ op @ '' '' @ quoted path)"

definition vfs_already_exists :: "string \<Rightarrow> string \<Rightarrow> sys_error" where
  "vfs_already_exists op path = SysError EEXIST (''file already exists, '' @ op @ '' '' @ quoted path)"

definition vfs_is_directory :: "string \<Rightarrow> string \<Rightarrow> sys_error" where
  "vfs_is_directory op path = SysError EISDIR (''illegal operation on a directory, '' @ op @ '' '' @ quoted path)"

definition vfs_not_directory :: "string \<Rightarrow> string \<Rightarrow> sys_error" where
  "vfs_not_directory op path = SysError ENOTDIR (''not a directory, '' @ op @ '' '' @ quoted path)"

definition vfs_not_empty :: "string \<Rightarrow> sys_error" where
  "vfs_not_empty path = SysError ENOTEMPTY (''directory not empty, rmdir '' @ quoted path)"

definition vfs_permission_denied :: "string \<Rightarrow> string \<Rightarrow> sys_error" where
  "vfs_permission_denied op path = SysError EPERM (''operation not permitted, '' @ op @ '' '' @ quoted path)"

definition vfs_access_denied :: "string \<Rightarrow> string \<Rightarrow> string option \<Rightarrow> sys_error" where
  "vfs_access_denied op path reason =
     SysError EACCES (''permission denied, '' @ op @ '' '' @ quoted path @
       (case reason of None \<Rightarrow> [] | Some r \<Rightarrow> '': '' @ r))"

definition vfs_symlink_loop :: "string \<Rightarrow> sys_error" where
  "vfs_symlink_loop path = SysError ELOOP (''too many levels of symbolic links, '' @ quoted path)"

definition panic :: "string \<Rightarrow> sys_error" where
  "panic msg = SysError PANIC msg"

definition dangling_index :: sys_error where
  "dangling_index = panic ''path index should always point at a valid inode''"

subsection \<open>State\<close>

type_synonym inode_id = nat

record virtual_time_spec =
  ts_sec :: int
  ts_nsec :: u32

datatype virtual_utime_spec = UtimeSet virtual_time_spec | UtimeNow | UtimeOmit

record metadata =
  m_mode :: u32
  m_uid :: u32
  m_gid :: u32
  m_nlink :: nat
  m_ino :: inode_id
  m_atime_ms :: u64
  m_atime_nsec :: u32
  m_mtime_ms :: u64
  m_mtime_nsec :: u32
  m_ctime_ms :: u64
  m_ctime_nsec :: u32
  m_birthtime_ms :: u64

datatype inode_kind = File bytes | Directory | SymbolicLink string

record inode =
  i_metadata :: metadata
  i_kind :: inode_kind

record memory_fs =
  path_index :: "(string, inode_id) btree"
  inodes :: "(inode_id, inode) btree"
  next_ino :: inode_id

record virtual_dir_entry =
  de_name :: string
  de_is_directory :: bool
  de_is_symbolic_link :: bool

record virtual_stat =
  st_mode :: u32
  st_size :: u64
  st_blocks :: u64
  st_dev :: u64
  st_rdev :: u64
  st_is_directory :: bool
  st_is_symbolic_link :: bool
  st_atime_ms :: u64
  st_atime_nsec :: u32
  st_mtime_ms :: u64
  st_mtime_nsec :: u32
  st_ctime_ms :: u64
  st_ctime_nsec :: u32
  st_birthtime_ms :: u64
  st_ino :: inode_id
  st_nlink :: nat
  st_uid :: u32
  st_gid :: u32

definition is_symlink :: "inode \<Rightarrow> bool" where
  "is_symlink i = (case i_kind i of SymbolicLink _ \<Rightarrow> True | _ \<Rightarrow> False)"

definition update_inode :: "inode_id \<Rightarrow> (inode \<Rightarrow> inode) \<Rightarrow> memory_fs \<Rightarrow> memory_fs" where
  "update_inode ino f fs = fs\<lparr>inodes := bt_modify ino f (inodes fs)\<rparr>"

definition update_metadata :: "(metadata \<Rightarrow> metadata) \<Rightarrow> inode \<Rightarrow> inode" where
  "update_metadata f i = i\<lparr>i_metadata := f (i_metadata i)\<rparr>"

definition index_path :: "string \<Rightarrow> inode_id \<Rightarrow> memory_fs \<Rightarrow> memory_fs" where
  "index_path path ino fs = fs\<lparr>path_index := bt_insert path ino (path_index fs)\<rparr>"

definition unindex_path :: "string \<Rightarrow> memory_fs \<Rightarrow> memory_fs" where
  "unindex_path path fs = fs\<lparr>path_index := bt_remove path (path_index fs)\<rparr>"

definition starts_with :: "string \<Rightarrow> string \<Rightarrow> bool" where
  "starts_with s p \<longleftrightarrow> take (length p) s = p"

definition allocate_inode :: "u64 \<Rightarrow> inode_kind \<Rightarrow> u32 \<Rightarrow> memory_fs \<Rightarrow> inode_id \<times> memory_fs" where
  "allocate_inode now kind mode fs =
     (let ino = next_ino fs;
          nlink = (if kind = Directory then 2 else 1);
          inode = \<lparr>i_metadata = \<lparr>m_mode = mode, m_uid = DEFAULT_UID, m_gid = DEFAULT_GID, m_nlink = nlink, m_ino = ino,
              m_atime_ms = now, m_atime_nsec = 0, m_mtime_ms = now, m_mtime_nsec = 0,
              m_ctime_ms = now, m_ctime_nsec = 0, m_birthtime_ms = now\<rparr>, i_kind = kind\<rparr>
      in (ino, fs\<lparr>next_ino := next_ino fs + 1, inodes := bt_insert ino inode (inodes fs)\<rparr>))"

definition memory_fs_new :: "u64 \<Rightarrow> memory_fs" where
  "memory_fs_new now =
     (let (root_ino, fs) = allocate_inode now Directory (S_IFDIR OR 0x1ED)
            \<lparr>path_index = bt_empty, inodes = bt_empty, next_ino = 1\<rparr>
      in index_path ''/'' root_ino fs)"

subsection \<open>Resolving paths\<close>

text \<open>
  The loop of \<^verbatim>\<open>resolve_path_with_options\<close> over the components ends at a path, at a symbolic link that
  is followed, or with an error.
\<close>

datatype walk_result = Reached string | Redirected string | Walk_Error sys_error

definition redirect :: "string \<Rightarrow> string \<Rightarrow> string list \<Rightarrow> string" where
  "redirect candidate target rest =
     (let target_path = (if starts_with target ''/'' then target
                         else normalize_path (dirname candidate @ ''/'' @ target));
          remainder = join_slash rest
      in if remainder = [] then target_path else normalize_path (target_path @ ''/'' @ remainder))"

fun walk :: "memory_fs \<Rightarrow> bool \<Rightarrow> string \<Rightarrow> string list \<Rightarrow> walk_result" where
  "walk fs follow_final current [] = Reached current"
| "walk fs follow_final current (component # rest) =
     (let candidate = child_path current component;
          is_final = (rest = []);
          should_follow = (\<not> is_final \<or> follow_final)
      in case bt_get (path_index fs) candidate of
           None \<Rightarrow> walk fs follow_final candidate rest
         | Some ino \<Rightarrow>
             (case bt_get (inodes fs) ino of
                None \<Rightarrow> Walk_Error dangling_index
              | Some inode \<Rightarrow>
                  (case (should_follow, i_kind inode) of
                     (True, SymbolicLink target) \<Rightarrow> Redirected (redirect candidate target rest)
                   | _ \<Rightarrow>
                       if \<not> is_final \<and> i_kind inode \<noteq> Directory
                       then Walk_Error (vfs_not_directory ''stat'' candidate)
                       else walk fs follow_final candidate rest)))"

function resolve_path_with_options :: "memory_fs \<Rightarrow> string \<Rightarrow> bool \<Rightarrow> nat \<Rightarrow> string result" where
  "resolve_path_with_options fs path follow_final depth =
     (case validate_path path of
        Inl e \<Rightarrow> Inl e
      | Inr _ \<Rightarrow>
          if depth > MAX_SYMLINK_DEPTH then Inl (vfs_symlink_loop path)
          else
            let normalized = normalize_path path
            in if normalized = ''/'' then Inr normalized
               else case walk fs follow_final ''/'' (components normalized) of
                      Reached p \<Rightarrow> Inr p
                    | Walk_Error e \<Rightarrow> Inl e
                    | Redirected next_path \<Rightarrow> resolve_path_with_options fs next_path follow_final (depth + 1))"
  by pat_completeness auto
termination
  by (relation "measure (\<lambda>(fs, path, follow_final, depth). Suc MAX_SYMLINK_DEPTH - depth)") auto

declare resolve_path_with_options.simps [simp del]

definition resolve_path :: "memory_fs \<Rightarrow> string \<Rightarrow> string result" where
  "resolve_path fs path = resolve_path_with_options fs path True 0"

definition resolve_exact_path :: "memory_fs \<Rightarrow> string \<Rightarrow> string result" where
  "resolve_exact_path fs path = resolve_path_with_options fs path False 0"

definition inode_id_for_existing_path :: "memory_fs \<Rightarrow> string \<Rightarrow> string \<Rightarrow> bool \<Rightarrow> inode_id result" where
  "inode_id_for_existing_path fs path op follow_symlinks =
     (let normalized = normalize_path path
      in case (if follow_symlinks then resolve_path fs normalized else resolve_exact_path fs normalized) of
           Inl e \<Rightarrow> Inl e
         | Inr resolved \<Rightarrow> ok_or (bt_get (path_index fs) resolved) (vfs_not_found op path))"

definition inode_for_existing_path :: "memory_fs \<Rightarrow> string \<Rightarrow> string \<Rightarrow> bool \<Rightarrow> (inode_id \<times> inode) result" where
  "inode_for_existing_path fs path op follow_symlinks =
     (case inode_id_for_existing_path fs path op follow_symlinks of
        Inl e \<Rightarrow> Inl e
      | Inr ino \<Rightarrow>
          ok_or (map_option (Pair ino) (bt_get (inodes fs) ino))
            (panic ''existing path should resolve to a live inode''))"

definition assert_directory_path :: "memory_fs \<Rightarrow> string \<Rightarrow> string \<Rightarrow> unit result" where
  "assert_directory_path fs path op =
     (case inode_for_existing_path fs path op True of
        Inl e \<Rightarrow> Inl e
      | Inr (_, inode) \<Rightarrow> if i_kind inode = Directory then Inr () else Inl (vfs_not_directory op path))"

subsection \<open>Links\<close>

definition set_ctime :: "u64 \<Rightarrow> inode \<Rightarrow> inode" where
  "set_ctime now = update_metadata (\<lambda>m. m\<lparr>m_ctime_ms := now\<rparr>)"

definition set_atime :: "u64 \<Rightarrow> inode \<Rightarrow> inode" where
  "set_atime now = update_metadata (\<lambda>m. m\<lparr>m_atime_ms := now\<rparr>)"

definition set_mtime_ctime :: "u64 \<Rightarrow> inode \<Rightarrow> inode" where
  "set_mtime_ctime now = update_metadata (\<lambda>m. m\<lparr>m_mtime_ms := now, m_ctime_ms := now\<rparr>)"

definition set_data :: "bytes \<Rightarrow> inode \<Rightarrow> inode" where
  "set_data data i = i\<lparr>i_kind := File data\<rparr>"

definition set_nlink :: "nat \<Rightarrow> inode \<Rightarrow> inode" where
  "set_nlink n = update_metadata (\<lambda>m. m\<lparr>m_nlink := n\<rparr>)"

definition decrement_link_count :: "inode_id \<Rightarrow> memory_fs \<Rightarrow> unit result \<times> memory_fs" where
  "decrement_link_count ino fs =
     (case bt_get (inodes fs) ino of
        None \<Rightarrow> (Inl (panic ''inode should exist when decrementing link count''), fs)
      | Some inode \<Rightarrow>
          let nlink = m_nlink (i_metadata inode) - 1;
              fs1 = update_inode ino (set_nlink nlink) fs
          in (Inr (), if nlink = 0 then fs1\<lparr>inodes := bt_remove ino (inodes fs1)\<rparr> else fs1))"

definition remove_exact_path :: "u64 \<Rightarrow> string \<Rightarrow> memory_fs \<Rightarrow> unit result \<times> memory_fs" where
  "remove_exact_path now path fs =
     (case resolve_exact_path fs path of
        Inl e \<Rightarrow> (Inl e, fs)
      | Inr normalized \<Rightarrow>
          (case bt_get (path_index fs) normalized of
             None \<Rightarrow> (Inl (vfs_not_found ''unlink'' path), fs)
           | Some ino \<Rightarrow>
               (case bt_get (inodes fs) ino of
                  None \<Rightarrow> (Inl (panic ''existing path should resolve to a live inode''), fs)
                | Some inode \<Rightarrow>
                    if i_kind inode = Directory then (Inl (vfs_is_directory ''unlink'' path), fs)
                    else decrement_link_count ino (unindex_path normalized (update_inode ino (set_ctime now) fs)))))"

definition has_descendant :: "memory_fs \<Rightarrow> string \<Rightarrow> bool" where
  "has_descendant fs normalized \<longleftrightarrow>
     list_ex (\<lambda>candidate. starts_with candidate (normalized @ ''/'')) (bt_keys (path_index fs))"

definition remove_existing_destination :: "u64 \<Rightarrow> string \<Rightarrow> memory_fs \<Rightarrow> unit result \<times> memory_fs" where
  "remove_existing_destination now path fs =
     (case resolve_exact_path fs path of
        Inl e \<Rightarrow> (Inl e, fs)
      | Inr normalized \<Rightarrow>
          (case bt_get (path_index fs) normalized of
             None \<Rightarrow> (Inr (), fs)
           | Some ino \<Rightarrow>
               (case bt_get (inodes fs) ino of
                  None \<Rightarrow> (Inl (panic ''existing path should resolve to a live inode''), fs)
                | Some inode \<Rightarrow>
                    if i_kind inode = Directory \<and> has_descendant fs normalized
                    then (Inl (vfs_not_empty path), fs)
                    else decrement_link_count ino (unindex_path normalized (update_inode ino (set_ctime now) fs)))))"

definition symlink_with_metadata ::
    "u64 \<Rightarrow> string \<Rightarrow> string \<Rightarrow> u32 \<Rightarrow> u32 \<Rightarrow> u32 \<Rightarrow> memory_fs \<Rightarrow> unit result \<times> memory_fs" where
  "symlink_with_metadata now target link_path mode uid gid fs =
     (case resolve_exact_path fs link_path of
        Inl e \<Rightarrow> (Inl e, fs)
      | Inr normalized \<Rightarrow>
          if bt_contains (path_index fs) normalized
          then (Inl (vfs_already_exists ''symlink'' link_path), fs)
          else (case assert_directory_path fs (dirname normalized) ''symlink'' of
                  Inl e \<Rightarrow> (Inl e, fs)
                | Inr _ \<Rightarrow>
                    let (ino, fs1) = allocate_inode now (SymbolicLink target)
                          (if mode AND 0xF000 = 0 then S_IFLNK OR (mode AND 0xFFF) else mode) fs;
                        fs2 = update_inode ino (update_metadata (\<lambda>m. m\<lparr>m_uid := uid, m_gid := gid\<rparr>)) fs1
                    in (Inr (), index_path normalized ino fs2)))"

subsection \<open>Stat\<close>

definition block_count_for_size :: "u64 \<Rightarrow> u64" where
  "block_count_for_size n = (if n = 0 then 0 else (n - 1) div 512 + 1)"

definition build_stat :: "inode \<Rightarrow> virtual_stat" where
  "build_stat inode =
     (let m = i_metadata inode;
          len = (case i_kind inode of File data \<Rightarrow> of_nat (length data) | Directory \<Rightarrow> DIRECTORY_SIZE
                  | SymbolicLink target \<Rightarrow> of_nat (length target))
      in \<lparr>st_mode = m_mode m, st_size = len, st_blocks = block_count_for_size len,
          st_dev = MEMORY_FILESYSTEM_DEVICE_ID, st_rdev = 0, st_is_directory = (i_kind inode = Directory),
          st_is_symbolic_link = is_symlink inode, st_atime_ms = m_atime_ms m, st_atime_nsec = m_atime_nsec m,
          st_mtime_ms = m_mtime_ms m, st_mtime_nsec = m_mtime_nsec m, st_ctime_ms = m_ctime_ms m,
          st_ctime_nsec = m_ctime_nsec m, st_birthtime_ms = m_birthtime_ms m, st_ino = m_ino m,
          st_nlink = m_nlink m, st_uid = m_uid m, st_gid = m_gid m\<rparr>)"

definition fs_stat :: "string \<Rightarrow> memory_fs \<Rightarrow> virtual_stat result" where
  "fs_stat path fs = map_sum id (build_stat \<circ> snd) (inode_for_existing_path fs path ''stat'' True)"

definition fs_lstat :: "string \<Rightarrow> memory_fs \<Rightarrow> virtual_stat result" where
  "fs_lstat path fs = map_sum id (build_stat \<circ> snd) (inode_for_existing_path fs path ''lstat'' False)"

subsection \<open>Directories\<close>

definition dir_prefix :: "string \<Rightarrow> string" where
  "dir_prefix resolved = (if resolved = ''/'' then ''/'' else resolved @ ''/'')"

text \<open>The loop over \<^verbatim>\<open>range(prefix..)\<close>, up to the first path without the prefix.\<close>

definition entries_below :: "memory_fs \<Rightarrow> string \<Rightarrow> (string \<times> inode_id) list" where
  "entries_below fs prefix =
     takeWhile (\<lambda>(path, _). starts_with path prefix)
       (dropWhile (\<lambda>(path, _). path < prefix) (bt_entries (path_index fs)))"

fun collect_dir_entries ::
    "memory_fs \<Rightarrow> string \<Rightarrow> (string \<times> inode_id) list \<Rightarrow> (string, virtual_dir_entry) btree
      \<Rightarrow> (string, virtual_dir_entry) btree result" where
  "collect_dir_entries fs prefix [] entries = Inr entries"
| "collect_dir_entries fs prefix ((path, ino) # rest) entries =
     (let name = drop (length prefix) path
      in if name = [] \<or> CHR ''/'' \<in> set name then collect_dir_entries fs prefix rest entries
         else case bt_get (inodes fs) ino of
                None \<Rightarrow> Inl dangling_index
              | Some inode \<Rightarrow>
                  collect_dir_entries fs prefix rest
                    (bt_insert name \<lparr>de_name = name, de_is_directory = (i_kind inode = Directory),
                       de_is_symbolic_link = is_symlink inode\<rparr> entries))"

definition open_directory :: "u64 \<Rightarrow> string \<Rightarrow> memory_fs \<Rightarrow> string result \<times> memory_fs" where
  "open_directory now path fs =
     (case assert_directory_path fs path ''scandir'' of
        Inl e \<Rightarrow> (Inl e, fs)
      | Inr _ \<Rightarrow>
          (case resolve_path fs path of
             Inl e \<Rightarrow> (Inl e, fs)
           | Inr resolved \<Rightarrow>
               (case inode_for_existing_path fs resolved ''scandir'' False of
                  Inl e \<Rightarrow> (Inl e, fs)
                | Inr (ino, _) \<Rightarrow> (Inr resolved, update_inode ino (set_atime now) fs))))"

definition fs_read_dir_with_types :: "u64 \<Rightarrow> string \<Rightarrow> memory_fs \<Rightarrow> virtual_dir_entry list result \<times> memory_fs" where
  "fs_read_dir_with_types now path fs =
     (case open_directory now path fs of
        (Inl e, fs1) \<Rightarrow> (Inl e, fs1)
      | (Inr resolved, fs1) \<Rightarrow>
          let prefix = dir_prefix resolved
          in (map_sum id bt_values (collect_dir_entries fs1 prefix (entries_below fs1 prefix) bt_empty), fs1))"

definition fs_read_dir :: "u64 \<Rightarrow> string \<Rightarrow> memory_fs \<Rightarrow> string list result \<times> memory_fs" where
  "fs_read_dir now path fs =
     (case fs_read_dir_with_types now path fs of
        (Inl e, fs1) \<Rightarrow> (Inl e, fs1)
      | (Inr entries, fs1) \<Rightarrow> (Inr (map de_name entries), fs1))"

fun collect_dir_names ::
    "string \<Rightarrow> nat \<Rightarrow> string \<Rightarrow> (string \<times> inode_id) list \<Rightarrow> string bset \<Rightarrow> string bset result" where
  "collect_dir_names path max_entries prefix [] names = Inr names"
| "collect_dir_names path max_entries prefix ((candidate, _) # rest) names =
     (let name = drop (length prefix) candidate
      in if name = [] \<or> CHR ''/'' \<in> set name then collect_dir_names path max_entries prefix rest names
         else let names' = bs_insert name names
              in if bt_len names' > max_entries
                 then Inl (SysError ENOMEM (''directory listing for '' @ quoted path @
                        '' exceeds configured limit of '' @ show_nat max_entries @ '' entries''))
                 else collect_dir_names path max_entries prefix rest names')"

definition fs_read_dir_limited :: "u64 \<Rightarrow> string \<Rightarrow> nat \<Rightarrow> memory_fs \<Rightarrow> string list result \<times> memory_fs" where
  "fs_read_dir_limited now path max_entries fs =
     (case open_directory now path fs of
        (Inl e, fs1) \<Rightarrow> (Inl e, fs1)
      | (Inr resolved, fs1) \<Rightarrow>
          let prefix = dir_prefix resolved
          in (map_sum id bs_elems (collect_dir_names path max_entries prefix (entries_below fs1 prefix) bs_empty), fs1))"

definition fs_create_dir :: "u64 \<Rightarrow> string \<Rightarrow> memory_fs \<Rightarrow> unit result \<times> memory_fs" where
  "fs_create_dir now path fs =
     (case resolve_exact_path fs path of
        Inl e \<Rightarrow> (Inl e, fs)
      | Inr normalized \<Rightarrow>
          if normalized = ''/'' then (Inr (), fs)
          else case assert_directory_path fs (dirname normalized) ''mkdir'' of
                 Inl e \<Rightarrow> (Inl e, fs)
               | Inr _ \<Rightarrow>
                   (case bt_get (path_index fs) normalized of
                      Some existing \<Rightarrow>
                        (case bt_get (inodes fs) existing of
                           None \<Rightarrow> (Inl dangling_index, fs)
                         | Some inode \<Rightarrow>
                             (if i_kind inode = Directory then Inr () else Inl (vfs_already_exists ''mkdir'' path), fs))
                    | None \<Rightarrow>
                        let (ino, fs1) = allocate_inode now Directory (S_IFDIR OR 0x1ED) fs
                        in (Inr (), index_path normalized ino fs1)))"

fun mkdir_parts :: "u64 \<Rightarrow> string \<Rightarrow> string list \<Rightarrow> memory_fs \<Rightarrow> unit result \<times> memory_fs" where
  "mkdir_parts now current [] fs = (Inr (), fs)"
| "mkdir_parts now current (part # parts) fs =
     (let raw_path = child_path current part
      in case resolve_path_with_options fs raw_path (parts \<noteq> []) 0 of
           Inl e \<Rightarrow> (Inl e, fs)
         | Inr resolved \<Rightarrow>
             (case bt_get (path_index fs) resolved of
                Some ino \<Rightarrow>
                  (case bt_get (inodes fs) ino of
                     None \<Rightarrow> (Inl dangling_index, fs)
                   | Some inode \<Rightarrow>
                       if i_kind inode \<noteq> Directory then (Inl (vfs_not_directory ''mkdir'' raw_path), fs)
                       else mkdir_parts now resolved parts fs)
              | None \<Rightarrow>
                  let (ino, fs1) = allocate_inode now Directory (S_IFDIR OR 0x1ED) fs
                  in mkdir_parts now resolved parts (index_path resolved ino fs1)))"

definition fs_mkdir :: "u64 \<Rightarrow> string \<Rightarrow> bool \<Rightarrow> memory_fs \<Rightarrow> unit result \<times> memory_fs" where
  "fs_mkdir now path recursive fs =
     (let normalized = normalize_path path
      in if normalized = ''/'' then (Inr (), fs)
         else if \<not> recursive then fs_create_dir now path fs
         else mkdir_parts now ''/'' (components normalized) fs)"

definition fs_remove_dir :: "string \<Rightarrow> memory_fs \<Rightarrow> unit result \<times> memory_fs" where
  "fs_remove_dir path fs =
     (case resolve_exact_path fs path of
        Inl e \<Rightarrow> (Inl e, fs)
      | Inr normalized \<Rightarrow>
          if normalized = ''/'' then (Inl (vfs_permission_denied ''rmdir'' path), fs)
          else case bt_get (path_index fs) normalized of
                 None \<Rightarrow> (Inl (vfs_not_found ''rmdir'' path), fs)
               | Some ino \<Rightarrow>
                   (case bt_get (inodes fs) ino of
                      None \<Rightarrow> (Inl dangling_index, fs)
                    | Some inode \<Rightarrow>
                        if i_kind inode \<noteq> Directory then (Inl (vfs_not_directory ''rmdir'' path), fs)
                        else if has_descendant fs normalized then (Inl (vfs_not_empty path), fs)
                        else decrement_link_count ino (unindex_path normalized fs)))"

subsection \<open>Files\<close>

definition fs_read_file :: "u64 \<Rightarrow> string \<Rightarrow> memory_fs \<Rightarrow> bytes result \<times> memory_fs" where
  "fs_read_file now path fs =
     (case inode_for_existing_path fs path ''open'' True of
        Inl e \<Rightarrow> (Inl e, fs)
      | Inr (ino, inode) \<Rightarrow>
          (case i_kind inode of
             File data \<Rightarrow> (Inr data, update_inode ino (set_atime now) fs)
           | Directory \<Rightarrow> (Inl (vfs_is_directory ''open'' path), fs)
           | SymbolicLink _ \<Rightarrow> (Inl (vfs_not_found ''open'' path), fs)))"

definition create_file :: "u64 \<Rightarrow> string \<Rightarrow> bytes \<Rightarrow> memory_fs \<Rightarrow> unit result \<times> memory_fs" where
  "create_file now normalized data fs =
     (let (ino, fs1) = allocate_inode now (File data) (S_IFREG OR 0x1A4) fs
      in (Inr (), index_path normalized ino fs1))"

definition fs_write_file :: "u64 \<Rightarrow> string \<Rightarrow> bytes \<Rightarrow> memory_fs \<Rightarrow> unit result \<times> memory_fs" where
  "fs_write_file now path content fs =
     (case resolve_path fs path of
        Inl e \<Rightarrow> (Inl e, fs)
      | Inr normalized \<Rightarrow>
          (case fs_mkdir now (dirname normalized) True fs of
             (Inl e, fs1) \<Rightarrow> (Inl e, fs1)
           | (Inr _, fs1) \<Rightarrow>
               if bt_contains (path_index fs1) normalized then
                 (case inode_for_existing_path fs1 normalized ''open'' False of
                    Inl e \<Rightarrow> (Inl e, fs1)
                  | Inr (ino, inode) \<Rightarrow>
                      (case i_kind inode of
                         File _ \<Rightarrow> (Inr (), update_inode ino (set_mtime_ctime now \<circ> set_data content) fs1)
                       | Directory \<Rightarrow> (Inl (vfs_is_directory ''open'' path), fs1)
                       | SymbolicLink _ \<Rightarrow> (Inl (vfs_not_found ''open'' path), fs1)))
               else create_file now normalized content fs1))"

definition fs_create_file_exclusive :: "u64 \<Rightarrow> string \<Rightarrow> bytes \<Rightarrow> memory_fs \<Rightarrow> unit result \<times> memory_fs" where
  "fs_create_file_exclusive now path content fs =
     (case resolve_path fs path of
        Inl e \<Rightarrow> (Inl e, fs)
      | Inr normalized \<Rightarrow>
          (case fs_mkdir now (dirname normalized) True fs of
             (Inl e, fs1) \<Rightarrow> (Inl e, fs1)
           | (Inr _, fs1) \<Rightarrow>
               if bt_contains (path_index fs1) normalized then (Inl (vfs_already_exists ''open'' path), fs1)
               else create_file now normalized content fs1))"

definition fs_append_file :: "u64 \<Rightarrow> string \<Rightarrow> bytes \<Rightarrow> memory_fs \<Rightarrow> u64 result \<times> memory_fs" where
  "fs_append_file now path content fs =
     (case resolve_path fs path of
        Inl e \<Rightarrow> (Inl e, fs)
      | Inr normalized \<Rightarrow>
          (case inode_for_existing_path fs normalized ''open'' False of
             Inl e \<Rightarrow> (Inl e, fs)
           | Inr (ino, inode) \<Rightarrow>
               (case i_kind inode of
                  File existing \<Rightarrow>
                    (Inr (of_nat (length (existing @ content))),
                     update_inode ino (set_mtime_ctime now \<circ> set_data (existing @ content)) fs)
                | Directory \<Rightarrow> (Inl (vfs_is_directory ''open'' path), fs)
                | SymbolicLink _ \<Rightarrow> (Inl (vfs_not_found ''open'' path), fs))))"

definition resize_data :: "nat \<Rightarrow> bytes \<Rightarrow> bytes" where
  "resize_data n data = take n data @ replicate (n - length data) 0"

definition fs_truncate :: "u64 \<Rightarrow> string \<Rightarrow> u64 \<Rightarrow> memory_fs \<Rightarrow> unit result \<times> memory_fs" where
  "fs_truncate now path len fs =
     (case inode_for_existing_path fs path ''truncate'' True of
        Inl e \<Rightarrow> (Inl e, fs)
      | Inr (ino, inode) \<Rightarrow>
          (case i_kind inode of
             File data \<Rightarrow> (Inr (), update_inode ino (set_mtime_ctime now \<circ> set_data (resize_data (unat len) data)) fs)
           | Directory \<Rightarrow> (Inl (vfs_is_directory ''truncate'' path), fs)
           | SymbolicLink _ \<Rightarrow> (Inl (vfs_not_found ''truncate'' path), fs)))"

definition pread_data :: "u64 \<Rightarrow> nat \<Rightarrow> bytes \<Rightarrow> bytes" where
  "pread_data offset len data =
     (let start = unat offset
      in if start \<ge> length data then []
         else let stop = min (usize_saturating_add start len) (length data)
              in take (stop - start) (drop start data))"

definition fs_pread :: "u64 \<Rightarrow> string \<Rightarrow> u64 \<Rightarrow> nat \<Rightarrow> memory_fs \<Rightarrow> bytes result \<times> memory_fs" where
  "fs_pread now path offset len fs =
     (case inode_for_existing_path fs path ''open'' True of
        Inl e \<Rightarrow> (Inl e, fs)
      | Inr (ino, inode) \<Rightarrow>
          (case i_kind inode of
             File data \<Rightarrow> (Inr (pread_data offset len data), update_inode ino (set_atime now) fs)
           | Directory \<Rightarrow> (Inl (vfs_is_directory ''open'' path), fs)
           | SymbolicLink _ \<Rightarrow> (Inl (vfs_not_found ''open'' path), fs)))"

text \<open>The default \<^verbatim>\<open>pwrite\<close> of the trait, which the memory file system does not override.\<close>

definition pwrite_data :: "u64 \<Rightarrow> bytes \<Rightarrow> bytes \<Rightarrow> bytes" where
  "pwrite_data offset content existing =
     (let start = unat offset;
          existing1 = (if start > length existing then resize_data start existing else existing);
          stop = usize_saturating_add start (length content);
          existing2 = (if stop > length existing1 then resize_data stop existing1 else existing1)
      in take start existing2 @ content @ drop stop existing2)"

definition fs_pwrite :: "u64 \<Rightarrow> string \<Rightarrow> bytes \<Rightarrow> u64 \<Rightarrow> memory_fs \<Rightarrow> unit result \<times> memory_fs" where
  "fs_pwrite now path content offset fs =
     (case fs_read_file now path fs of
        (Inl e, fs1) \<Rightarrow> (Inl e, fs1)
      | (Inr existing, fs1) \<Rightarrow> fs_write_file now path (pwrite_data offset content existing) fs1)"

definition fs_exists :: "string \<Rightarrow> memory_fs \<Rightarrow> bool" where
  "fs_exists path fs = (case resolve_path fs path of Inl _ \<Rightarrow> False | Inr resolved \<Rightarrow> bt_contains (path_index fs) resolved)"

definition fs_realpath :: "string \<Rightarrow> memory_fs \<Rightarrow> string result" where
  "fs_realpath path fs =
     (case resolve_path fs path of
        Inl e \<Rightarrow> Inl e
      | Inr resolved \<Rightarrow> if \<not> bt_contains (path_index fs) resolved then Inl (vfs_not_found ''realpath'' path) else Inr resolved)"

definition fs_remove_file :: "u64 \<Rightarrow> string \<Rightarrow> memory_fs \<Rightarrow> unit result \<times> memory_fs" where
  "fs_remove_file = remove_exact_path"

subsection \<open>Renaming and linking\<close>

definition relocate :: "string \<Rightarrow> string \<Rightarrow> string \<Rightarrow> string" where
  "relocate old_normalized new_normalized path =
     (if path = old_normalized then new_normalized else new_normalized @ drop (length old_normalized) path)"

definition moved_by :: "string \<Rightarrow> string \<Rightarrow> bool" where
  "moved_by old_normalized path \<longleftrightarrow> path = old_normalized \<or> starts_with path (old_normalized @ ''/'')"

definition move_tree :: "string \<Rightarrow> string \<Rightarrow> (string, inode_id) btree \<Rightarrow> (string, inode_id) btree" where
  "move_tree old_normalized new_normalized index =
     (let to_move = filter (\<lambda>(path, _). moved_by old_normalized path) (bt_entries index)
      in fold (\<lambda>(path, ino). bt_insert (relocate old_normalized new_normalized path) ino) to_move
           (fold (\<lambda>(path, _). bt_remove path) to_move index))"

definition fs_rename :: "u64 \<Rightarrow> string \<Rightarrow> string \<Rightarrow> memory_fs \<Rightarrow> unit result \<times> memory_fs" where
  "fs_rename now old_path new_path fs =
     (case resolve_exact_path fs old_path of
        Inl e \<Rightarrow> (Inl e, fs)
      | Inr old_normalized \<Rightarrow>
     (case resolve_exact_path fs new_path of
        Inl e \<Rightarrow> (Inl e, fs)
      | Inr new_normalized \<Rightarrow>
          if old_normalized = ''/'' then (Inl (vfs_permission_denied ''rename'' old_path), fs)
          else if old_normalized = new_normalized then (Inr (), fs)
          else
     (case assert_directory_path fs (dirname new_normalized) ''rename'' of
        Inl e \<Rightarrow> (Inl e, fs)
      | Inr _ \<Rightarrow>
          if starts_with new_normalized (old_normalized @ ''/'')
          then (Inl (vfs_invalid_input (''cannot move '' @ quoted old_path @ '' into its own descendant '' @ quoted new_path)), fs)
          else
     (case bt_get (path_index fs) old_normalized of
        None \<Rightarrow> (Inl (vfs_not_found ''rename'' old_path), fs)
      | Some ino \<Rightarrow>
     (case bt_get (inodes fs) ino of
        None \<Rightarrow> (Inl dangling_index, fs)
      | Some inode \<Rightarrow>
     (case remove_existing_destination now new_path fs of
        (Inl e, fs1) \<Rightarrow> (Inl e, fs1)
      | (Inr _, fs1) \<Rightarrow>
          let fs2 = (if i_kind inode \<noteq> Directory
                     then index_path new_normalized ino (unindex_path old_normalized fs1)
                     else fs1\<lparr>path_index := move_tree old_normalized new_normalized (path_index fs1)\<rparr>)
          in if bt_contains (inodes fs2) ino then (Inr (), update_inode ino (set_ctime now) fs2)
             else (Inl (panic ''renamed inode should exist''), fs2)))))))"

definition fs_symlink :: "u64 \<Rightarrow> string \<Rightarrow> string \<Rightarrow> memory_fs \<Rightarrow> unit result \<times> memory_fs" where
  "fs_symlink now target link_path fs =
     symlink_with_metadata now target link_path (S_IFLNK OR 0x1FF) DEFAULT_UID DEFAULT_GID fs"

definition fs_read_link :: "string \<Rightarrow> memory_fs \<Rightarrow> string result" where
  "fs_read_link path fs =
     (case inode_for_existing_path fs path ''readlink'' False of
        Inl e \<Rightarrow> Inl e
      | Inr (_, inode) \<Rightarrow>
          (case i_kind inode of
             SymbolicLink target \<Rightarrow> Inr target
           | _ \<Rightarrow> Inl (vfs_invalid_input (''invalid argument, readlink '' @ quoted path))))"

definition fs_link :: "u64 \<Rightarrow> string \<Rightarrow> string \<Rightarrow> memory_fs \<Rightarrow> unit result \<times> memory_fs" where
  "fs_link now old_path new_path fs =
     (case inode_id_for_existing_path fs old_path ''link'' True of
        Inl e \<Rightarrow> (Inl e, fs)
      | Inr ino \<Rightarrow>
     (case bt_get (inodes fs) ino of
        None \<Rightarrow> (Inl dangling_index, fs)
      | Some inode \<Rightarrow>
          if (case i_kind inode of File _ \<Rightarrow> False | _ \<Rightarrow> True) then (Inl (vfs_permission_denied ''link'' old_path), fs)
          else
     (case resolve_exact_path fs new_path of
        Inl e \<Rightarrow> (Inl e, fs)
      | Inr normalized \<Rightarrow>
          if bt_contains (path_index fs) normalized then (Inl (vfs_already_exists ''link'' new_path), fs)
          else
     (case assert_directory_path fs (dirname normalized) ''link'' of
        Inl e \<Rightarrow> (Inl e, fs)
      | Inr _ \<Rightarrow>
          (Inr (), update_inode ino (\<lambda>i. set_ctime now (set_nlink (m_nlink (i_metadata i) + 1) i))
             (index_path normalized ino fs))))))"

subsection \<open>Metadata\<close>

definition fs_chmod :: "u64 \<Rightarrow> string \<Rightarrow> u32 \<Rightarrow> memory_fs \<Rightarrow> unit result \<times> memory_fs" where
  "fs_chmod now path mode fs =
     (case inode_for_existing_path fs path ''chmod'' True of
        Inl e \<Rightarrow> (Inl e, fs)
      | Inr (ino, inode) \<Rightarrow>
          let type_bits = (if mode AND 0xF000 = 0 then m_mode (i_metadata inode) AND 0xF000 else mode AND 0xF000)
          in (Inr (), update_inode ino
                (update_metadata (\<lambda>m. m\<lparr>m_mode := type_bits OR (mode AND 0xFFF), m_ctime_ms := now\<rparr>)) fs))"

definition fs_chown :: "u64 \<Rightarrow> string \<Rightarrow> u32 \<Rightarrow> u32 \<Rightarrow> memory_fs \<Rightarrow> unit result \<times> memory_fs" where
  "fs_chown now path uid gid fs =
     (case inode_for_existing_path fs path ''chown'' True of
        Inl e \<Rightarrow> (Inl e, fs)
      | Inr (ino, inode) \<Rightarrow>
          (Inr (), update_inode ino (update_metadata (\<lambda>m. m\<lparr>m_uid := uid, m_gid := gid, m_ctime_ms := now\<rparr>)) fs))"

definition fs_utimes :: "u64 \<Rightarrow> string \<Rightarrow> u64 \<Rightarrow> u64 \<Rightarrow> memory_fs \<Rightarrow> unit result \<times> memory_fs" where
  "fs_utimes now path atime_ms mtime_ms fs =
     (case inode_for_existing_path fs path ''utimes'' True of
        Inl e \<Rightarrow> (Inl e, fs)
      | Inr (ino, inode) \<Rightarrow>
          (Inr (), update_inode ino (update_metadata (\<lambda>m. m\<lparr>m_atime_ms := atime_ms, m_atime_nsec := 0,
             m_mtime_ms := mtime_ms, m_mtime_nsec := 0, m_ctime_ms := now, m_ctime_nsec := 0\<rparr>)) fs))"

definition time_spec_new :: "int \<Rightarrow> u32 \<Rightarrow> virtual_time_spec result" where
  "time_spec_new sec nsec =
     (if nsec \<ge> 1000000000 then Inl (SysError EINVAL (''timespec nanoseconds out of range: '' @ show_word nsec))
      else Inr \<lparr>ts_sec = sec, ts_nsec = nsec\<rparr>)"

definition time_spec_from_millis :: "u64 \<Rightarrow> virtual_time_spec" where
  "time_spec_from_millis ms = \<lparr>ts_sec = sint (ms div 1000), ts_nsec = ucast ((ms mod 1000) * 1000000)\<rparr>"

definition u64_saturating_mul :: "u64 \<Rightarrow> u64 \<Rightarrow> u64" where
  "u64_saturating_mul a b = (if unat a * unat b < 2 ^ 64 then a * b else - 1)"

text \<open>The final addition is the unchecked one of the source: it wraps.\<close>

definition to_truncated_millis :: "virtual_time_spec \<Rightarrow> u64 result" where
  "to_truncated_millis ts =
     (if ts_sec ts < 0
      then Inl (SysError EINVAL (''negative timestamps are not supported by this filesystem: '' @ show_int (ts_sec ts)))
      else Inr (u64_saturating_mul (of_int (ts_sec ts)) 1000 + ucast (ts_nsec ts) div 1000000))"

fun resolve_utime_spec :: "virtual_utime_spec \<Rightarrow> virtual_time_spec \<Rightarrow> virtual_time_spec \<Rightarrow> virtual_time_spec" where
  "resolve_utime_spec (UtimeSet spec) now existing = spec"
| "resolve_utime_spec UtimeNow now existing = now"
| "resolve_utime_spec UtimeOmit now existing = existing"

definition fs_utimes_spec ::
    "virtual_time_spec \<Rightarrow> string \<Rightarrow> virtual_utime_spec \<Rightarrow> virtual_utime_spec \<Rightarrow> bool \<Rightarrow> memory_fs
      \<Rightarrow> unit result \<times> memory_fs" where
  "fs_utimes_spec now path atime mtime follow_symlinks fs =
     (case (if follow_symlinks then fs_stat path fs else fs_lstat path fs) of
        Inl e \<Rightarrow> (Inl e, fs)
      | Inr st \<Rightarrow>
     (case inode_for_existing_path fs path ''utimes'' follow_symlinks of
        Inl e \<Rightarrow> (Inl e, fs)
      | Inr (ino, _) \<Rightarrow>
          let atime = resolve_utime_spec atime now \<lparr>ts_sec = sint (st_atime_ms st div 1000), ts_nsec = st_atime_nsec st\<rparr>;
              mtime = resolve_utime_spec mtime now \<lparr>ts_sec = sint (st_mtime_ms st div 1000), ts_nsec = st_mtime_nsec st\<rparr>
          in
     (case to_truncated_millis atime of
        Inl e \<Rightarrow> (Inl e, fs)
      | Inr atime_ms \<Rightarrow>
          let fs1 = update_inode ino (update_metadata (\<lambda>m. m\<lparr>m_atime_ms := atime_ms, m_atime_nsec := ts_nsec atime\<rparr>)) fs
          in
     (case to_truncated_millis mtime of
        Inl e \<Rightarrow> (Inl e, fs1)
      | Inr mtime_ms \<Rightarrow>
          let fs2 = update_inode ino (update_metadata (\<lambda>m. m\<lparr>m_mtime_ms := mtime_ms, m_mtime_nsec := ts_nsec mtime\<rparr>)) fs1
          in
     (case to_truncated_millis now of
        Inl e \<Rightarrow> (Inl e, fs2)
      | Inr ctime_ms \<Rightarrow>
          (Inr (), update_inode ino (update_metadata (\<lambda>m. m\<lparr>m_ctime_ms := ctime_ms, m_ctime_nsec := ts_nsec now\<rparr>)) fs2))))))"

subsection \<open>Snapshots\<close>

record snapshot_metadata =
  sm_mode :: u32
  sm_uid :: u32
  sm_gid :: u32
  sm_nlink :: nat
  sm_ino :: inode_id
  sm_atime_ms :: u64
  sm_atime_nsec :: u32
  sm_mtime_ms :: u64
  sm_mtime_nsec :: u32
  sm_ctime_ms :: u64
  sm_ctime_nsec :: u32
  sm_birthtime_ms :: u64

datatype snapshot_inode_kind = SnapshotFile bytes | SnapshotDirectory | SnapshotSymbolicLink string

record snapshot_inode =
  sn_metadata :: snapshot_metadata
  sn_kind :: snapshot_inode_kind

record memory_fs_snapshot =
  sn_path_index :: "(string, inode_id) btree"
  sn_inodes :: "(inode_id, snapshot_inode) btree"
  sn_next_ino :: inode_id

definition snapshot_of_inode :: "inode \<Rightarrow> snapshot_inode" where
  "snapshot_of_inode i =
     (let m = i_metadata i
      in \<lparr>sn_metadata = \<lparr>sm_mode = m_mode m, sm_uid = m_uid m, sm_gid = m_gid m, sm_nlink = m_nlink m, sm_ino = m_ino m,
            sm_atime_ms = m_atime_ms m, sm_atime_nsec = m_atime_nsec m, sm_mtime_ms = m_mtime_ms m,
            sm_mtime_nsec = m_mtime_nsec m, sm_ctime_ms = m_ctime_ms m, sm_ctime_nsec = m_ctime_nsec m,
            sm_birthtime_ms = m_birthtime_ms m\<rparr>,
          sn_kind = (case i_kind i of File data \<Rightarrow> SnapshotFile data | Directory \<Rightarrow> SnapshotDirectory
                     | SymbolicLink target \<Rightarrow> SnapshotSymbolicLink target)\<rparr>)"

definition inode_of_snapshot :: "snapshot_inode \<Rightarrow> inode" where
  "inode_of_snapshot i =
     (let m = sn_metadata i
      in \<lparr>i_metadata = \<lparr>m_mode = sm_mode m, m_uid = sm_uid m, m_gid = sm_gid m, m_nlink = sm_nlink m, m_ino = sm_ino m,
            m_atime_ms = sm_atime_ms m, m_atime_nsec = sm_atime_nsec m, m_mtime_ms = sm_mtime_ms m,
            m_mtime_nsec = sm_mtime_nsec m, m_ctime_ms = sm_ctime_ms m, m_ctime_nsec = sm_ctime_nsec m,
            m_birthtime_ms = sm_birthtime_ms m\<rparr>,
          i_kind = (case sn_kind i of SnapshotFile data \<Rightarrow> File data | SnapshotDirectory \<Rightarrow> Directory
                    | SnapshotSymbolicLink target \<Rightarrow> SymbolicLink target)\<rparr>)"

definition fs_snapshot :: "memory_fs \<Rightarrow> memory_fs_snapshot" where
  "fs_snapshot fs = \<lparr>sn_path_index = path_index fs, sn_inodes = bt_mapv (\<lambda>_. snapshot_of_inode) (inodes fs),
     sn_next_ino = next_ino fs\<rparr>"

definition fs_from_snapshot :: "memory_fs_snapshot \<Rightarrow> memory_fs" where
  "fs_from_snapshot s = \<lparr>path_index = sn_path_index s, inodes = bt_mapv (\<lambda>_. inode_of_snapshot) (sn_inodes s),
     next_ino = sn_next_ino s\<rparr>"

end
