(* ===== verification/Vfs_Ops.thy ===== *)
theory Vfs_Ops
  imports Memory_Fs
begin

text \<open>
  The trait \<^verbatim>\<open>VirtualFileSystem\<close> as a record of operations over the state \<open>'f\<close> of an implementation, its
  default methods, and the in-memory file system as one implementation. A method on \<^verbatim>\<open>&mut self\<close> returns
  the new state with its result, one on \<^verbatim>\<open>&self\<close> only the result. The clock is an argument: what the
  host reads during the call, in milliseconds and as a timespec.
\<close>

record clock =
  now_ms :: u64
  now_time_spec :: virtual_time_spec

type_synonym ('a, 'f) vfs_method = "'f \<Rightarrow> 'a result \<times> 'f"

record 'f vfs =
  vfs_read_file :: "clock \<Rightarrow> string \<Rightarrow> (bytes, 'f) vfs_method"
  vfs_read_dir :: "clock \<Rightarrow> string \<Rightarrow> (string list, 'f) vfs_method"
  vfs_read_dir_limited :: "clock \<Rightarrow> string \<Rightarrow> nat \<Rightarrow> (string list, 'f) vfs_method"
  vfs_read_dir_with_types :: "clock \<Rightarrow> string \<Rightarrow> (virtual_dir_entry list, 'f) vfs_method"
  vfs_write_file :: "clock \<Rightarrow> string \<Rightarrow> bytes \<Rightarrow> (unit, 'f) vfs_method"
  vfs_create_file_exclusive :: "clock \<Rightarrow> string \<Rightarrow> bytes \<Rightarrow> (unit, 'f) vfs_method"
  vfs_append_file :: "clock \<Rightarrow> string \<Rightarrow> bytes \<Rightarrow> (u64, 'f) vfs_method"
  vfs_create_dir :: "clock \<Rightarrow> string \<Rightarrow> (unit, 'f) vfs_method"
  vfs_mkdir :: "clock \<Rightarrow> string \<Rightarrow> bool \<Rightarrow> (unit, 'f) vfs_method"
  vfs_exists :: "string \<Rightarrow> 'f \<Rightarrow> bool"
  vfs_stat :: "string \<Rightarrow> (virtual_stat, 'f) vfs_method"
  vfs_remove_file :: "clock \<Rightarrow> string \<Rightarrow> (unit, 'f) vfs_method"
  vfs_remove_dir :: "string \<Rightarrow> (unit, 'f) vfs_method"
  vfs_rename :: "clock \<Rightarrow> string \<Rightarrow> string \<Rightarrow> (unit, 'f) vfs_method"
  vfs_realpath :: "string \<Rightarrow> 'f \<Rightarrow> string result"
  vfs_symlink :: "clock \<Rightarrow> string \<Rightarrow> string \<Rightarrow> (unit, 'f) vfs_method"
  vfs_read_link :: "string \<Rightarrow> 'f \<Rightarrow> string result"
  vfs_lstat :: "string \<Rightarrow> 'f \<Rightarrow> virtual_stat result"
  vfs_link :: "clock \<Rightarrow> string \<Rightarrow> string \<Rightarrow> (unit, 'f) vfs_method"
  vfs_chmod :: "clock \<Rightarrow> string \<Rightarrow> u32 \<Rightarrow> (unit, 'f) vfs_method"
  vfs_chown :: "clock \<Rightarrow> string \<Rightarrow> u32 \<Rightarrow> u32 \<Rightarrow> (unit, 'f) vfs_method"
  vfs_utimes :: "clock \<Rightarrow> string \<Rightarrow> u64 \<Rightarrow> u64 \<Rightarrow> (unit, 'f) vfs_method"
  vfs_utimes_spec :: "clock \<Rightarrow> string \<Rightarrow> virtual_utime_spec \<Rightarrow> virtual_utime_spec \<Rightarrow> bool \<Rightarrow> (unit, 'f) vfs_method"
  vfs_truncate :: "clock \<Rightarrow> string \<Rightarrow> u64 \<Rightarrow> (unit, 'f) vfs_method"
  vfs_pread :: "clock \<Rightarrow> string \<Rightarrow> u64 \<Rightarrow> nat \<Rightarrow> (bytes, 'f) vfs_method"
  vfs_pwrite :: "clock \<Rightarrow> string \<Rightarrow> bytes \<Rightarrow> u64 \<Rightarrow> (unit, 'f) vfs_method"

subsection \<open>Sequencing\<close>

text \<open>The operator \<^verbatim>\<open>?\<close>: on a check that only reads the state, and on a method.\<close>

definition guarded :: "unit result \<Rightarrow> ('a, 'f) vfs_method \<Rightarrow> ('a, 'f) vfs_method" where
  "guarded check body s = (case check of Inl e \<Rightarrow> (Inl e, s) | Inr _ \<Rightarrow> body s)"

lemma guarded_simps [simp]:
  "guarded (Inl e) body s = (Inl e, s)" "guarded (Inr u) body s = body s"
  by (simp_all add: guarded_def)

definition and_then :: "('a, 'f) vfs_method \<Rightarrow> ('a \<Rightarrow> ('b, 'f) vfs_method) \<Rightarrow> ('b, 'f) vfs_method" where
  "and_then m k s = (case m s of (Inl e, s1) \<Rightarrow> (Inl e, s1) | (Inr x, s1) \<Rightarrow> k x s1)"

subsection \<open>Default methods\<close>

definition default_read_dir_limited :: "'f vfs \<Rightarrow> clock \<Rightarrow> string \<Rightarrow> nat \<Rightarrow> (string list, 'f) vfs_method" where
  "default_read_dir_limited v now path max_entries =
     and_then (vfs_read_dir v now path) (\<lambda>entries s.
       if length entries > max_entries
       then (Inl (SysError ENOMEM (''directory listing for '' @ quoted path @ '' exceeds configured limit of '' @
                    show_nat max_entries @ '' entries'')), s)
       else (Inr entries, s))"

definition default_create_file_exclusive :: "'f vfs \<Rightarrow> clock \<Rightarrow> string \<Rightarrow> bytes \<Rightarrow> (unit, 'f) vfs_method" where
  "default_create_file_exclusive v now path content s =
     (if vfs_exists v path s then (Inl (vfs_already_exists ''open'' path), s)
      else vfs_write_file v now path content s)"

definition default_append_file :: "'f vfs \<Rightarrow> clock \<Rightarrow> string \<Rightarrow> bytes \<Rightarrow> (u64, 'f) vfs_method" where
  "default_append_file v now path content =
     and_then (vfs_read_file v now path) (\<lambda>existing.
       and_then (vfs_write_file v now path (existing @ content)) (\<lambda>_ s.
         (Inr (of_nat (length (existing @ content))), s)))"

definition default_pwrite :: "'f vfs \<Rightarrow> clock \<Rightarrow> string \<Rightarrow> bytes \<Rightarrow> u64 \<Rightarrow> (unit, 'f) vfs_method" where
  "default_pwrite v now path content offset =
     and_then (vfs_read_file v now path) (\<lambda>existing. vfs_write_file v now path (pwrite_data offset content existing))"

fun resolve_utime_millis :: "virtual_utime_spec \<Rightarrow> u64 \<Rightarrow> virtual_time_spec option \<Rightarrow> u64 result" where
  "resolve_utime_millis (UtimeSet spec) now existing = to_truncated_millis spec"
| "resolve_utime_millis UtimeNow now existing = Inr now"
| "resolve_utime_millis UtimeOmit now existing =
     (case existing of
        None \<Rightarrow> Inl (SysError EINVAL ''UTIME_OMIT requires existing metadata'')
      | Some t \<Rightarrow> to_truncated_millis t)"

definition default_utimes_spec ::
    "'f vfs \<Rightarrow> clock \<Rightarrow> string \<Rightarrow> virtual_utime_spec \<Rightarrow> virtual_utime_spec \<Rightarrow> bool \<Rightarrow> (unit, 'f) vfs_method" where
  "default_utimes_spec v now path atime mtime follow_symlinks s =
     (if \<not> follow_symlinks
      then (Inl (SysError ENOSYS (''lutimes is not supported for '' @ quoted path)), s)
      else
        let (r, s1) = (if atime = UtimeOmit \<or> mtime = UtimeOmit
                       then (case vfs_stat v path s of (Inl e, s1) \<Rightarrow> (Inl e, s1) | (Inr st, s1) \<Rightarrow> (Inr (Some st), s1))
                       else (Inr None, s))
        in case r of
             Inl e \<Rightarrow> (Inl e, s1)
           | Inr existing \<Rightarrow>
               (case resolve_utime_millis atime (now_ms now)
                   (map_option (\<lambda>st. \<lparr>ts_sec = sint (st_atime_ms st div 1000), ts_nsec = st_atime_nsec st\<rparr>) existing) of
                  Inl e \<Rightarrow> (Inl e, s1)
                | Inr atime_ms \<Rightarrow>
                    (case resolve_utime_millis mtime (now_ms now)
                        (map_option (\<lambda>st. \<lparr>ts_sec = sint (st_mtime_ms st div 1000), ts_nsec = st_mtime_nsec st\<rparr>) existing) of
                       Inl e \<Rightarrow> (Inl e, s1)
                     | Inr mtime_ms \<Rightarrow> vfs_utimes v now path atime_ms mtime_ms s1)))"

subsection \<open>The in-memory file system\<close>

definition memory_vfs :: "memory_fs vfs" where
  "memory_vfs = \<lparr>
     vfs_read_file = (\<lambda>now. fs_read_file (now_ms now)),
     vfs_read_dir = (\<lambda>now. fs_read_dir (now_ms now)),
     vfs_read_dir_limited = (\<lambda>now. fs_read_dir_limited (now_ms now)),
     vfs_read_dir_with_types = (\<lambda>now. fs_read_dir_with_types (now_ms now)),
     vfs_write_file = (\<lambda>now. fs_write_file (now_ms now)),
     vfs_create_file_exclusive = (\<lambda>now. fs_create_file_exclusive (now_ms now)),
     vfs_append_file = (\<lambda>now. fs_append_file (now_ms now)),
     vfs_create_dir = (\<lambda>now. fs_create_dir (now_ms now)),
     vfs_mkdir = (\<lambda>now. fs_mkdir (now_ms now)),
     vfs_exists = fs_exists,
     vfs_stat = (\<lambda>path s. (fs_stat path s, s)),
     vfs_remove_file = (\<lambda>now. fs_remove_file (now_ms now)),
     vfs_remove_dir = fs_remove_dir,
     vfs_rename = (\<lambda>now. fs_rename (now_ms now)),
     vfs_realpath = fs_realpath,
     vfs_symlink = (\<lambda>now. fs_symlink (now_ms now)),
     vfs_read_link = fs_read_link,
     vfs_lstat = fs_lstat,
     vfs_link = (\<lambda>now. fs_link (now_ms now)),
     vfs_chmod = (\<lambda>now. fs_chmod (now_ms now)),
     vfs_chown = (\<lambda>now. fs_chown (now_ms now)),
     vfs_utimes = (\<lambda>now. fs_utimes (now_ms now)),
     vfs_utimes_spec = (\<lambda>now. fs_utimes_spec (now_time_spec now)),
     vfs_truncate = (\<lambda>now. fs_truncate (now_ms now)),
     vfs_pread = (\<lambda>now. fs_pread (now_ms now)),
     vfs_pwrite = (\<lambda>now. fs_pwrite (now_ms now))\<rparr>"

lemma memory_pwrite_default: "vfs_pwrite memory_vfs = default_pwrite memory_vfs"
  by (auto simp: fun_eq_iff memory_vfs_def default_pwrite_def and_then_def fs_pwrite_def split: prod.splits sum.splits)

subsection \<open>Calls\<close>

datatype vfs_call =
    Read_File string
  | Pread string u64 nat
  | Read_Dir string
  | Read_Dir_Limited string nat
  | Read_Dir_With_Types string
  | Write_File string bytes
  | Create_File_Exclusive string bytes
  | Append_File string bytes
  | Pwrite string bytes u64
  | Truncate string u64
  | Create_Dir string
  | Mkdir string bool
  | Stat string
  | Remove_File string
  | Remove_Dir string
  | Rename string string
  | Symlink string string
  | Link string string
  | Chmod string u32
  | Chown string u32 u32
  | Utimes string u64 u64
  | Utimes_Spec string virtual_utime_spec virtual_utime_spec bool

definition outcome :: "'a result \<times> 'f \<Rightarrow> unit result \<times> 'f" where
  "outcome x = (map_sum id (\<lambda>_. ()) (fst x), snd x)"

fun vfs_perform :: "'f vfs \<Rightarrow> clock \<Rightarrow> vfs_call \<Rightarrow> (unit, 'f) vfs_method" where
  "vfs_perform v now (Read_File p) s = outcome (vfs_read_file v now p s)"
| "vfs_perform v now (Pread p offset len) s = outcome (vfs_pread v now p offset len s)"
| "vfs_perform v now (Read_Dir p) s = outcome (vfs_read_dir v now p s)"
| "vfs_perform v now (Read_Dir_Limited p limit) s = outcome (vfs_read_dir_limited v now p limit s)"
| "vfs_perform v now (Read_Dir_With_Types p) s = outcome (vfs_read_dir_with_types v now p s)"
| "vfs_perform v now (Write_File p data) s = vfs_write_file v now p data s"
| "vfs_perform v now (Create_File_Exclusive p data) s = vfs_create_file_exclusive v now p data s"
| "vfs_perform v now (Append_File p data) s = outcome (vfs_append_file v now p data s)"
| "vfs_perform v now (Pwrite p data offset) s = vfs_pwrite v now p data offset s"
| "vfs_perform v now (Truncate p len) s = vfs_truncate v now p len s"
| "vfs_perform v now (Create_Dir p) s = vfs_create_dir v now p s"
| "vfs_perform v now (Mkdir p recursive) s = vfs_mkdir v now p recursive s"
| "vfs_perform v now (Stat p) s = outcome (vfs_stat v p s)"
| "vfs_perform v now (Remove_File p) s = vfs_remove_file v now p s"
| "vfs_perform v now (Remove_Dir p) s = vfs_remove_dir v p s"
| "vfs_perform v now (Rename old new) s = vfs_rename v now old new s"
| "vfs_perform v now (Symlink target p) s = vfs_symlink v now target p s"
| "vfs_perform v now (Link old new) s = vfs_link v now old new s"
| "vfs_perform v now (Chmod p mode) s = vfs_chmod v now p mode s"
| "vfs_perform v now (Chown p uid gid) s = vfs_chown v now p uid gid s"
| "vfs_perform v now (Utimes p atime mtime) s = vfs_utimes v now p atime mtime s"
| "vfs_perform v now (Utimes_Spec p atime mtime follow) s = vfs_utimes_spec v now p atime mtime follow s"

end
