(* ===== verification/Permissions.thy ===== *)
theory Permissions
  imports Vfs_Ops
begin

text \<open>
  Permission checks (\<^verbatim>\<open>permissions.rs\<close>): the requests a policy decides on, the checks for commands,
  network access and environment variables, and \<^verbatim>\<open>PermissionedFileSystem\<close>, which asks the policy before
  it forwards a call to the file system it wraps. A policy is a function supplied by the embedder and is
  a parameter here.
\<close>

subsection \<open>Requests and decisions\<close>

record permission_decision =
  pd_allow :: bool
  pd_reason :: "string option"

definition decision_allow :: permission_decision where
  "decision_allow = \<lparr>pd_allow = True, pd_reason = None\<rparr>"

definition decision_deny :: "string \<Rightarrow> permission_decision" where
  "decision_deny reason = \<lparr>pd_allow = False, pd_reason = Some reason\<rparr>"

definition access_denied :: "string \<Rightarrow> string option \<Rightarrow> sys_error" where
  "access_denied subject reason =
     SysError EACCES (case reason of
         Some r \<Rightarrow> ''permission denied, '' @ subject @ '': '' @ r
       | None \<Rightarrow> ''permission denied, '' @ subject)"

datatype fs_operation =
    FsRead | FsWrite | FsMkdir | FsCreateDir | FsReadDir | FsStat | FsRemove | FsRename | FsExists | FsSymlink
  | FsReadLink | FsLink | FsChmod | FsChown | FsUtimes | FsTruncate | FsMountSensitive

fun fs_operation_as_str :: "fs_operation \<Rightarrow> string" where
  "fs_operation_as_str FsRead = ''read''"
| "fs_operation_as_str FsWrite = ''write''"
| "fs_operation_as_str FsMkdir = ''mkdir''"
| "fs_operation_as_str FsCreateDir = ''createDir''"
| "fs_operation_as_str FsReadDir = ''readdir''"
| "fs_operation_as_str FsStat = ''stat''"
| "fs_operation_as_str FsRemove = ''rm''"
| "fs_operation_as_str FsRename = ''rename''"
| "fs_operation_as_str FsExists = ''exists''"
| "fs_operation_as_str FsSymlink = ''symlink''"
| "fs_operation_as_str FsReadLink = ''readlink''"
| "fs_operation_as_str FsLink = ''link''"
| "fs_operation_as_str FsChmod = ''chmod''"
| "fs_operation_as_str FsChown = ''chown''"
| "fs_operation_as_str FsUtimes = ''utimes''"
| "fs_operation_as_str FsTruncate = ''truncate''"
| "fs_operation_as_str FsMountSensitive = ''mount''"

record fs_access_request =
  fr_vm_id :: string
  fr_op :: fs_operation
  fr_path :: string

datatype network_operation = Fetch | Http | Dns | Listen

record network_access_request =
  nr_vm_id :: string
  nr_op :: network_operation
  nr_resource :: string

record command_access_request =
  cr_vm_id :: string
  cr_command :: string
  cr_args :: "string list"
  cr_cwd :: "string option"
  cr_env :: "(string, string) btree"

datatype environment_operation = EnvRead | EnvWrite

record env_access_request =
  er_vm_id :: string
  er_op :: environment_operation
  er_key :: string
  er_value :: "string option"

record permissions =
  perm_filesystem :: "(fs_access_request \<Rightarrow> permission_decision) option"
  perm_network :: "(network_access_request \<Rightarrow> permission_decision) option"
  perm_child_process :: "(command_access_request \<Rightarrow> permission_decision) option"
  perm_environment :: "(env_access_request \<Rightarrow> permission_decision) option"

definition permissions_allow_all :: permissions where
  "permissions_allow_all = \<lparr>perm_filesystem = Some (\<lambda>_. decision_allow), perm_network = Some (\<lambda>_. decision_allow),
     perm_child_process = Some (\<lambda>_. decision_allow), perm_environment = Some (\<lambda>_. decision_allow)\<rparr>"

definition filter_env :: "string \<Rightarrow> (string, string) btree \<Rightarrow> permissions \<Rightarrow> (string, string) btree" where
  "filter_env vm_id env permissions =
     (case perm_environment permissions of
        None \<Rightarrow> bt_empty
      | Some check \<Rightarrow>
          bt_retain (\<lambda>key value.
            pd_allow (check \<lparr>er_vm_id = vm_id, er_op = EnvRead, er_key = key, er_value = Some value\<rparr>)) env)"

definition check_command_execution ::
    "string \<Rightarrow> permissions \<Rightarrow> string \<Rightarrow> string list \<Rightarrow> string option \<Rightarrow> (string, string) btree \<Rightarrow> unit result" where
  "check_command_execution vm_id permissions command args cwd env =
     (case perm_child_process permissions of
        None \<Rightarrow> Inr ()
      | Some check \<Rightarrow>
          let decision = check \<lparr>cr_vm_id = vm_id, cr_command = command, cr_args = args, cr_cwd = cwd, cr_env = env\<rparr>
          in if pd_allow decision then Inr ()
             else Inl (access_denied (''spawn '' @ quoted command) (pd_reason decision)))"

definition check_network_access :: "string \<Rightarrow> permissions \<Rightarrow> network_operation \<Rightarrow> string \<Rightarrow> unit result" where
  "check_network_access vm_id permissions op resource =
     (case perm_network permissions of
        None \<Rightarrow> Inr ()
      | Some check \<Rightarrow>
          let decision = check \<lparr>nr_vm_id = vm_id, nr_op = op, nr_resource = resource\<rparr>
          in if pd_allow decision then Inr () else Inl (access_denied resource (pd_reason decision)))"

subsection \<open>The file system that asks first\<close>

record 'f permissioned_fs =
  pf_inner :: 'f
  pf_vm_id :: string
  pf_permissions :: permissions

definition pf_check :: "fs_operation \<Rightarrow> string \<Rightarrow> 'f permissioned_fs \<Rightarrow> unit result" where
  "pf_check op path s =
     (case validate_path path of
        Inl e \<Rightarrow> Inl e
      | Inr _ \<Rightarrow>
          (case perm_filesystem (pf_permissions s) of
             None \<Rightarrow> Inl (vfs_access_denied (fs_operation_as_str op) path None)
           | Some check \<Rightarrow>
               let decision = check \<lparr>fr_vm_id = pf_vm_id s, fr_op = op, fr_path = path\<rparr>
               in if pd_allow decision then Inr ()
                  else Inl (vfs_access_denied (fs_operation_as_str op) path (pd_reason decision))))"

definition resolved_existing_path :: "'f vfs \<Rightarrow> string \<Rightarrow> 'f permissioned_fs \<Rightarrow> string result" where
  "resolved_existing_path v path s = vfs_realpath v path (pf_inner s)"

text \<open>
  The loop that looks for the deepest part of the path that exists. The path is normalized, so it
  is given by its names, the last one first: \<^verbatim>\<open>parent\<close> drops the last name and \<^verbatim>\<open>file_name\<close> is that name.
\<close>

fun resolve_parent :: "(string \<Rightarrow> string result) \<Rightarrow> string list \<Rightarrow> string list \<Rightarrow> (string \<times> string list) result" where
  "resolve_parent realpath [] unresolved =
     (case realpath ''/'' of
        Inr resolved \<Rightarrow> Inr (resolved, unresolved)
      | Inl e \<Rightarrow> if err_code e \<in> {ENOENT, ENOTDIR} then Inr (''/'', unresolved) else Inl e)"
| "resolve_parent realpath (segment # higher) unresolved =
     (case realpath (CHR ''/'' # join_slash (rev (segment # higher))) of
        Inr resolved \<Rightarrow> Inr (resolved, unresolved)
      | Inl e \<Rightarrow> if err_code e \<in> {ENOENT, ENOTDIR} then resolve_parent realpath higher (unresolved @ [segment]) else Inl e)"

definition resolved_destination_path :: "'f vfs \<Rightarrow> string \<Rightarrow> 'f permissioned_fs \<Rightarrow> string result" where
  "resolved_destination_path v path s =
     (let normalized = normalize_path path
      in if normalized = ''/'' then Inr normalized
         else
           let names = components normalized; basename = last names
           in case resolve_parent (\<lambda>p. vfs_realpath v p (pf_inner s)) (rev (butlast names)) [] of
                Inl e \<Rightarrow> Inl e
              | Inr (resolved_parent, unresolved_segments) \<Rightarrow>
                  Inr (child_path (foldl child_path resolved_parent (rev unresolved_segments)) basename))"

definition permission_subject :: "'f vfs \<Rightarrow> fs_operation \<Rightarrow> string \<Rightarrow> 'f permissioned_fs \<Rightarrow> string result" where
  "permission_subject v op path s =
     (case validate_path path of
        Inl e \<Rightarrow> Inl e
      | Inr _ \<Rightarrow>
          if op \<in> {FsRead, FsReadDir, FsStat, FsReadLink, FsChmod, FsChown, FsUtimes, FsTruncate}
          then resolved_existing_path v path s
          else if op \<in> {FsExists, FsWrite}
          then (case resolved_existing_path v path s of
                  Inl _ \<Rightarrow> resolved_destination_path v path s
                | Inr p \<Rightarrow> Inr p)
          else resolved_destination_path v path s)"

definition check_subject :: "'f vfs \<Rightarrow> fs_operation \<Rightarrow> string \<Rightarrow> 'f permissioned_fs \<Rightarrow> unit result" where
  "check_subject v op path s =
     (case permission_subject v op path s of Inl e \<Rightarrow> Inl e | Inr subject \<Rightarrow> pf_check op subject s)"

definition check_existing_subject :: "'f vfs \<Rightarrow> fs_operation \<Rightarrow> string \<Rightarrow> 'f permissioned_fs \<Rightarrow> unit result" where
  "check_existing_subject v op path s =
     (case validate_path path of
        Inl e \<Rightarrow> Inl e
      | Inr _ \<Rightarrow> (case resolved_existing_path v path s of Inl e \<Rightarrow> Inl e | Inr subject \<Rightarrow> pf_check op subject s))"

definition check_destination_subject :: "'f vfs \<Rightarrow> fs_operation \<Rightarrow> string \<Rightarrow> 'f permissioned_fs \<Rightarrow> unit result" where
  "check_destination_subject v op path s =
     (case validate_path path of
        Inl e \<Rightarrow> Inl e
      | Inr _ \<Rightarrow> (case resolved_destination_path v path s of Inl e \<Rightarrow> Inl e | Inr subject \<Rightarrow> pf_check op subject s))"

definition pf_exists :: "'f vfs \<Rightarrow> string \<Rightarrow> 'f permissioned_fs \<Rightarrow> bool result" where
  "pf_exists v path s =
     (case check_subject v FsExists path s of
        Inl e \<Rightarrow> if err_code e \<in> {EACCES, ENOENT, ENOTDIR, ELOOP} then Inr False else Inl e
      | Inr _ \<Rightarrow> Inr (vfs_exists v path (pf_inner s)))"

definition on_inner :: "('a, 'f) vfs_method \<Rightarrow> ('a, 'f permissioned_fs) vfs_method" where
  "on_inner m s = (let (r, inner) = m (pf_inner s) in (r, s\<lparr>pf_inner := inner\<rparr>))"

definition checked :: "'f vfs \<Rightarrow> fs_operation \<Rightarrow> string \<Rightarrow> ('a, 'f) vfs_method \<Rightarrow> ('a, 'f permissioned_fs) vfs_method" where
  "checked v op path m s = guarded (check_subject v op path s) (on_inner m) s"

definition pf_rename :: "'f vfs \<Rightarrow> clock \<Rightarrow> string \<Rightarrow> string \<Rightarrow> (unit, 'f permissioned_fs) vfs_method" where
  "pf_rename v now old_path new_path s =
     guarded (check_subject v FsRename old_path s)
       (guarded (check_subject v FsRename new_path s) (on_inner (vfs_rename v now old_path new_path))) s"

definition pf_realpath :: "'f vfs \<Rightarrow> string \<Rightarrow> 'f permissioned_fs \<Rightarrow> string result" where
  "pf_realpath v path s =
     (case check_subject v FsRead path s of Inl e \<Rightarrow> Inl e | Inr _ \<Rightarrow> vfs_realpath v path (pf_inner s))"

definition pf_read_link :: "'f vfs \<Rightarrow> string \<Rightarrow> 'f permissioned_fs \<Rightarrow> string result" where
  "pf_read_link v path s =
     (case pf_check FsReadLink (normalize_path path) s of Inl e \<Rightarrow> Inl e | Inr _ \<Rightarrow> vfs_read_link v path (pf_inner s))"

definition pf_lstat :: "'f vfs \<Rightarrow> string \<Rightarrow> 'f permissioned_fs \<Rightarrow> virtual_stat result" where
  "pf_lstat v path s =
     (case pf_check FsStat (normalize_path path) s of Inl e \<Rightarrow> Inl e | Inr _ \<Rightarrow> vfs_lstat v path (pf_inner s))"

definition pf_link :: "'f vfs \<Rightarrow> clock \<Rightarrow> string \<Rightarrow> string \<Rightarrow> (unit, 'f permissioned_fs) vfs_method" where
  "pf_link v now old_path new_path s =
     guarded (check_existing_subject v FsLink old_path s)
       (guarded (check_destination_subject v FsLink new_path s) (on_inner (vfs_link v now old_path new_path))) s"

text \<open>
  \<^verbatim>\<open>pwrite\<close> is the default of the trait on the wrapper: a checked read and a checked write.
\<close>

definition pf_pwrite :: "'f vfs \<Rightarrow> clock \<Rightarrow> string \<Rightarrow> bytes \<Rightarrow> u64 \<Rightarrow> (unit, 'f permissioned_fs) vfs_method" where
  "pf_pwrite v now path content offset =
     and_then (checked v FsRead path (vfs_read_file v now path)) (\<lambda>existing.
       checked v FsWrite path (vfs_write_file v now path (pwrite_data offset content existing)))"

definition permissioned_vfs :: "'f vfs \<Rightarrow> 'f permissioned_fs vfs" where
  "permissioned_vfs v = \<lparr>
     vfs_read_file = (\<lambda>now p. checked v FsRead p (vfs_read_file v now p)),
     vfs_read_dir = (\<lambda>now p. checked v FsReadDir p (vfs_read_dir v now p)),
     vfs_read_dir_limited = (\<lambda>now p limit. checked v FsReadDir p (vfs_read_dir_limited v now p limit)),
     vfs_read_dir_with_types = (\<lambda>now p. checked v FsReadDir p (vfs_read_dir_with_types v now p)),
     vfs_write_file = (\<lambda>now p data. checked v FsWrite p (vfs_write_file v now p data)),
     vfs_create_file_exclusive = (\<lambda>now p data. checked v FsWrite p (vfs_create_file_exclusive v now p data)),
     vfs_append_file = (\<lambda>now p data. checked v FsWrite p (vfs_append_file v now p data)),
     vfs_create_dir = (\<lambda>now p. checked v FsCreateDir p (vfs_create_dir v now p)),
     vfs_mkdir = (\<lambda>now p recursive. checked v FsMkdir p (vfs_mkdir v now p recursive)),
     vfs_exists = (\<lambda>p s. case pf_exists v p s of Inl _ \<Rightarrow> False | Inr b \<Rightarrow> b),
     vfs_stat = (\<lambda>p. checked v FsStat p (vfs_stat v p)),
     vfs_remove_file = (\<lambda>now p. checked v FsRemove p (vfs_remove_file v now p)),
     vfs_remove_dir = (\<lambda>p. checked v FsRemove p (vfs_remove_dir v p)),
     vfs_rename = pf_rename v,
     vfs_realpath = pf_realpath v,
     vfs_symlink = (\<lambda>now target p. checked v FsSymlink p (vfs_symlink v now target p)),
     vfs_read_link = pf_read_link v,
     vfs_lstat = pf_lstat v,
     vfs_link = pf_link v,
     vfs_chmod = (\<lambda>now p mode. checked v FsChmod p (vfs_chmod v now p mode)),
     vfs_chown = (\<lambda>now p uid gid. checked v FsChown p (vfs_chown v now p uid gid)),
     vfs_utimes = (\<lambda>now p atime mtime. checked v FsUtimes p (vfs_utimes v now p atime mtime)),
     vfs_utimes_spec = (\<lambda>now p atime mtime follow. checked v FsUtimes p (vfs_utimes_spec v now p atime mtime follow)),
     vfs_truncate = (\<lambda>now p len. checked v FsTruncate p (vfs_truncate v now p len)),
     vfs_pread = (\<lambda>now p offset len. checked v FsRead p (vfs_pread v now p offset len)),
     vfs_pwrite = pf_pwrite v\<rparr>"

lemma permissioned_pwrite_default: "vfs_pwrite (permissioned_vfs v) = default_pwrite (permissioned_vfs v)"
  by (simp add: fun_eq_iff permissioned_vfs_def default_pwrite_def pf_pwrite_def)

subsection \<open>Nothing happens without a decision\<close>

lemma pf_check_none: "perm_filesystem (pf_permissions s) = None \<Longrightarrow> \<exists>e. pf_check op path s = Inl e"
  by (auto simp: pf_check_def split: sum.splits)

lemma check_subject_none:
  assumes "perm_filesystem (pf_permissions s) = None"
  shows "\<exists>e. check_subject v op path s = Inl e" "\<exists>e. check_existing_subject v op path s = Inl e"
  using pf_check_none [OF assms]
  by (auto simp: check_subject_def check_existing_subject_def split: sum.splits)

lemma checked_none: "perm_filesystem (pf_permissions s) = None \<Longrightarrow> \<exists>e. checked v op path m s = (Inl e, s)"
  using check_subject_none(1) [of s v op path] by (auto simp: checked_def)

lemma outcome_checked_none:
  "perm_filesystem (pf_permissions s) = None \<Longrightarrow> \<exists>e. outcome (checked v op path m s) = (Inl e, s)"
  using checked_none [of s v op path m] by (auto simp: outcome_def)


definition locked_fs :: "memory_fs permissioned_fs" where
  "locked_fs = \<lparr>pf_inner = memory_fs_new 0, pf_vm_id = ''vm'', pf_permissions =
     \<lparr>perm_filesystem = None, perm_network = None, perm_child_process = None, perm_environment = None\<rparr>\<rparr>"

definition some_clock :: clock where
  "some_clock = \<lparr>now_ms = 5, now_time_spec = \<lparr>ts_sec = 0, ts_nsec = 5000000\<rparr>\<rparr>"


end
