(* ===== verification/Vfs_Tree.thy ===== *)
theory Vfs_Tree
  imports Memory_Fs
begin

text \<open>
  Paths as positions in a tree: prefixes of rendered paths are prefixes of their lists of names, and
  the loop that resolves a path walks along them.
\<close>

subsection \<open>Rendered paths\<close>

definition slashed :: "string list \<Rightarrow> string" where
  "slashed ns = concat (map (\<lambda>n. CHR ''/'' # n) ns)"

lemma slashed_simps [simp]:
  "slashed [] = []" "slashed (n # ns) = CHR ''/'' # n @ slashed ns" "slashed (ns @ ms) = slashed ns @ slashed ms"
  by (simp_all add: slashed_def)

lemma render_slashed: "render ns = (if ns = [] then ''/'' else slashed ns)"
  by (simp add: render_def slashed_def)

abbreviation proper_names :: "string list \<Rightarrow> bool" where
  "proper_names ns \<equiv> (\<forall>n \<in> set ns. proper_name n)"

lemma proper_names_no_Nil [simp]: "proper_names ns \<Longrightarrow> [] \<notin> set ns"
  by (auto simp: proper_name_def)

lemma slash_free_prefix:
  assumes "CHR ''/'' \<notin> set a" "CHR ''/'' \<notin> set b" "y = [] \<or> hd y = CHR ''/''"
  shows "starts_with (a @ y) (b @ CHR ''/'' # x) \<longleftrightarrow> a = b \<and> starts_with y (CHR ''/'' # x)"
  using assms
proof (induction b arbitrary: a)
  case Nil
  then show ?case by (cases a) (auto simp: starts_with_def)
next
  case (Cons c b)
  show ?case
  proof (cases a)
    case Nil
    then show ?thesis using Cons.prems by (cases y) (auto simp: starts_with_def)
  next
    case (Cons d a')
    have "starts_with (a @ y) ((c # b) @ CHR ''/'' # x) \<longleftrightarrow> d = c \<and> starts_with (a' @ y) (b @ CHR ''/'' # x)"
      using Cons by (auto simp: starts_with_def)
    then show ?thesis using Cons.IH [of a'] Cons.prems Cons by auto
  qed
qed

lemma starts_with_slashed:
  "proper_names os \<Longrightarrow> proper_names ps \<Longrightarrow> starts_with (slashed ps) (slashed os @ ''/'') \<longleftrightarrow> (\<exists>r rs. ps = os @ r # rs)"
proof (induction os arbitrary: ps)
  case Nil
  then show ?case by (cases ps) (auto simp: starts_with_def)
next
  case (Cons o' os)
  show ?case
  proof (cases ps)
    case Nil
    then show ?thesis by (simp add: starts_with_def)
  next
    case (Cons p ps')
    obtain x where x: "slashed os @ ''/'' = CHR ''/'' # x" by (cases os) auto
    have "slashed ps' = [] \<or> hd (slashed ps') = CHR ''/''" by (cases ps') auto
    moreover have "CHR ''/'' \<notin> set p" "CHR ''/'' \<notin> set o'"
      using Cons.prems Cons by (auto simp: proper_name_def)
    ultimately have "starts_with (p @ slashed ps') (o' @ slashed os @ ''/'') \<longleftrightarrow>
        p = o' \<and> starts_with (slashed ps') (slashed os @ ''/'')"
      unfolding x by (intro slash_free_prefix) auto
    moreover have "starts_with (slashed ps) (slashed (o' # os) @ ''/'') \<longleftrightarrow>
        starts_with (p @ slashed ps') (o' @ slashed os @ ''/'')"
      using Cons by (simp add: starts_with_def)
    ultimately show ?thesis using Cons.IH [of ps'] Cons.prems Cons by auto
  qed
qed

lemma starts_with_render:
  assumes "proper_names os" "proper_names ps" "os \<noteq> []"
  shows "starts_with (render ps) (render os @ ''/'') \<longleftrightarrow> (\<exists>r rs. ps = os @ r # rs)"
proof (cases "ps = []")
  case True
  have "length (render os @ ''/'') > 1" using assms(3) by (cases os) (auto simp: render_slashed)
  then have "\<not> starts_with (render ps) (render os @ ''/'')"
    using True by (auto simp: starts_with_def render_slashed dest: arg_cong [where f = length])
  with True show ?thesis by simp
next
  case False
  then show ?thesis using starts_with_slashed [OF assms(1,2)] assms(3) by (simp add: render_slashed)
qed

lemma moved_by_render:
  assumes "proper_names os" "proper_names ps" "os \<noteq> []"
  shows "moved_by (render os) (render ps) \<longleftrightarrow> (\<exists>rs. ps = os @ rs)"
proof -
  have "moved_by (render os) (render ps) \<longleftrightarrow> ps = os \<or> (\<exists>r rs. ps = os @ r # rs)"
    using assms by (simp add: moved_by_def starts_with_render render_inject)
  also have "\<dots> \<longleftrightarrow> (\<exists>rs. ps = os @ rs)" by (metis append_Nil2 list.exhaust)
  finally show ?thesis .
qed

lemma relocate_render:
  "os \<noteq> [] \<Longrightarrow> ns \<noteq> [] \<Longrightarrow> proper_names os \<Longrightarrow> proper_names rs \<Longrightarrow>
     relocate (render os) (render ns) (render (os @ rs)) = render (ns @ rs)"
  by (auto simp: relocate_def render_slashed)

subsection \<open>Walking\<close>

definition kind_at :: "memory_fs \<Rightarrow> string \<Rightarrow> inode_kind option" where
  "kind_at fs p = Option.bind (bt_get (path_index fs) p) (\<lambda>ino. map_option i_kind (bt_get (inodes fs) ino))"

definition live_index :: "memory_fs \<Rightarrow> bool" where
  "live_index fs \<longleftrightarrow> (\<forall>p ino. bt_get (path_index fs) p = Some ino \<longrightarrow> bt_get (inodes fs) ino \<noteq> None)"

lemma live_indexD: "live_index fs \<Longrightarrow> bt_get (path_index fs) p = Some ino \<Longrightarrow> \<exists>i. bt_get (inodes fs) ino = Some i"
  by (auto simp: live_index_def)

lemma kind_at_None: "live_index fs \<Longrightarrow> kind_at fs p = None \<longleftrightarrow> bt_get (path_index fs) p = None"
  by (auto simp: kind_at_def live_index_def split: bind_splits)

lemma walk_Cons:
  assumes "live_index fs"
  shows "walk fs f current (c # rest) =
    (let p = child_path current c in
     case kind_at fs p of
       None \<Rightarrow> walk fs f p rest
     | Some (SymbolicLink target) \<Rightarrow> if rest \<noteq> [] \<or> f then Redirected (redirect p target rest) else walk fs f p rest
     | Some Directory \<Rightarrow> walk fs f p rest
     | Some (File _) \<Rightarrow> if rest \<noteq> [] then Walk_Error (vfs_not_directory ''stat'' p) else walk fs f p rest)"
proof (cases "bt_get (path_index fs) (child_path current c)")
  case (Some ino)
  then obtain i where "bt_get (inodes fs) ino = Some i" using live_indexD [OF assms] by auto
  with Some show ?thesis by (cases f) (auto simp: kind_at_def Let_def split: inode_kind.splits)
qed (simp add: kind_at_def Let_def)

declare walk.simps(2) [simp del]

text \<open>\<open>plain fs ns\<close>: every prefix of the path that exists is a directory.\<close>

definition plain :: "memory_fs \<Rightarrow> string list \<Rightarrow> bool" where
  "plain fs ns \<longleftrightarrow> (\<forall>ms k. ns = ms @ k \<and> ms \<noteq> [] \<longrightarrow> kind_at fs (render ms) \<in> {None, Some Directory})"

lemma plain_Nil [simp]: "plain fs []"
  by (simp add: plain_def)

lemma plain_snoc [simp]:
  "plain fs (ns @ [n]) \<longleftrightarrow> plain fs ns \<and> kind_at fs (render (ns @ [n])) \<in> {None, Some Directory}"
proof
  assume l: "plain fs (ns @ [n])"
  have "plain fs ns"
    unfolding plain_def
  proof (intro allI impI)
    fix ms k assume "ns = ms @ k \<and> ms \<noteq> []"
    then have "ns @ [n] = ms @ (k @ [n]) \<and> ms \<noteq> []" by simp
    then show "kind_at fs (render ms) \<in> {None, Some Directory}" using l unfolding plain_def by blast
  qed
  moreover have "ns @ [n] = (ns @ [n]) @ []" "ns @ [n] \<noteq> []" by simp_all
  ultimately show "plain fs ns \<and> kind_at fs (render (ns @ [n])) \<in> {None, Some Directory}"
    using l unfolding plain_def by blast
next
  assume r: "plain fs ns \<and> kind_at fs (render (ns @ [n])) \<in> {None, Some Directory}"
  show "plain fs (ns @ [n])"
    unfolding plain_def
  proof (intro allI impI)
    fix ms k assume "ns @ [n] = ms @ k \<and> ms \<noteq> []"
    then show "kind_at fs (render ms) \<in> {None, Some Directory}"
      using r unfolding plain_def by (cases k rule: rev_cases) auto
  qed
qed

lemma plain_prefix: "plain fs (ns @ ms) \<Longrightarrow> plain fs ns"
  by (induction ms rule: rev_induct) (auto simp flip: append_assoc)

lemma walk_Cons_Reached:
  assumes "live_index fs" "walk fs f c (p # ps) = Reached q"
  shows "walk fs f (child_path c p) ps = Reached q"
    "ps \<noteq> [] \<Longrightarrow> kind_at fs (child_path c p) \<in> {None, Some Directory}"
    "f \<Longrightarrow> kind_at fs (child_path c p) \<noteq> Some (SymbolicLink t)"
  using assms(2) unfolding walk_Cons [OF assms(1)] Let_def
  by (simp_all split: option.splits inode_kind.splits if_splits)

lemma walk_reached:
  assumes "live_index fs" "proper_names (cs @ ps)" "plain fs cs" "walk fs f (render cs) ps = Reached q"
  shows "q = render (cs @ ps) \<and> plain fs (butlast (cs @ ps)) \<and>
    (f \<and> ps \<noteq> [] \<longrightarrow> kind_at fs q \<noteq> Some (SymbolicLink t))"
  using assms(2-)
proof (induction ps arbitrary: cs)
  case Nil
  have "plain fs (butlast cs)" using Nil.prems(2) by (cases cs rule: rev_cases) auto
  then show ?case using Nil.prems(3) by simp
next
  case (Cons p ps)
  have p: "child_path (render cs) p = render (cs @ [p])" using Cons.prems(1) by (simp add: child_path_render)
  note step = walk_Cons_Reached [OF assms(1) Cons.prems(3), unfolded p]
  show ?case
  proof (cases "ps = []")
    case True
    then show ?thesis using Cons.prems(2) step(1) step(3) [of t] by auto
  next
    case False
    then have "plain fs (cs @ [p])" using Cons.prems(2) step(2) by simp
    moreover have "proper_names ((cs @ [p]) @ ps)" using Cons.prems(1) by simp
    ultimately show ?thesis using Cons.IH [of "cs @ [p]"] step(1) False by auto
  qed
qed

lemma walk_plain:
  assumes "live_index fs" "proper_names (cs @ ps)" "plain fs (cs @ ps)"
  shows "walk fs f (render cs) ps = Reached (render (cs @ ps))"
  using assms(2-)
proof (induction ps arbitrary: cs)
  case (Cons p ps)
  have p: "child_path (render cs) p = render (cs @ [p])" using Cons.prems(1) by (simp add: child_path_render)
  have "plain fs (cs @ [p])" using plain_prefix [of fs "cs @ [p]" ps] Cons.prems(2) by simp
  then have "kind_at fs (render (cs @ [p])) \<in> {None, Some Directory}" by simp
  then show ?case
    using Cons.IH [of "cs @ [p]"] Cons.prems walk_Cons [OF assms(1), of f "render cs" p ps]
    by (auto simp: p Let_def)
qed simp

definition calm :: "'a result \<Rightarrow> bool" where
  "calm r \<longleftrightarrow> (\<forall>e. r = Inl e \<longrightarrow> err_code e \<noteq> PANIC)"

lemma calm_simps [simp]: "calm (Inr x)" "calm (Inl e) \<longleftrightarrow> err_code e \<noteq> PANIC"
  by (simp_all add: calm_def)

lemma calm_walk:
  assumes "live_index fs" "walk fs f c ps = Walk_Error e"
  shows "err_code e \<noteq> PANIC"
  using assms(2)
proof (induction ps arbitrary: c)
  case (Cons p ps)
  then show ?case
    unfolding walk_Cons [OF assms(1)] Let_def
    by (auto simp: vfs_not_directory_def split: option.splits inode_kind.splits if_splits)
qed simp

lemma calm_validate: "calm (validate_path path)"
  by (auto simp: validate_path_def calm_def vfs_path_too_long_def vfs_invalid_input_def Let_def split: if_splits option.splits)

lemma calm_resolve_path_with_options:
  "live_index fs \<Longrightarrow> calm (resolve_path_with_options fs path f depth)"
proof (induction fs path f depth rule: resolve_path_with_options.induct)
  case (1 fs path f depth)
  note unfold = resolve_path_with_options.simps [of fs path f depth]
  show ?case
  proof (cases "walk fs f ''/'' (components (normalize_path path))")
    case (Walk_Error e)
    then show ?thesis
      using calm_walk [OF "1.prems" Walk_Error] calm_validate [of path] unfold
      by (auto simp: vfs_symlink_loop_def Let_def split: sum.splits)
  next
    case (Redirected p)
    then show ?thesis
      using "1.IH" "1.prems" calm_validate [of path] unfold
      by (auto simp: vfs_symlink_loop_def Let_def split: sum.splits)
  next
    case (Reached p)
    then show ?thesis
      using calm_validate [of path] unfold by (auto simp: vfs_symlink_loop_def Let_def split: sum.splits)
  qed
qed

lemma resolved_names:
  assumes "live_index fs" "resolve_path_with_options fs path f depth = Inr q"
  obtains ns where "proper_names ns" "q = render ns" "plain fs (butlast ns)"
    "f \<and> ns \<noteq> [] \<longrightarrow> (\<forall>t. kind_at fs q \<noteq> Some (SymbolicLink t))"
  using assms
proof (induction fs path f depth arbitrary: thesis rule: resolve_path_with_options.induct)
  case (1 fs path f depth)
  note unfold = resolve_path_with_options.simps [of fs path f depth]
  let ?ns = "normal_names path"
  have proper: "proper_names ?ns" by (simp add: normal_names_proper)
  show ?case
  proof (cases "?ns = []")
    case True
    then have "q = ''/''" using unfold "1.prems"(3)
      by (auto simp: normalize_path_render render_def split: sum.splits if_splits)
    then show ?thesis using "1.prems"(1) [of "[]"] by (simp add: render_def)
  next
    case False
    then have root: "normalize_path path \<noteq> ''/''" using proper by (simp add: normalize_path_render render_root_iff)
    have comps: "components (normalize_path path) = ?ns" using proper by (simp add: normalize_path_render components_render)
    have slash: "render [] = ''/''" by (simp add: render_def)
    show ?thesis
    proof (cases "walk fs f ''/'' ?ns")
      case (Reached p)
      then have p: "p = q" using unfold "1.prems"(3) root comps by (auto simp: Let_def split: sum.splits if_splits)
      have "q = render ?ns \<and> plain fs (butlast ?ns) \<and> (f \<longrightarrow> kind_at fs q \<noteq> Some (SymbolicLink t))" for t
        using walk_reached [OF "1.prems"(2), of "[]" ?ns f q t] proper Reached False p slash by auto
      then show ?thesis using "1.prems"(1) [of ?ns] proper by blast
    next
      case (Redirected p)
      then have "resolve_path_with_options fs p f (depth + 1) = Inr q"
        using unfold "1.prems"(3) root comps by (auto simp: Let_def split: sum.splits if_splits)
      moreover obtain u where "validate_path path = Inr u" "\<not> MAX_SYMLINK_DEPTH < depth"
        using unfold "1.prems"(3) by (auto split: sum.splits if_splits)
      ultimately show ?thesis using "1.IH" [OF _ _ refl root] "1.prems" Redirected comps by auto
    next
      case (Walk_Error e)
      then show ?thesis using unfold "1.prems"(3) root comps by (auto simp: Let_def split: sum.splits if_splits)
    qed
  qed
qed

lemma resolve_plain:
  assumes "live_index fs" "proper_names ns" "plain fs ns" "resolve_path_with_options fs (render ns) f depth = Inr q"
  shows "q = render ns"
proof -
  have "walk fs f ''/'' ns = Reached (render ns)"
    using walk_plain [OF assms(1), of "[]" ns f] assms(2,3) by (simp add: render_def)
  then show ?thesis
    using assms(4) resolve_path_with_options.simps [of fs "render ns" f depth] assms(2)
    by (auto simp: normalize_render components_render Let_def split: sum.splits if_splits)
qed

end
