(* ===== verification/Memory_Fs_Inv.thy ===== *)
theory Memory_Fs_Inv
  imports Vfs_Tree
begin

text \<open>
  The invariant of the in-memory file system that its \<^verbatim>\<open>expect\<close> calls rely on: the index points at
  inodes that exist, and the link count of every inode is the number of its paths (one more for a
  directory). Every operation keeps it, and under it no operation panics.
\<close>

subsection \<open>Counting links\<close>

definition links :: "memory_fs \<Rightarrow> inode_id \<Rightarrow> nat" where
  "links fs ino = card {p. bt_get (path_index fs) p = Some ino}"

lemma finite_links [simp]: "finite {p. bt_get m p = Some v}"
  by (rule finite_subset [OF _ finite_dom_bt_get [of m]]) auto

lemma links_index:
  assumes "bt_get (path_index fs) p = None"
  shows "links (index_path p i fs) j = (if j = i then Suc (links fs j) else links fs j)"
proof -
  have "{q. bt_get (path_index (index_path p i fs)) q = Some j} =
      (if j = i then insert p {q. bt_get (path_index fs) q = Some j} else {q. bt_get (path_index fs) q = Some j})"
    using assms by (auto simp: index_path_def)
  moreover have "card (insert p {q. bt_get (path_index fs) q = Some i}) = Suc (card {q. bt_get (path_index fs) q = Some i})"
    using assms by (intro card_insert_disjoint) auto
  ultimately show ?thesis by (simp add: links_def)
qed

lemma links_unindex:
  assumes "bt_get (path_index fs) p = Some i"
  shows "links (unindex_path p fs) j = (if j = i then links fs j - 1 else links fs j)"
proof -
  have "{q. bt_get (path_index (unindex_path p fs)) q = Some j} = {q. bt_get (path_index fs) q = Some j} - {p}"
    by (auto simp: unindex_path_def)
  then show ?thesis using assms by (simp add: links_def card_Diff_singleton)
qed

lemma links_pos: "bt_get (path_index fs) p = Some i \<Longrightarrow> 0 < links fs i"
  by (auto simp: links_def card_gt_0_iff)

lemma links_cong: "path_index fs' = path_index fs \<Longrightarrow> links fs' = links fs"
  by (simp add: links_def fun_eq_iff)

subsection \<open>The invariant\<close>

definition links_ok :: "nat \<Rightarrow> inode \<Rightarrow> bool" where
  "links_ok n i \<longleftrightarrow>
     (if i_kind i = Directory then n \<le> 1 \<and> m_nlink (i_metadata i) = n + 1
      else 0 < n \<and> m_nlink (i_metadata i) = n)"

definition fs_ok :: "memory_fs \<Rightarrow> bool" where
  "fs_ok fs \<longleftrightarrow> live_index fs \<and>
     (\<forall>ino i. bt_get (inodes fs) ino = Some i \<longrightarrow> ino < next_ino fs \<and> links_ok (links fs ino) i)"

lemma fs_okI:
  assumes "\<And>p ino. bt_get (path_index fs) p = Some ino \<Longrightarrow> bt_get (inodes fs) ino \<noteq> None"
    "\<And>ino i. bt_get (inodes fs) ino = Some i \<Longrightarrow> ino < next_ino fs \<and> links_ok (links fs ino) i"
  shows "fs_ok fs"
  using assms unfolding fs_ok_def live_index_def by blast

lemma fs_ok_live:
  assumes "fs_ok fs" "bt_get (path_index fs) p = Some ino"
  obtains i where "bt_get (inodes fs) ino = Some i" "links_ok (links fs ino) i"
  using assms unfolding fs_ok_def live_index_def by blast

lemma fs_ok_inode:
  assumes "fs_ok fs" "bt_get (inodes fs) ino = Some i"
  shows "ino < next_ino fs" "links_ok (links fs ino) i"
  using assms unfolding fs_ok_def live_index_def by blast+

lemma fs_ok_fresh:
  assumes "fs_ok fs"
  shows "bt_get (inodes fs) (next_ino fs) = None" "links fs (next_ino fs) = 0"
proof -
  show none: "bt_get (inodes fs) (next_ino fs) = None"
    using fs_ok_inode(1) [OF assms, of "next_ino fs"] by (cases "bt_get (inodes fs) (next_ino fs)") auto
  then have "{p. bt_get (path_index fs) p = Some (next_ino fs)} = {}"
    using assms unfolding fs_ok_def live_index_def by fastforce
  then show "links fs (next_ino fs) = 0" by (simp add: links_def)
qed

subsection \<open>The elementary changes\<close>

definition keeps_links :: "(inode \<Rightarrow> inode) \<Rightarrow> bool" where
  "keeps_links f \<longleftrightarrow> (\<forall>i. (i_kind (f i) = Directory \<longleftrightarrow> i_kind i = Directory) \<and>
     m_nlink (i_metadata (f i)) = m_nlink (i_metadata i))"

lemma keeps_links_metadata:
  "(\<And>m. m_nlink (f m) = m_nlink m) \<Longrightarrow> keeps_links (update_metadata f)"
  by (simp add: keeps_links_def update_metadata_def)

lemma keeps_links_times [simp]: "keeps_links (set_ctime now)" "keeps_links (set_atime now)" "keeps_links (set_mtime_ctime now)"
  unfolding set_ctime_def set_atime_def set_mtime_ctime_def by (simp_all add: keeps_links_metadata)

lemma links_ok_keeps: "keeps_links f \<Longrightarrow> links_ok n (f i) = links_ok n i"
  by (simp add: keeps_links_def links_ok_def)

lemma update_inode_fields [simp]:
  "path_index (update_inode ino f fs) = path_index fs" "next_ino (update_inode ino f fs) = next_ino fs"
  "bt_get (inodes (update_inode ino f fs)) j = (if j = ino then map_option f (bt_get (inodes fs) ino) else bt_get (inodes fs) j)"
  by (simp_all add: update_inode_def)

lemma links_update_inode [simp]: "links (update_inode ino f fs) = links fs"
  by (rule links_cong) simp

lemma fs_ok_update_at:
  assumes ok: "fs_ok fs"
    and f: "\<And>i. bt_get (inodes fs) ino = Some i \<Longrightarrow> links_ok (links fs ino) i \<Longrightarrow> links_ok (links fs ino) (f i)"
  shows "fs_ok (update_inode ino f fs)"
proof (rule fs_okI)
  show "bt_get (inodes (update_inode ino f fs)) j \<noteq> None" if "bt_get (path_index (update_inode ino f fs)) p = Some j" for p j
    using that ok by (auto simp: fs_ok_def live_index_def)
  fix j i assume "bt_get (inodes (update_inode ino f fs)) j = Some i"
  then show "j < next_ino (update_inode ino f fs) \<and> links_ok (links (update_inode ino f fs) j) i"
    using fs_ok_inode [OF ok] f by (auto split: if_splits)
qed

lemma fs_ok_update: "fs_ok fs \<Longrightarrow> keeps_links f \<Longrightarrow> fs_ok (update_inode ino f fs)"
  by (rule fs_ok_update_at) (simp_all add: links_ok_keeps)

lemma allocate_inodeE:
  assumes "allocate_inode now kind mode fs = (ino, fs1)"
  obtains i where "ino = next_ino fs" "path_index fs1 = path_index fs" "next_ino fs1 = Suc (next_ino fs)"
    "inodes fs1 = bt_insert ino i (inodes fs)" "i_kind i = kind" "m_nlink (i_metadata i) = (if kind = Directory then 2 else 1)"
  using assms by (auto simp: allocate_inode_def Let_def)

lemma fs_ok_create:
  assumes ok: "fs_ok fs" and absent: "bt_get (path_index fs) p = None"
    and alloc: "allocate_inode now kind mode fs = (ino, fs1)"
  shows "fs_ok (index_path p ino fs1)"
proof -
  obtain i where ino: "ino = next_ino fs" and fs1: "path_index fs1 = path_index fs" "next_ino fs1 = Suc (next_ino fs)"
    and i: "inodes fs1 = bt_insert ino i (inodes fs)" "i_kind i = kind"
    "m_nlink (i_metadata i) = (if kind = Directory then 2 else 1)"
    by (rule allocate_inodeE [OF alloc])
  have "bt_get (path_index fs1) p = None" using absent fs1 by simp
  note links = links_index [OF this, of ino, unfolded links_cong [OF fs1(1)]]
  show ?thesis
  proof (rule fs_okI)
    show "bt_get (inodes (index_path p ino fs1)) j \<noteq> None" if "bt_get (path_index (index_path p ino fs1)) q = Some j" for q j
      using that ok i(1) fs1(1) by (auto simp: index_path_def fs_ok_def live_index_def split: if_splits)
    fix j k assume k: "bt_get (inodes (index_path p ino fs1)) j = Some k"
    show "j < next_ino (index_path p ino fs1) \<and> links_ok (links (index_path p ino fs1) j) k"
    proof (cases "j = ino")
      case True
      then have "k = i" using k i(1) by (simp add: index_path_def)
      then show ?thesis
        using True i fs_ok_fresh [OF ok] ino fs1(2) links [of j] by (simp add: links_ok_def index_path_def)
    next
      case False
      then have "bt_get (inodes fs) j = Some k" using k i(1) by (simp add: index_path_def)
      from fs_ok_inode [OF ok this] show ?thesis
        using False links [of j] fs1(2) by (simp add: index_path_def)
    qed
  qed
qed

lemma fs_ok_drop:
  assumes ok: "fs_ok fs" and p: "bt_get (path_index fs) p = Some ino" and f: "keeps_links f"
  shows "fst (decrement_link_count ino (unindex_path p (update_inode ino f fs))) = Inr ()"
    "fs_ok (snd (decrement_link_count ino (unindex_path p (update_inode ino f fs))))"
proof -
  let ?fs1 = "unindex_path p (update_inode ino f fs)"
  obtain i where i: "bt_get (inodes fs) ino = Some i" "links_ok (links fs ino) i" by (rule fs_ok_live [OF ok p])
  let ?n = "m_nlink (i_metadata i) - 1"
  let ?fs2 = "update_inode ino (set_nlink ?n) ?fs1"
  let ?fs3 = "if ?n = 0 then ?fs2\<lparr>inodes := bt_remove ino (inodes ?fs2)\<rparr> else ?fs2"
  have fi: "bt_get (inodes ?fs1) ino = Some (f i)" "m_nlink (i_metadata (f i)) = m_nlink (i_metadata i)"
    using i(1) f by (simp_all add: unindex_path_def keeps_links_def)
  have eq: "decrement_link_count ino ?fs1 = (Inr (), ?fs3)"
    using fi by (simp add: decrement_link_count_def Let_def)
  have "bt_get (path_index (update_inode ino f fs)) p = Some ino" using p by simp
  note links = links_unindex [OF this]
  have idx: "path_index ?fs3 = bt_remove p (path_index fs)" "next_ino ?fs3 = next_ino fs"
    by (simp_all add: unindex_path_def)
  have "path_index ?fs3 = path_index ?fs1" by simp
  then have l3: "links ?fs3 j = (if j = ino then links fs j - 1 else links fs j)" for j
    using links [of j] links_cong [of ?fs3 ?fs1] by simp
  have pos: "0 < links fs ino" by (rule links_pos [OF p])
  have n0: "?n = 0 \<Longrightarrow> links fs ino = 1 \<and> i_kind i \<noteq> Directory"
    using i(2) pos by (auto simp: links_ok_def split: if_splits)
  have "fs_ok ?fs3"
  proof (rule fs_okI)
    fix q j assume q: "bt_get (path_index ?fs3) q = Some j"
    then have old: "bt_get (path_index fs) q = Some j" "q \<noteq> p" using idx(1) by (auto split: if_splits)
    have "j \<noteq> ino" if "?n = 0"
    proof
      assume "j = ino"
      then have "0 < links ?fs3 ino" using links_pos [OF q] by simp
      then show False using l3 [of ino] n0 [OF that] by simp
    qed
    then show "bt_get (inodes ?fs3) j \<noteq> None"
      using old(1) ok fi(1) by (auto simp: unindex_path_def fs_ok_def live_index_def)
  next
    fix j k assume k: "bt_get (inodes ?fs3) j = Some k"
    show "j < next_ino ?fs3 \<and> links_ok (links ?fs3 j) k"
    proof (cases "j = ino")
      case True
      then have "?n \<noteq> 0" "k = set_nlink ?n (f i)" using k fi(1) by (auto split: if_splits)
      then show ?thesis
        using True fs_ok_inode(1) [OF ok i(1)] i(2) l3 [of ino] idx(2) f pos
        by (auto simp: links_ok_def set_nlink_def update_metadata_def keeps_links_def split: if_splits)
    next
      case False
      then have "bt_get (inodes fs) j = Some k" using k by (auto simp: unindex_path_def split: if_splits)
      from fs_ok_inode [OF ok this] show ?thesis using False l3 [of j] idx(2) by simp
    qed
  qed
  with eq show "fst (decrement_link_count ino ?fs1) = Inr ()" "fs_ok (snd (decrement_link_count ino ?fs1))" by simp_all
qed


lemma fs_ok_link:
  assumes ok: "fs_ok fs" and i: "bt_get (inodes fs) ino = Some i" "i_kind i \<noteq> Directory"
    and absent: "bt_get (path_index fs) p = None"
    and f: "\<And>i. i_kind (f i) = i_kind i" "\<And>i. m_nlink (i_metadata (f i)) = Suc (m_nlink (i_metadata i))"
  shows "fs_ok (update_inode ino f (index_path p ino fs))"
proof (rule fs_okI)
  show "bt_get (inodes (update_inode ino f (index_path p ino fs))) j \<noteq> None"
    if "bt_get (path_index (update_inode ino f (index_path p ino fs))) q = Some j" for q j
    using that ok i(1) by (auto simp: index_path_def fs_ok_def live_index_def split: if_splits)
  fix j k assume "bt_get (inodes (update_inode ino f (index_path p ino fs))) j = Some k"
  then show "j < next_ino (update_inode ino f (index_path p ino fs)) \<and>
      links_ok (links (update_inode ino f (index_path p ino fs)) j) k"
    using fs_ok_inode [OF ok, of j] i f links_index [OF absent, of ino j]
    by (auto simp: index_path_def links_ok_def split: if_splits)
qed

subsection \<open>The tree\<close>

text \<open>What the tree looks like: \<open>Some True\<close> at a directory, \<open>Some False\<close> at any other entry.\<close>

definition shape :: "memory_fs \<Rightarrow> string \<Rightarrow> bool option" where
  "shape fs p = map_option (\<lambda>k. k = Directory) (kind_at fs p)"

definition tree_ok :: "(string \<Rightarrow> bool option) \<Rightarrow> bool" where
  "tree_ok s \<longleftrightarrow> s (render []) = Some True \<and>
     (\<forall>p. s p \<noteq> None \<longrightarrow> (\<exists>ns. proper_names ns \<and> p = render ns)) \<and>
     (\<forall>ns n. proper_names (ns @ [n]) \<and> s (render (ns @ [n])) \<noteq> None \<longrightarrow> s (render ns) = Some True)"

lemma tree_okD:
  assumes "tree_ok s"
  shows "s (render []) = Some True" "s p \<noteq> None \<Longrightarrow> \<exists>ns. proper_names ns \<and> p = render ns"
    "proper_names (ns @ [n]) \<Longrightarrow> s (render (ns @ [n])) \<noteq> None \<Longrightarrow> s (render ns) = Some True"
  using assms unfolding tree_ok_def by blast+

lemma tree_ok_prefix:
  assumes "tree_ok s" "proper_names (ns @ ms)" "s (render (ns @ ms)) \<noteq> None" "ms \<noteq> []"
  shows "s (render ns) = Some True"
  using assms(2-)
proof (induction ms rule: rev_induct)
  case (snoc m ms)
  have "s (render (ns @ ms)) = Some True"
    using tree_okD(3) [OF assms(1), of "ns @ ms" m] snoc.prems by simp
  then show ?case using snoc.IH snoc.prems(1) by (cases "ms = []") auto
qed simp

lemma tree_ok_add:
  assumes "tree_ok s" "proper_names (ns @ [n])" "s (render ns) = Some True" "s (render (ns @ [n])) = None"
  shows "tree_ok (s(render (ns @ [n]) \<mapsto> b))"
  unfolding tree_ok_def
proof (intro conjI allI impI)
  have "render [] \<noteq> render (ns @ [n])" using assms(2) by (subst render_inject) auto
  then show "(s(render (ns @ [n]) \<mapsto> b)) (render []) = Some True" using tree_okD(1) [OF assms(1)] by simp
  show "\<exists>ms. proper_names ms \<and> p = render ms" if "(s(render (ns @ [n]) \<mapsto> b)) p \<noteq> None" for p
  proof (cases "p = render (ns @ [n])")
    case True
    then show ?thesis using assms(2) by blast
  next
    case False
    then show ?thesis using that tree_okD(2) [OF assms(1), of p] by simp
  qed
  fix ms m assume h: "proper_names (ms @ [m]) \<and> (s(render (ns @ [n]) \<mapsto> b)) (render (ms @ [m])) \<noteq> None"
  show "(s(render (ns @ [n]) \<mapsto> b)) (render ms) = Some True"
  proof (cases "ms @ [m] = ns @ [n]")
    case True
    then have "render ms \<noteq> render (ns @ [n])" using assms(2) by (subst render_inject) auto
    then show ?thesis using True assms(3) by simp
  next
    case False
    then have "render (ms @ [m]) \<noteq> render (ns @ [n])" using h assms(2) by (subst render_inject) auto
    then have "s (render ms) = Some True" using h tree_okD(3) [OF assms(1), of ms m] by simp
    then show ?thesis using assms(4) by auto
  qed
qed

lemma tree_ok_del:
  assumes "tree_ok s" "proper_names ns" "ns \<noteq> []" "\<And>n. proper_name n \<Longrightarrow> s (render (ns @ [n])) = None"
  shows "tree_ok (s(render ns := None))"
  unfolding tree_ok_def
proof (intro conjI allI impI)
  have "render [] \<noteq> render ns" using assms(2,3) by (subst render_inject) auto
  then show "(s(render ns := None)) (render []) = Some True" using tree_okD(1) [OF assms(1)] by simp
  show "\<exists>ms. proper_names ms \<and> p = render ms" if "(s(render ns := None)) p \<noteq> None" for p
    using that tree_okD(2) [OF assms(1)] by (auto split: if_splits)
  fix ms m assume h: "proper_names (ms @ [m]) \<and> (s(render ns := None)) (render (ms @ [m])) \<noteq> None"
  then have "s (render (ms @ [m])) \<noteq> None" by (auto split: if_splits)
  moreover from this have "s (render ms) = Some True" using h tree_okD(3) [OF assms(1)] by blast
  moreover from calculation have "ms \<noteq> ns" using h assms(4) [of m] by auto
  then have "render ms \<noteq> render ns" using h assms(2) by (subst render_inject) auto
  ultimately show "(s(render ns := None)) (render ms) = Some True" by simp
qed

subsection \<open>The invariant of the file system\<close>

definition fs_inv :: "memory_fs \<Rightarrow> bool" where
  "fs_inv fs \<longleftrightarrow> fs_ok fs \<and> tree_ok (shape fs)"

lemma fs_invD: "fs_inv fs \<Longrightarrow> fs_ok fs" "fs_inv fs \<Longrightarrow> tree_ok (shape fs)" "fs_inv fs \<Longrightarrow> live_index fs"
  by (simp_all add: fs_inv_def fs_ok_def)

lemma shape_None: "live_index fs \<Longrightarrow> shape fs p = None \<longleftrightarrow> bt_get (path_index fs) p = None"
  by (simp add: shape_def kind_at_None)

lemma shape_Some:
  "bt_get (path_index fs) p = Some ino \<Longrightarrow> bt_get (inodes fs) ino = Some i \<Longrightarrow> shape fs p = Some (i_kind i = Directory)"
  by (simp add: shape_def kind_at_def)

lemma shape_SomeD:
  assumes "shape fs p = Some b"
  obtains ino i where "bt_get (path_index fs) p = Some ino" "bt_get (inodes fs) ino = Some i" "b = (i_kind i = Directory)"
  using assms by (auto simp: shape_def kind_at_def split: bind_splits)

definition same_node :: "inode \<Rightarrow> inode \<Rightarrow> bool" where
  "same_node i j \<longleftrightarrow> (i_kind i = Directory \<longleftrightarrow> i_kind j = Directory) \<and> m_nlink (i_metadata i) = m_nlink (i_metadata j)"

lemma same_node_links: "same_node i j \<Longrightarrow> links_ok n i = links_ok n j"
  by (simp add: same_node_def links_ok_def)

lemma shape_update:
  assumes "\<And>i. bt_get (inodes fs) ino = Some i \<Longrightarrow> (i_kind (f i) = Directory \<longleftrightarrow> i_kind i = Directory)"
  shows "shape (update_inode ino f fs) = shape fs"
proof
  fix p
  show "shape (update_inode ino f fs) p = shape fs p"
  proof (cases "bt_get (path_index fs) p")
    case (Some j)
    then show ?thesis using assms by (cases "bt_get (inodes fs) j") (auto simp: shape_def kind_at_def)
  qed (simp add: shape_def kind_at_def)
qed

lemma inv_update:
  assumes "fs_inv fs" "\<And>i. bt_get (inodes fs) ino = Some i \<Longrightarrow> same_node (f i) i"
  shows "fs_inv (update_inode ino f fs)"
proof -
  have "shape (update_inode ino f fs) = shape fs"
    by (rule shape_update) (use assms(2) in \<open>auto simp: same_node_def\<close>)
  moreover have "fs_ok (update_inode ino f fs)"
    by (rule fs_ok_update_at [OF fs_invD(1) [OF assms(1)]]) (simp add: same_node_links [OF assms(2)])
  ultimately show ?thesis using fs_invD(2) [OF assms(1)] by (simp add: fs_inv_def)
qed

lemma inv_update_keeps: "fs_inv fs \<Longrightarrow> keeps_links f \<Longrightarrow> fs_inv (update_inode ino f fs)"
  by (rule inv_update) (auto simp: keeps_links_def same_node_def)

text \<open>A path where an entry can be added: its parent is a directory.\<close>

definition addable :: "memory_fs \<Rightarrow> string \<Rightarrow> bool" where
  "addable fs p \<longleftrightarrow> bt_get (path_index fs) p = None \<and>
     (\<exists>ns n. proper_names (ns @ [n]) \<and> p = render (ns @ [n]) \<and> shape fs (render ns) = Some True)"

lemma tree_ok_addable:
  assumes "fs_inv fs" "addable fs p"
  shows "tree_ok ((shape fs)(p \<mapsto> b))"
  using assms tree_ok_add [OF fs_invD(2) [OF assms(1)]] shape_None [OF fs_invD(3) [OF assms(1)]]
  unfolding addable_def by blast

lemma kind_at_create:
  assumes ok: "fs_ok fs" and alloc: "allocate_inode now kind mode fs = (ino, fs1)"
  shows "kind_at (index_path p ino fs1) = (kind_at fs)(p \<mapsto> kind)"
proof
  fix q
  obtain i where i: "ino = next_ino fs" "path_index fs1 = path_index fs" "inodes fs1 = bt_insert ino i (inodes fs)" "i_kind i = kind"
    by (rule allocate_inodeE [OF alloc])
  have fresh: "bt_get (path_index fs) q \<noteq> Some ino"
    using fs_ok_fresh(1) [OF ok] i(1) ok unfolding fs_ok_def live_index_def by blast
  then show "kind_at (index_path p ino fs1) q = ((kind_at fs)(p \<mapsto> kind)) q"
    using i by (cases "bt_get (path_index fs) q") (auto simp: kind_at_def index_path_def)
qed

lemma inv_create:
  assumes inv: "fs_inv fs" and p: "addable fs p" and alloc: "allocate_inode now kind mode fs = (ino, fs1)"
  shows "fs_inv (index_path p ino fs1)"
proof -
  have absent: "bt_get (path_index fs) p = None" using p by (simp add: addable_def)
  have "shape (index_path p ino fs1) = (shape fs)(p \<mapsto> kind = Directory)"
    by (simp add: fun_eq_iff shape_def kind_at_create [OF fs_invD(1) [OF inv] alloc])
  then show ?thesis
    using fs_ok_create [OF fs_invD(1) [OF inv] absent alloc] tree_ok_addable [OF inv p] by (simp add: fs_inv_def)
qed

lemma inv_link:
  assumes inv: "fs_inv fs" and p: "addable fs p"
    and i: "bt_get (inodes fs) ino = Some i" "i_kind i \<noteq> Directory"
    and f: "\<And>i. i_kind (f i) = i_kind i" "\<And>i. m_nlink (i_metadata (f i)) = Suc (m_nlink (i_metadata i))"
  shows "fs_inv (update_inode ino f (index_path p ino fs))"
proof -
  have absent: "bt_get (path_index fs) p = None" using p by (simp add: addable_def)
  have "shape (update_inode ino f (index_path p ino fs)) = (shape fs)(p \<mapsto> False)"
  proof -
    have "shape (update_inode ino f (index_path p ino fs)) = shape (index_path p ino fs)"
      by (rule shape_update) (simp add: f)
    also have "\<dots> = (shape fs)(p \<mapsto> False)"
      using i by (auto simp: fun_eq_iff shape_def kind_at_def index_path_def)
    finally show ?thesis .
  qed
  then show ?thesis
    using fs_ok_link [OF fs_invD(1) [OF inv] i absent f] tree_ok_addable [OF inv p] by (simp add: fs_inv_def)
qed

text \<open>A path whose entry can be removed: it is not the root and has nothing below it.\<close>

definition leaf :: "memory_fs \<Rightarrow> string \<Rightarrow> bool" where
  "leaf fs p \<longleftrightarrow> p \<noteq> ''/'' \<and> (shape fs p = Some False \<or> \<not> has_descendant fs p)"

lemma leaf_children:
  assumes inv: "fs_inv fs" and leaf: "leaf fs (render ns)" and ns: "proper_names ns" "ns \<noteq> []" and n: "proper_name n"
  shows "shape fs (render (ns @ [n])) = None"
proof (rule ccontr)
  assume some: "shape fs (render (ns @ [n])) \<noteq> None"
  then have "shape fs (render ns) = Some True" using tree_okD(3) [OF fs_invD(2) [OF inv]] ns n by simp
  then have "\<not> has_descendant fs (render ns)" using leaf by (simp add: leaf_def)
  moreover have "render (ns @ [n]) \<in> set (bt_keys (path_index fs))"
    using some shape_None [OF fs_invD(3) [OF inv]] by auto
  moreover have "starts_with (render (ns @ [n])) (render ns @ ''/'')"
    using ns n by (subst starts_with_render) auto
  ultimately show False by (auto simp: has_descendant_def list_ex_iff)
qed

lemma inv_drop:
  assumes inv: "fs_inv fs" and p: "bt_get (path_index fs) p = Some ino" "leaf fs p" and f: "keeps_links f"
    and r: "decrement_link_count ino (unindex_path p (update_inode ino f fs)) = (r, fs')"
  shows "r = Inr () \<and> fs_inv fs' \<and> shape fs' = (shape fs)(p := None)"
proof -
  obtain i where i: "bt_get (inodes fs) ino = Some i" using fs_ok_live [OF fs_invD(1) [OF inv] p(1)] by blast
  have ok: "r = Inr ()" "fs_ok fs'" using fs_ok_drop [OF fs_invD(1) [OF inv] p(1) f] r by simp_all
  have idx: "path_index fs' = bt_remove p (path_index fs)"
    using r i by (auto simp: decrement_link_count_def Let_def unindex_path_def split: if_splits)
  have node: "\<exists>k0. bt_get (inodes fs) j = Some k0 \<and> (i_kind k = Directory \<longleftrightarrow> i_kind k0 = Directory)"
    if "bt_get (inodes fs') j = Some k" for j k
    using that r i f
    by (auto simp: decrement_link_count_def Let_def unindex_path_def set_nlink_def update_metadata_def keeps_links_def
        split: if_splits)
  have shape: "shape fs' = (shape fs)(p := None)"
  proof
    fix q
    show "shape fs' q = ((shape fs)(p := None)) q"
    proof (cases "bt_get (path_index fs') q")
      case None
      then show ?thesis using idx by (auto simp: shape_def kind_at_def split: if_splits)
    next
      case (Some j)
      then obtain k where k: "bt_get (inodes fs') j = Some k" using fs_ok_live [OF ok(2)] by blast
      have "q \<noteq> p" "bt_get (path_index fs) q = Some j" using Some idx by (auto split: if_splits)
      then show ?thesis using node [OF k] Some k by (auto simp: shape_def kind_at_def)
    qed
  qed
  obtain ns where ns: "proper_names ns" "p = render ns"
    using tree_okD(2) [OF fs_invD(2) [OF inv], of p] shape_Some [OF p(1) i] by auto
  moreover from this have "ns \<noteq> []" using p(2) by (auto simp: leaf_def render_def)
  moreover from calculation have "shape fs (render (ns @ [n])) = None" if "proper_name n" for n
    using leaf_children [OF inv] p(2) that by blast
  ultimately have "tree_ok ((shape fs)(p := None))" using tree_ok_del [OF fs_invD(2) [OF inv], of ns] by blast
  then show ?thesis using ok shape by (simp add: fs_inv_def)
qed

subsection \<open>Moving\<close>

lemma inv_move_file:
  assumes inv: "fs_inv fs" and p: "bt_get (path_index fs) p = Some ino" "shape fs p = Some False" and q: "addable fs q"
  shows "fs_inv (index_path q ino (unindex_path p fs))"
proof -
  let ?fs' = "index_path q ino (unindex_path p fs)"
  obtain i where i: "bt_get (inodes fs) ino = Some i" "i_kind i \<noteq> Directory"
    using p by (auto elim: shape_SomeD)
  have absent: "bt_get (path_index fs) q = None" "q \<noteq> p" using q p(1) by (auto simp: addable_def)
  have "links ?fs' j = links fs j" for j
  proof -
    have "bt_get (path_index (unindex_path p fs)) q = None" using absent by (simp add: unindex_path_def)
    from links_index [OF this] links_unindex [OF p(1)] links_pos [OF p(1)] show ?thesis by auto
  qed
  moreover have "inodes ?fs' = inodes fs" "next_ino ?fs' = next_ino fs"
    by (simp_all add: index_path_def unindex_path_def)
  moreover have "live_index ?fs'"
    using fs_invD(3) [OF inv] i by (auto simp: live_index_def index_path_def unindex_path_def)
  ultimately have ok: "fs_ok ?fs'" using fs_invD(1) [OF inv] by (simp add: fs_ok_def)
  have shape: "shape ?fs' = ((shape fs)(q \<mapsto> False))(p := None)"
    using i absent by (auto simp: fun_eq_iff shape_def kind_at_def index_path_def unindex_path_def)
  have tree: "tree_ok ((shape fs)(q \<mapsto> False))" by (rule tree_ok_addable [OF inv q])
  obtain ns where ns: "proper_names ns" "p = render ns"
    using tree_okD(2) [OF fs_invD(2) [OF inv], of p] p(2) by auto
  have "ns \<noteq> []" using tree_okD(1) [OF fs_invD(2) [OF inv]] p(2) ns(2) by auto
  moreover have "((shape fs)(q \<mapsto> False)) (render (ns @ [n])) = None" if n: "proper_name n" for n
  proof (rule ccontr)
    assume "\<not> ?thesis"
    then have "((shape fs)(q \<mapsto> False)) p = Some True" using tree_okD(3) [OF tree, of ns n] ns n by auto
    then show False using p(2) absent(2) by simp
  qed
  ultimately show ?thesis using ok shape tree_ok_del [OF tree ns(1)] ns(2) by (simp add: fs_inv_def)
qed

lemma fold_bt_remove:
  "bt_get (fold (\<lambda>(p, _). bt_remove p) xs m) x = (if x \<in> fst ` set xs then None else bt_get m x)"
  by (induction xs arbitrary: m) auto

lemma fold_bt_insert:
  assumes "distinct (map (g \<circ> fst) xs)"
  shows "bt_get (fold (\<lambda>(p, i). bt_insert (g p) i) xs m) x = Some v \<longleftrightarrow>
    (\<exists>p. (p, v) \<in> set xs \<and> g p = x) \<or> x \<notin> (g \<circ> fst) ` set xs \<and> bt_get m x = Some v"
  using assms
proof (induction xs arbitrary: m)
  case (Cons e xs)
  obtain p i where e: "e = (p, i)" by (cases e)
  have "g p \<notin> (g \<circ> fst) ` set xs" using Cons.prems e by simp
  then show ?case using Cons e by (auto simp: image_iff)
qed simp

text \<open>Where a path goes when the tree at \<open>os\<close> moves to \<open>qs\<close>.\<close>

definition transplant :: "string list \<Rightarrow> string list \<Rightarrow> string list \<Rightarrow> string list" where
  "transplant os qs ps = (if take (length os) ps = os then qs @ drop (length os) ps else ps)"

lemma transplant_below [simp]: "transplant os qs (os @ rs) = qs @ rs" "transplant os qs os = qs"
  by (simp_all add: transplant_def)

lemma transplant_other: "\<nexists>rs. ps = os @ rs \<Longrightarrow> transplant os qs ps = ps"
  unfolding transplant_def by (metis append_take_drop_id)

definition moved_entries :: "string \<Rightarrow> (string, inode_id) btree \<Rightarrow> (string \<times> inode_id) list" where
  "moved_entries old m = filter (\<lambda>(path, _). moved_by old path) (bt_entries m)"

lemma in_moved_entries:
  assumes os: "proper_names os" "os \<noteq> []" and m: "\<And>p. bt_get m p \<noteq> None \<Longrightarrow> \<exists>ps. proper_names ps \<and> p = render ps"
  shows "(p, w) \<in> set (moved_entries (render os) m) \<longleftrightarrow> (\<exists>rs. proper_names rs \<and> p = render (os @ rs) \<and> bt_get m p = Some w)"
proof
  assume "(p, w) \<in> set (moved_entries (render os) m)"
  then have pw: "bt_get m p = Some w" "moved_by (render os) p" by (auto simp: moved_entries_def in_bt_entries_iff)
  then obtain ps where ps: "proper_names ps" "p = render ps" using m by blast
  then obtain rs where "ps = os @ rs" using pw(2) os by (auto simp: moved_by_render)
  then show "\<exists>rs. proper_names rs \<and> p = render (os @ rs) \<and> bt_get m p = Some w" using ps pw by auto
next
  assume "\<exists>rs. proper_names rs \<and> p = render (os @ rs) \<and> bt_get m p = Some w"
  then obtain rs where rs: "proper_names rs" "p = render (os @ rs)" "bt_get m p = Some w" by blast
  then have "moved_by (render os) p" using os by (subst rs(2), subst moved_by_render) auto
  then show "(p, w) \<in> set (moved_entries (render os) m)" using rs by (simp add: moved_entries_def in_bt_entries_iff)
qed

lemma relocate_inj:
  assumes os: "proper_names os" "os \<noteq> []" and qs: "proper_names qs" "qs \<noteq> []"
    and m: "\<And>p. bt_get m p \<noteq> None \<Longrightarrow> \<exists>ps. proper_names ps \<and> p = render ps"
  shows "distinct (map (relocate (render os) (render qs) \<circ> fst) (moved_entries (render os) m))"
proof -
  let ?xs = "moved_entries (render os) m" and ?g = "relocate (render os) (render qs)"
  have "inj_on ?g (fst ` set ?xs)"
  proof (rule inj_onI)
    fix p p' assume "p \<in> fst ` set ?xs" "p' \<in> fst ` set ?xs" and eq: "?g p = ?g p'"
    then obtain rs rs' where rs: "proper_names rs" "p = render (os @ rs)" "proper_names rs'" "p' = render (os @ rs')"
      using in_moved_entries [OF os m] by fastforce
    then have "render (qs @ rs) = render (qs @ rs')" using eq relocate_render os qs by simp
    then show "p = p'" using rs qs(1) by (subst (asm) render_inject) auto
  qed
  moreover have "distinct (map fst ?xs)"
    unfolding moved_entries_def by (rule distinct_map_filter) (simp add: ordered_distinct)
  ultimately show ?thesis by (simp add: distinct_map comp_inj_on flip: map_map)
qed

lemma get_move_tree:
  assumes os: "proper_names os" "os \<noteq> []" and qs: "proper_names qs" "qs \<noteq> []"
    and m: "\<And>p. bt_get m p \<noteq> None \<Longrightarrow> \<exists>ps. proper_names ps \<and> p = render ps"
    and free: "\<And>rs. proper_names rs \<Longrightarrow> bt_get m (render (qs @ rs)) = None"
  shows "bt_get (move_tree (render os) (render qs) m) x = Some v \<longleftrightarrow>
    (\<exists>ps. proper_names ps \<and> bt_get m (render ps) = Some v \<and> x = render (transplant os qs ps))" (is "_ \<longleftrightarrow> ?moved")
proof -
  let ?xs = "moved_entries (render os) m" and ?g = "relocate (render os) (render qs)"
  note xs = in_moved_entries [OF os m]
  have g: "?g (render (os @ rs)) = render (qs @ rs)" if "proper_names rs" for rs
    using relocate_render os qs that by simp
  note dist = relocate_inj [OF os qs m]
  have "move_tree (render os) (render qs) m =
      fold (\<lambda>(p, i). bt_insert (?g p) i) ?xs (fold (\<lambda>(p, _). bt_remove p) ?xs m)"
    by (simp add: move_tree_def moved_entries_def Let_def)
  then have "bt_get (move_tree (render os) (render qs) m) x = Some v \<longleftrightarrow>
      (\<exists>p. (p, v) \<in> set ?xs \<and> ?g p = x) \<or> x \<notin> (?g \<circ> fst) ` set ?xs \<and> x \<notin> fst ` set ?xs \<and> bt_get m x = Some v"
    by (simp add: fold_bt_insert [OF dist] fold_bt_remove)
  also have "\<dots> \<longleftrightarrow> ?moved"
  proof
    assume "(\<exists>p. (p, v) \<in> set ?xs \<and> ?g p = x) \<or> x \<notin> (?g \<circ> fst) ` set ?xs \<and> x \<notin> fst ` set ?xs \<and> bt_get m x = Some v"
    then show ?moved
    proof
      assume "\<exists>p. (p, v) \<in> set ?xs \<and> ?g p = x"
      then obtain rs where "proper_names rs" "bt_get m (render (os @ rs)) = Some v" "x = render (qs @ rs)"
        using xs g by metis
      then show ?moved using os(1) by (intro exI [of _ "os @ rs"]) auto
    next
      assume x: "x \<notin> (?g \<circ> fst) ` set ?xs \<and> x \<notin> fst ` set ?xs \<and> bt_get m x = Some v"
      then obtain ps where ps: "proper_names ps" "x = render ps" using m by blast
      have "\<nexists>rs. ps = os @ rs" using x xs [where p = x and w = v] ps by (force simp: image_iff)
      then show ?moved using ps x transplant_other by (intro exI [of _ ps]) auto
    qed
  next
    assume ?moved
    then obtain ps where ps: "proper_names ps" "bt_get m (render ps) = Some v" "x = render (transplant os qs ps)" by blast
    show "(\<exists>p. (p, v) \<in> set ?xs \<and> ?g p = x) \<or> x \<notin> (?g \<circ> fst) ` set ?xs \<and> x \<notin> fst ` set ?xs \<and> bt_get m x = Some v"
    proof (cases "\<exists>rs. ps = os @ rs")
      case True
      then obtain rs where rs: "ps = os @ rs" by blast
      then have "(render ps, v) \<in> set ?xs" using ps xs by auto
      then show ?thesis using ps rs g by auto
    next
      case False
      then have x: "x = render ps" "bt_get m x = Some v" using ps transplant_other by simp_all
      have "x \<notin> fst ` set ?xs"
      proof
        assume "x \<in> fst ` set ?xs"
        then obtain rs where "proper_names rs" "x = render (os @ rs)" using xs by force
        then have "ps = os @ rs" using x(1) ps(1) os(1) render_inject [of ps "os @ rs"] by auto
        then show False using False by blast
      qed
      moreover have "x \<notin> (?g \<circ> fst) ` set ?xs"
      proof
        assume "x \<in> (?g \<circ> fst) ` set ?xs"
        then obtain rs where "proper_names rs" "x = render (qs @ rs)" using xs g by force
        then show False using free x(2) by simp
      qed
      ultimately show ?thesis using x(2) by blast
    qed
  qed
  finally show ?thesis .
qed

lemma transplant_proper: "proper_names os \<Longrightarrow> proper_names qs \<Longrightarrow> proper_names ps \<Longrightarrow> proper_names (transplant os qs ps)"
  by (auto simp: transplant_def dest: in_set_dropD)

lemma tree_ok_transplant:
  assumes s: "tree_ok s" and os: "proper_names os" "os \<noteq> []" and qs: "proper_names (ns @ [n])" "s (render ns) = Some True"
    and apart: "\<nexists>rs. ns @ [n] = os @ rs"
    and t: "\<And>x b. t x = Some b \<longleftrightarrow> (\<exists>ps. proper_names ps \<and> s (render ps) = Some b \<and> x = render (transplant os (ns @ [n]) ps))"
  shows "tree_ok t"
  unfolding tree_ok_def
proof (intro conjI allI impI)
  have "transplant os (ns @ [n]) [] = []" using os(2) by (intro transplant_other) simp
  then show "t (render []) = Some True"
    unfolding t using tree_okD(1) [OF s] by (intro exI [of _ "[]"]) simp
  show "\<exists>ms. proper_names ms \<and> p = render ms" if "t p \<noteq> None" for p
    using that t [of p] transplant_proper [OF os(1) qs(1)] by blast
  fix ms m assume h: "proper_names (ms @ [m]) \<and> t (render (ms @ [m])) \<noteq> None"
  then obtain ps b where ps: "proper_names ps" "s (render ps) = Some b" "render (ms @ [m]) = render (transplant os (ns @ [n]) ps)"
    using t by blast
  have eq: "ms @ [m] = transplant os (ns @ [n]) ps"
    using ps(3) h transplant_proper [OF os(1) qs(1) ps(1)] by (subst (asm) render_inject) auto
  have "\<exists>ds. proper_names ds \<and> s (render ds) = Some True \<and> ms = transplant os (ns @ [n]) ds"
  proof (cases "\<exists>rs. ps = os @ rs")
    case True
    then obtain rs where rs: "ps = os @ rs" by blast
    show ?thesis
    proof (cases rs rule: rev_cases)
      case Nil
      have "transplant os (ns @ [n]) ns = ns" using apart by (intro transplant_other) auto
      then show ?thesis using eq rs Nil qs by (intro exI [of _ ns]) auto
    next
      case (snoc rs' r)
      have "s (render (os @ rs')) = Some True" using tree_okD(3) [OF s, of "os @ rs'" r] ps rs snoc by simp
      then show ?thesis using eq rs snoc ps(1) by (intro exI [of _ "os @ rs'"]) auto
    qed
  next
    case False
    then have "ps = ms @ [m]" using eq transplant_other by simp
    moreover from this have "transplant os (ns @ [n]) ms = ms" using False by (intro transplant_other) auto
    ultimately show ?thesis using tree_okD(3) [OF s, of ms m] ps h by (intro exI [of _ ms]) auto
  qed
  then show "t (render ms) = Some True" using t by blast
qed

lemma inv_move_tree:
  assumes inv: "fs_inv fs" and os: "proper_names os" "os \<noteq> []" and q: "addable fs (render qs)" "proper_names qs"
    and apart: "\<nexists>rs. qs = os @ rs"
  shows "fs_inv (fs\<lparr>path_index := move_tree (render os) (render qs) (path_index fs)\<rparr>)" (is "fs_inv ?fs'")
proof -
  note tree = fs_invD(2) [OF inv] and live = fs_invD(3) [OF inv]
  obtain ns n where ns: "proper_names (ns @ [n])" "render qs = render (ns @ [n])" "shape fs (render ns) = Some True"
    using q(1) unfolding addable_def by blast
  then have qs: "qs = ns @ [n]" "qs \<noteq> []" using q(2) render_inject [of qs "ns @ [n]"] by auto
  have names: "\<exists>ps. proper_names ps \<and> p = render ps" if "bt_get (path_index fs) p \<noteq> None" for p
    using that tree_okD(2) [OF tree, of p] shape_None [OF live, of p] by simp
  have absent: "shape fs (render qs) = None" using q(1) shape_None [OF live] by (simp add: addable_def)
  have free: "bt_get (path_index fs) (render (qs @ rs)) = None" if "proper_names rs" for rs
    using tree_ok_prefix [OF tree, of qs rs] absent that q(2) shape_None [OF live] by (cases "rs = []") auto
  note get = get_move_tree [OF os q(2) qs(2) names free]
  have get': "bt_get (path_index ?fs') x = Some v \<longleftrightarrow>
      (\<exists>ps. proper_names ps \<and> bt_get (path_index fs) (render ps) = Some v \<and> x = render (transplant os qs ps))" for x v
    using get by simp
  have "links ?fs' j = links fs j" for j
  proof -
    let ?P = "{ps. proper_names ps \<and> bt_get (path_index fs) (render ps) = Some j}"
    have "inj_on (transplant os qs) ?P"
    proof (rule inj_onI)
      fix ps ps' assume p: "ps \<in> ?P" "ps' \<in> ?P" and eq: "transplant os qs ps = transplant os qs ps'"
      have "\<nexists>rs. ps = qs @ rs" "\<nexists>rs. ps' = qs @ rs" using p free by auto
      then show "ps = ps'" using eq by (metis same_append_eq transplant_below(1) transplant_other)
    qed
    moreover have "transplant os qs ` ?P \<subseteq> {ps. proper_names ps}" using transplant_proper [OF os(1) q(2)] by auto
    moreover have inj: "inj_on render {ps. proper_names ps}" by (rule inj_onI) (simp add: render_inject)
    ultimately have "card ((render \<circ> transplant os qs) ` ?P) = card ?P"
      by (intro card_image comp_inj_on) (auto intro: inj_on_subset)
    moreover have "card (render ` ?P) = card ?P" by (intro card_image inj_on_subset [OF inj]) auto
    moreover have "{p. bt_get (path_index fs) p = Some j} = render ` ?P" using names by auto
    moreover have "{p. bt_get (path_index ?fs') p = Some j} = (render \<circ> transplant os qs) ` ?P"
      unfolding get' by auto
    ultimately show ?thesis by (simp add: links_def)
  qed
  moreover have "live_index ?fs'" using live get' by (auto simp: live_index_def)
  ultimately have ok: "fs_ok ?fs'" using fs_invD(1) [OF inv] by (simp add: fs_ok_def)
  have "shape ?fs' x = Some b \<longleftrightarrow> (\<exists>ps. proper_names ps \<and> shape fs (render ps) = Some b \<and> x = render (transplant os (ns @ [n]) ps))" for x b
    using get' [of x] qs(1) by (fastforce simp: shape_def kind_at_def bind_eq_Some_conv)
  then have "tree_ok (shape ?fs')"
    using tree_ok_transplant [OF tree os ns(1,3)] apart qs(1) by blast
  with ok show ?thesis by (simp add: fs_inv_def)
qed

end
