(* ===== verification/Memory_Fs_Safe.thy ===== *)
theory Memory_Fs_Safe
  imports Memory_Fs_Inv
begin

text \<open>
  The operations of the in-memory file system keep its invariant, and under it none of their
  \<^verbatim>\<open>expect\<close> calls panics.
\<close>

subsection \<open>Errors that are not panics\<close>

definition sound :: "'a result \<times> memory_fs \<Rightarrow> bool" where
  "sound x \<longleftrightarrow> calm (fst x) \<and> fs_inv (snd x)"

lemma sound_pair [simp]: "sound (r, fs) \<longleftrightarrow> calm r \<and> fs_inv fs"
  by (simp add: sound_def)

lemma calm_errors [simp]:
  "err_code (vfs_not_found op p) \<noteq> PANIC" "err_code (vfs_already_exists op p) \<noteq> PANIC"
  "err_code (vfs_is_directory op p) \<noteq> PANIC" "err_code (vfs_not_directory op p) \<noteq> PANIC"
  "err_code (vfs_not_empty p) \<noteq> PANIC" "err_code (vfs_permission_denied op p) \<noteq> PANIC"
  "err_code (vfs_invalid_input p) \<noteq> PANIC"
  by (simp_all add: vfs_not_found_def vfs_already_exists_def vfs_is_directory_def vfs_not_directory_def
      vfs_not_empty_def vfs_permission_denied_def vfs_invalid_input_def)

lemma calm_map_sum [simp]: "calm (map_sum id f r) \<longleftrightarrow> calm r"
  by (cases r) auto

lemma calm_resolve:
  assumes "fs_inv fs"
  shows "resolve_path fs p = Inl e \<Longrightarrow> err_code e \<noteq> PANIC" "resolve_exact_path fs p = Inl e \<Longrightarrow> err_code e \<noteq> PANIC"
    "resolve_path_with_options fs p f 0 = Inl e \<Longrightarrow> err_code e \<noteq> PANIC"
  using calm_resolve_path_with_options [OF fs_invD(3) [OF assms]]
  unfolding resolve_path_def resolve_exact_path_def calm_def by blast+

lemma inode_for_existing_path_cases:
  assumes "fs_inv fs"
  obtains (Err) e where "inode_for_existing_path fs p op f = Inl e" "err_code e \<noteq> PANIC"
  | (Found) ino i where "inode_for_existing_path fs p op f = Inr (ino, i)" "bt_get (inodes fs) ino = Some i"
proof (cases "inode_id_for_existing_path fs p op f")
  case (Inl e)
  then have "err_code e \<noteq> PANIC"
    using calm_resolve [OF assms]
    by (auto simp: inode_id_for_existing_path_def ok_or_def Let_def split: sum.splits option.splits if_splits)
  then show ?thesis using Err [of e] Inl by (simp add: inode_for_existing_path_def)
next
  case (Inr ino)
  then obtain q where "bt_get (path_index fs) q = Some ino"
    by (auto simp: inode_id_for_existing_path_def ok_or_def Let_def split: sum.splits option.splits)
  then obtain i where "bt_get (inodes fs) ino = Some i" using live_indexD [OF fs_invD(3) [OF assms]] by blast
  then show ?thesis using Found [of ino i] Inr by (simp add: inode_for_existing_path_def ok_or_def)
qed

lemma calm_assert_directory:
  assumes "fs_inv fs" "assert_directory_path fs p op = Inl e"
  shows "err_code e \<noteq> PANIC"
  using assms(2)
  by (cases rule: inode_for_existing_path_cases [OF assms(1), of p op True])
    (auto simp: assert_directory_path_def split: if_splits)

lemma entry_cases:
  assumes "fs_inv fs"
  obtains (Absent) "bt_get (path_index fs) p = None"
  | (Entry) ino i where "bt_get (path_index fs) p = Some ino" "bt_get (inodes fs) ino = Some i"
  using live_indexD [OF fs_invD(3) [OF assms], of p] by (cases "bt_get (path_index fs) p") blast+

subsection \<open>Operations on one inode\<close>

lemma same_node_metadata: "(\<And>m. m_nlink (f m) = m_nlink m) \<Longrightarrow> same_node (update_metadata f i) i"
  by (simp add: same_node_def update_metadata_def)

lemma same_node_data: "i_kind i = File d \<Longrightarrow> same_node (set_mtime_ctime now (set_data data i)) i"
  by (simp add: same_node_def update_metadata_def set_mtime_ctime_def set_data_def)

lemma inv_atime [simp]: "fs_inv fs \<Longrightarrow> fs_inv (update_inode ino (set_atime now) fs)"
  by (rule inv_update_keeps) simp_all

lemma inv_metadata: "fs_inv fs \<Longrightarrow> (\<And>m. m_nlink (f m) = m_nlink m) \<Longrightarrow> fs_inv (update_inode ino (update_metadata f) fs)"
  by (rule inv_update) (simp_all add: same_node_metadata)

lemma inv_data:
  "fs_inv fs \<Longrightarrow> bt_get (inodes fs) ino = Some i \<Longrightarrow> i_kind i = File d \<Longrightarrow>
     fs_inv (update_inode ino (set_mtime_ctime now \<circ> set_data data) fs)"
  by (rule inv_update) (auto intro: same_node_data)

lemma sound_read_file: "fs_inv fs \<Longrightarrow> sound (fs_read_file now p fs)"
  by (cases rule: inode_for_existing_path_cases [of fs p "''open''" True])
    (auto simp: fs_read_file_def split: inode_kind.splits)

lemma sound_pread: "fs_inv fs \<Longrightarrow> sound (fs_pread now p offset len fs)"
  by (cases rule: inode_for_existing_path_cases [of fs p "''open''" True])
    (auto simp: fs_pread_def split: inode_kind.splits)

lemma sound_truncate: "fs_inv fs \<Longrightarrow> sound (fs_truncate now p len fs)"
  by (cases rule: inode_for_existing_path_cases [of fs p "''truncate''" True])
    (auto simp: fs_truncate_def intro: inv_data split: inode_kind.splits)

lemma sound_append_file:
  assumes "fs_inv fs"
  shows "sound (fs_append_file now p content fs)"
proof (cases "resolve_path fs p")
  case (Inl e)
  then show ?thesis using assms calm_resolve(1) [OF assms Inl] by (simp add: fs_append_file_def)
next
  case (Inr q)
  then show ?thesis using assms
    by (cases rule: inode_for_existing_path_cases [OF assms, of q "''open''" False])
      (auto simp: fs_append_file_def intro: inv_data split: inode_kind.splits)
qed

lemma sound_chmod: "fs_inv fs \<Longrightarrow> sound (fs_chmod now p mode fs)"
  by (cases rule: inode_for_existing_path_cases [of fs p "''chmod''" True])
    (auto simp: fs_chmod_def Let_def intro!: inv_metadata)

lemma sound_chown: "fs_inv fs \<Longrightarrow> sound (fs_chown now p uid gid fs)"
  by (cases rule: inode_for_existing_path_cases [of fs p "''chown''" True])
    (auto simp: fs_chown_def intro!: inv_metadata)

lemma sound_utimes: "fs_inv fs \<Longrightarrow> sound (fs_utimes now p a m fs)"
  by (cases rule: inode_for_existing_path_cases [of fs p "''utimes''" True])
    (auto simp: fs_utimes_def intro!: inv_metadata)

lemma calm_stat: "fs_inv fs \<Longrightarrow> calm (fs_stat p fs)"
  by (cases rule: inode_for_existing_path_cases [of fs p "''stat''" True]) (auto simp: fs_stat_def)

lemma calm_lstat: "fs_inv fs \<Longrightarrow> calm (fs_lstat p fs)"
  by (cases rule: inode_for_existing_path_cases [of fs p "''lstat''" False]) (auto simp: fs_lstat_def)

lemma calm_truncated_millis: "to_truncated_millis ts = Inl e \<Longrightarrow> err_code e \<noteq> PANIC"
  by (auto simp: to_truncated_millis_def split: if_splits)

lemma sound_utimes_spec:
  assumes "fs_inv fs"
  shows "sound (fs_utimes_spec now p a m f fs)"
proof (cases "if f then fs_stat p fs else fs_lstat p fs")
  case (Inl e)
  then show ?thesis using assms calm_stat [OF assms, of p] calm_lstat [OF assms, of p]
    by (auto simp: fs_utimes_spec_def calm_def split: if_splits)
next
  case (Inr st)
  then show ?thesis
    using assms calm_truncated_millis
    by (cases rule: inode_for_existing_path_cases [OF assms, of p "''utimes''" f])
      (auto simp: fs_utimes_spec_def Let_def intro!: inv_metadata split: sum.splits)
qed

lemma calm_read_link: "fs_inv fs \<Longrightarrow> calm (fs_read_link p fs)"
  by (cases rule: inode_for_existing_path_cases [of fs p "''readlink''" False])
    (auto simp: fs_read_link_def split: inode_kind.splits)

lemma calm_realpath: "fs_inv fs \<Longrightarrow> calm (fs_realpath p fs)"
  using calm_resolve(1) [of fs p] by (auto simp: fs_realpath_def split: sum.splits)

subsection \<open>Listing a directory\<close>

lemma sound_open_directory:
  assumes "fs_inv fs"
  shows "sound (open_directory now p fs)"
proof (cases "assert_directory_path fs p ''scandir''")
  case (Inl e)
  then show ?thesis using assms calm_assert_directory [OF assms Inl] by (simp add: open_directory_def)
next
  case (Inr u)
  show ?thesis
  proof (cases "resolve_path fs p")
    case (Inl e)
    then show ?thesis using Inr assms calm_resolve(1) [OF assms Inl] by (simp add: open_directory_def)
  next
    case (Inr q)
    then show ?thesis using \<open>assert_directory_path fs p ''scandir'' = Inr u\<close> assms
      by (cases rule: inode_for_existing_path_cases [OF assms, of q "''scandir''" False])
        (auto simp: open_directory_def)
  qed
qed

lemma calm_collect_dir_entries:
  "\<forall>e \<in> set es. bt_get (inodes fs) (snd e) \<noteq> None \<Longrightarrow> calm (collect_dir_entries fs prefix es acc)"
  by (induction fs prefix es acc rule: collect_dir_entries.induct) (auto simp: Let_def)

lemma entries_below_live:
  assumes "fs_inv fs"
  shows "\<forall>e \<in> set (entries_below fs prefix). bt_get (inodes fs) (snd e) \<noteq> None"
proof
  fix e assume "e \<in> set (entries_below fs prefix)"
  then have "(fst e, snd e) \<in> set (bt_entries (path_index fs))"
    unfolding entries_below_def by (auto dest: set_takeWhileD set_dropWhileD)
  then show "bt_get (inodes fs) (snd e) \<noteq> None"
    using live_indexD [OF fs_invD(3) [OF assms], of "fst e" "snd e"] unfolding in_bt_entries_iff by auto
qed

lemma sound_read_dir_with_types:
  assumes "fs_inv fs"
  shows "sound (fs_read_dir_with_types now p fs)"
proof -
  obtain r fs1 where o': "open_directory now p fs = (r, fs1)" by (cases "open_directory now p fs")
  then have "calm r" "fs_inv fs1" using sound_open_directory [OF assms, of now p] by simp_all
  then show ?thesis
    using o' calm_collect_dir_entries [OF entries_below_live [OF \<open>fs_inv fs1\<close>]]
    by (cases r) (simp_all add: fs_read_dir_with_types_def Let_def)
qed

lemma sound_read_dir: "fs_inv fs \<Longrightarrow> sound (fs_read_dir now p fs)"
  using sound_read_dir_with_types [of fs now p] by (auto simp: fs_read_dir_def split: prod.splits sum.splits)

lemma calm_collect_dir_names: "calm (collect_dir_names path limit prefix es acc)"
  by (induction path limit prefix es acc rule: collect_dir_names.induct) (auto simp: Let_def)

lemma sound_read_dir_limited: "fs_inv fs \<Longrightarrow> sound (fs_read_dir_limited now p limit fs)"
  using sound_open_directory [of fs now p] calm_collect_dir_names
  by (auto simp: fs_read_dir_limited_def Let_def split: prod.splits sum.splits)

subsection \<open>Adding an entry\<close>

lemma addableI:
  assumes inv: "fs_inv fs" and q: "resolve_path_with_options fs p f d = Inr q"
    and dir: "assert_directory_path fs (dirname q) op = Inr u" and absent: "bt_get (path_index fs) q = None"
  shows "addable fs q"
proof -
  note live = fs_invD(3) [OF inv]
  obtain ns where ns: "proper_names ns" "q = render ns" "plain fs (butlast ns)" by (rule resolved_names [OF live q])
  have "ns \<noteq> []" using tree_okD(1) [OF fs_invD(2) [OF inv]] absent ns(2) shape_None [OF live, of q] by auto
  then obtain ms n where ms: "ns = ms @ [n]" by (cases ns rule: rev_cases) auto
  have d: "dirname q = render ms" using ns ms by (simp add: dirname_render)
  obtain r ino i where r: "resolve_path fs (normalize_path (render ms)) = Inr r" "bt_get (path_index fs) r = Some ino"
    "bt_get (inodes fs) ino = Some i" "i_kind i = Directory"
    using dir unfolding d assert_directory_path_def inode_for_existing_path_def inode_id_for_existing_path_def
    by (auto simp: ok_or_def Let_def split: sum.splits option.splits if_splits)
  then have "r = render ms"
    using resolve_plain [OF live, of ms True 0 r] ns ms by (simp add: normalize_render resolve_path_def)
  then have "shape fs (render ms) = Some True" using r shape_Some by auto
  then show ?thesis using ns ms absent by (auto simp: addable_def)
qed

lemma addable_exact:
  "fs_inv fs \<Longrightarrow> resolve_exact_path fs p = Inr q \<Longrightarrow> assert_directory_path fs (dirname q) op = Inr u \<Longrightarrow>
     bt_get (path_index fs) q = None \<Longrightarrow> addable fs q"
  unfolding resolve_exact_path_def by (rule addableI)

lemma sound_create_dir:
  assumes "fs_inv fs"
  shows "sound (fs_create_dir now p fs)"
proof (cases "resolve_exact_path fs p")
  case (Inl e)
  then show ?thesis using assms calm_resolve(2) [OF assms Inl] by (simp add: fs_create_dir_def)
next
  case q: (Inr q)
  show ?thesis
  proof (cases "assert_directory_path fs (dirname q) ''mkdir''")
    case (Inl e)
    then show ?thesis using q assms calm_assert_directory [OF assms Inl] by (simp add: fs_create_dir_def)
  next
    case (Inr u)
    then show ?thesis
      using assms q addable_exact [OF assms q Inr]
      by (cases rule: entry_cases [OF assms, of q]) (auto simp: fs_create_dir_def intro: inv_create split: prod.splits)
  qed
qed

lemma sound_symlink:
  assumes inv: "fs_inv fs"
  shows "sound (symlink_with_metadata now target p mode uid gid fs)"
proof (cases "resolve_exact_path fs p")
  case (Inl e)
  then show ?thesis using assms calm_resolve(2) [OF assms Inl] by (simp add: symlink_with_metadata_def)
next
  case q: (Inr q)
  show ?thesis
  proof (cases "assert_directory_path fs (dirname q) ''symlink''")
    case (Inl e)
    then show ?thesis using q assms calm_assert_directory [OF assms Inl] by (simp add: symlink_with_metadata_def)
  next
    case (Inr u)
    let ?mode = "if mode AND 0xF000 = 0 then S_IFLNK OR (mode AND 0xFFF) else mode"
    obtain ino fs1 where alloc: "allocate_inode now (SymbolicLink target) ?mode fs = (ino, fs1)"
      by (cases "allocate_inode now (SymbolicLink target) ?mode fs")
    have "index_path q ino (update_inode ino g fs1) = update_inode ino g (index_path q ino fs1)" for g
      by (simp add: index_path_def update_inode_def)
    then show ?thesis
      using assms q Inr addable_exact [OF assms q Inr] alloc inv_metadata [OF inv_create [OF assms _ alloc]]
      by (simp add: symlink_with_metadata_def bt_contains_def)
  qed
qed

subsection \<open>Creating the directories of a path\<close>

text \<open>
  Whether \<^verbatim>\<open>mkdir\<close> creates every directory at the path it walks, and none at the target of a
  dangling symbolic link.
\<close>

fun mkdir_direct :: "u64 \<Rightarrow> string \<Rightarrow> string list \<Rightarrow> memory_fs \<Rightarrow> bool" where
  "mkdir_direct now current [] fs \<longleftrightarrow> True"
| "mkdir_direct now current (part # parts) fs \<longleftrightarrow>
     (case resolve_path_with_options fs (child_path current part) (parts \<noteq> []) 0 of
        Inl _ \<Rightarrow> True
      | Inr resolved \<Rightarrow>
          (case bt_get (path_index fs) resolved of
             Some _ \<Rightarrow> shape fs resolved = Some True \<longrightarrow> mkdir_direct now resolved parts fs
           | None \<Rightarrow>
               resolved = child_path current part \<and>
               (let (ino, fs1) = allocate_inode now Directory (S_IFDIR OR 0x1ED) fs
                in mkdir_direct now resolved parts (index_path resolved ino fs1))))"

lemma addable_child:
  "fs_inv fs \<Longrightarrow> proper_names (cs @ [c]) \<Longrightarrow> shape fs (render cs) = Some True \<Longrightarrow>
     bt_get (path_index fs) (render (cs @ [c])) = None \<Longrightarrow> addable fs (render (cs @ [c]))"
  unfolding addable_def by blast

text \<open>The entries stay as they are, and new ones are directories.\<close>

definition grows :: "memory_fs \<Rightarrow> memory_fs \<Rightarrow> bool" where
  "grows fs fs' \<longleftrightarrow> (\<forall>x. kind_at fs' x = kind_at fs x \<or> kind_at fs x = None \<and> kind_at fs' x = Some Directory)"

lemma grows_refl [simp]: "grows fs fs"
  by (simp add: grows_def)

lemma grows_trans: "grows fs fs1 \<Longrightarrow> grows fs1 fs2 \<Longrightarrow> grows fs fs2"
  unfolding grows_def by metis

lemma shape_Directory: "kind_at fs p = Some Directory \<Longrightarrow> shape fs p = Some True"
  by (simp add: shape_def)

lemma sound_mkdir_parts:
  assumes "fs_inv fs" "proper_names cs" "shape fs (render cs) = Some True" "proper_names parts"
    "mkdir_direct now (render cs) parts fs"
  shows "sound (mkdir_parts now (render cs) parts fs) \<and> grows fs (snd (mkdir_parts now (render cs) parts fs))"
  using assms
proof (induction parts arbitrary: cs fs)
  case (Cons part parts)
  note inv = Cons.prems(1)
  have raw: "child_path (render cs) part = render (cs @ [part])" using Cons.prems by (simp add: child_path_render)
  show ?case
  proof (cases "resolve_path_with_options fs (render (cs @ [part])) (parts \<noteq> []) 0")
    case (Inl e)
    then show ?thesis using raw inv calm_resolve(3) [OF inv Inl] by simp
  next
    case q: (Inr q)
    obtain ns where ns: "proper_names ns" "q = render ns" by (rule resolved_names [OF fs_invD(3) [OF inv] q])
    from inv show ?thesis
    proof (cases rule: entry_cases [where p = q])
      case (Entry ino i)
      then show ?thesis
        using Cons.IH [OF inv ns(1)] Cons.prems(4,5) raw q ns shape_Some [OF Entry] inv by auto
    next
      case Absent
      obtain ino fs1 where alloc: "allocate_inode now Directory (S_IFDIR OR 0x1ED) fs = (ino, fs1)"
        by (cases "allocate_inode now Directory (S_IFDIR OR 0x1ED) fs")
      have q': "q = render (cs @ [part])" using Cons.prems(5) raw q Absent by simp
      then have "addable fs q" using addable_child [OF inv] Cons.prems Absent by simp
      then have "fs_inv (index_path q ino fs1)" using inv_create [OF inv _ alloc] by blast
      moreover have kinds: "kind_at (index_path q ino fs1) = (kind_at fs)(q \<mapsto> Directory)"
        by (rule kind_at_create [OF fs_invD(1) [OF inv] alloc])
      moreover have "grows fs (index_path q ino fs1)"
        using kind_at_None [OF fs_invD(3) [OF inv], of q] Absent by (simp add: grows_def kinds)
      ultimately show ?thesis
        using grows_trans [of fs "index_path q ino fs1"] shape_Directory [of "index_path q ino fs1" q] Cons.IH [of "index_path q ino fs1" "cs @ [part]"] Cons.prems raw q q' Absent alloc by (auto simp: Let_def)
    qed
  qed
qed simp

lemma mkdir_plain:
  assumes "fs_inv fs" "proper_names (cs @ parts)" "plain fs (cs @ parts)" "shape fs (render cs) = Some True"
  shows "mkdir_direct now (render cs) parts fs \<and>
    (mkdir_parts now (render cs) parts fs = (Inr u, fs') \<longrightarrow> shape fs' (render (cs @ parts)) = Some True)"
  using assms
proof (induction parts arbitrary: cs fs)
  case (Cons part parts)
  note inv = Cons.prems(1)
  have raw: "child_path (render cs) part = render (cs @ [part])" using Cons.prems by (simp add: child_path_render)
  have pl: "plain fs (cs @ [part])" using plain_prefix [of fs "cs @ [part]" parts] Cons.prems(3) by simp
  show ?case
  proof (cases "resolve_path_with_options fs (render (cs @ [part])) (parts \<noteq> []) 0")
    case (Inl e)
    then show ?thesis using raw by simp
  next
    case q: (Inr q)
    have q': "q = render (cs @ [part])"
      using resolve_plain [OF fs_invD(3) [OF inv] _ pl q] Cons.prems(2) by simp
    from inv show ?thesis
    proof (cases rule: entry_cases [where p = q])
      case (Entry ino i)
      then have "i_kind i = Directory" using pl q' by (auto simp: kind_at_def)
      then show ?thesis
        using Cons.IH [OF inv, of "cs @ [part]"] Cons.prems raw q q' shape_Some [OF Entry] Entry by simp
    next
      case Absent
      obtain ino fs1 where alloc: "allocate_inode now Directory (S_IFDIR OR 0x1ED) fs = (ino, fs1)"
        by (cases "allocate_inode now Directory (S_IFDIR OR 0x1ED) fs")
      let ?fs2 = "index_path q ino fs1"
      note kinds = kind_at_create [OF fs_invD(1) [OF inv] alloc]
      have "addable fs q" using addable_child [OF inv] Cons.prems Absent q' by simp
      then have "fs_inv ?fs2" using inv_create [OF inv _ alloc] by blast
      moreover have "plain ?fs2 (cs @ part # parts)" using Cons.prems(3) by (auto simp: plain_def kinds)
      moreover have "shape ?fs2 q = Some True" by (simp add: shape_def kinds)
      ultimately show ?thesis
        using Cons.IH [of ?fs2 "cs @ [part]"] Cons.prems(2) raw q q' Absent alloc by (auto simp: Let_def)
    qed
  qed
qed auto

text \<open>What \<^verbatim>\<open>write_file\<close> and \<^verbatim>\<open>create_file_exclusive\<close> do first: create the directories above the file.\<close>

lemma mkdir_parent:
  assumes inv: "fs_inv fs" and q: "resolve_path fs p = Inr q"
    and mk: "fs_mkdir now (dirname q) True fs = (r, fs1)"
  shows "calm r \<and> fs_inv fs1 \<and> grows fs fs1 \<and> (r = Inr () \<and> bt_get (path_index fs1) q = None \<longrightarrow> addable fs1 q)"
proof -
  obtain ns where ns: "proper_names ns" "q = render ns" "plain fs (butlast ns)"
    by (rule resolved_names [OF fs_invD(3) [OF inv] q [unfolded resolve_path_def]])
  have root: "shape fs (render []) = Some True" using tree_okD(1) [OF fs_invD(2) [OF inv]] .
  have slash: "render [] = ''/''" "normalize_path ''/'' = ''/''" by (simp_all add: render_def normalize_path_def)
  show ?thesis
  proof (cases ns rule: rev_cases)
    case Nil
    then have "r = Inr ()" "fs1 = fs" using mk ns(2) slash by (simp_all add: fs_mkdir_def)
    then show ?thesis using inv root Nil ns(2) shape_None [OF fs_invD(3) [OF inv], of q] by auto
  next
    case (snoc ms n)
    have ms: "proper_names ms" "plain fs ms" "dirname q = render ms" using ns snoc by (simp_all add: dirname_render)
    have eq: "fs_mkdir now (dirname q) True fs = (if ms = [] then (Inr (), fs) else mkdir_parts now (render []) ms fs)"
      using ms slash render_root_iff [of ms] by (simp add: fs_mkdir_def normalize_render components_render)
    have main: "calm r \<and> fs_inv fs1 \<and> grows fs fs1 \<and> (r = Inr () \<longrightarrow> shape fs1 (render ms) = Some True)"
    proof (cases "ms = []")
      case True
      then show ?thesis using eq mk inv root by simp
    next
      case False
      note pl = mkdir_plain [OF inv, of "[]" ms now, simplified, OF ms(1,2) root]
      have "sound (mkdir_parts now (render []) ms fs) \<and> grows fs (snd (mkdir_parts now (render []) ms fs))"
        using sound_mkdir_parts [OF inv, of "[]" ms now] root ms(1) pl by simp
      moreover have "mkdir_parts now (render []) ms fs = (r, fs1)" using eq mk False by simp
      ultimately show ?thesis using pl [of fs1] by simp
    qed
    then show ?thesis using addable_child [of fs1 ms n] ns snoc by auto
  qed
qed

lemma inv_create_file:
  "fs_inv fs \<Longrightarrow> addable fs q \<Longrightarrow> sound (create_file now q data fs)"
  using inv_create [of fs q now "File data"] by (auto simp: create_file_def split: prod.splits)

lemma sound_write_file:
  assumes inv: "fs_inv fs"
  shows "sound (fs_write_file now p content fs)"
proof (cases "resolve_path fs p")
  case (Inl e)
  then show ?thesis using inv calm_resolve(1) [OF inv Inl] by (simp add: fs_write_file_def)
next
  case q: (Inr q)
  obtain r fs1 where mk: "fs_mkdir now (dirname q) True fs = (r, fs1)" by (cases "fs_mkdir now (dirname q) True fs")
  note parent = mkdir_parent [OF inv q mk]
  show ?thesis
  proof (cases r)
    case (Inl e)
    then show ?thesis using q mk parent by (simp add: fs_write_file_def)
  next
    case (Inr u)
    have inv1: "fs_inv fs1" using parent by simp
    from inv1 show ?thesis
      using q mk parent Inr inv_create_file [OF inv1, of q]
      by (cases rule: inode_for_existing_path_cases [where p = q and op = "''open''" and f = False])
        (auto simp: fs_write_file_def bt_contains_def intro: inv_data split: inode_kind.splits)
  qed
qed

lemma sound_create_file_exclusive:
  assumes inv: "fs_inv fs"
  shows "sound (fs_create_file_exclusive now p content fs)"
proof (cases "resolve_path fs p")
  case (Inl e)
  then show ?thesis using inv calm_resolve(1) [OF inv Inl] by (simp add: fs_create_file_exclusive_def)
next
  case q: (Inr q)
  obtain r fs1 where mk: "fs_mkdir now (dirname q) True fs = (r, fs1)" by (cases "fs_mkdir now (dirname q) True fs")
  then show ?thesis
    using q mkdir_parent [OF inv q mk] inv_create_file [of fs1 q]
    by (cases r) (auto simp: fs_create_file_exclusive_def bt_contains_def)
qed

lemma sound_pwrite: "fs_inv fs \<Longrightarrow> sound (fs_pwrite now p content offset fs)"
  using sound_read_file [of fs now p] sound_write_file by (auto simp: fs_pwrite_def split: prod.splits sum.splits)

subsection \<open>Removing an entry\<close>

lemma sound_drop:
  assumes inv: "fs_inv fs" and p: "bt_get (path_index fs) p = Some ino" "leaf fs p" and f: "keeps_links f"
  shows "sound (decrement_link_count ino (unindex_path p (update_inode ino f fs)))"
  using inv_drop [OF inv p f] by (cases "decrement_link_count ino (unindex_path p (update_inode ino f fs))") auto

lemma leafI:
  assumes inv: "fs_inv fs" and p: "bt_get (path_index fs) p = Some ino" "bt_get (inodes fs) ino = Some i"
  shows "i_kind i \<noteq> Directory \<Longrightarrow> leaf fs p" "p \<noteq> ''/'' \<Longrightarrow> \<not> has_descendant fs p \<Longrightarrow> leaf fs p"
  using shape_Some [OF p] tree_okD(1) [OF fs_invD(2) [OF inv]] by (auto simp: leaf_def render_def)

lemma sound_remove_exact_path:
  assumes inv: "fs_inv fs"
  shows "sound (remove_exact_path now p fs)"
proof (cases "resolve_exact_path fs p")
  case (Inl e)
  then show ?thesis using inv calm_resolve(2) [OF inv Inl] by (simp add: remove_exact_path_def)
next
  case (Inr q)
  from inv show ?thesis
  proof (cases rule: entry_cases [where p = q])
    case Absent
    then show ?thesis using Inr inv by (simp add: remove_exact_path_def)
  next
    case (Entry ino i)
    then show ?thesis
      using Inr inv leafI(1) [OF inv Entry] sound_drop [OF inv Entry(1)] by (auto simp: remove_exact_path_def)
  qed
qed

lemma sound_remove_dir:
  assumes inv: "fs_inv fs"
  shows "sound (fs_remove_dir p fs)"
proof (cases "resolve_exact_path fs p")
  case (Inl e)
  then show ?thesis using inv calm_resolve(2) [OF inv Inl] by (simp add: fs_remove_dir_def)
next
  case (Inr q)
  have "bt_modify ino (\<lambda>i. i) (inodes fs) = inodes fs" for ino
    by (rule bt_eqI) (simp add: option.map_ident)
  then have "update_inode ino (\<lambda>i. i) fs = fs" for ino by (simp add: update_inode_def)
  then have drop: "sound (decrement_link_count ino (unindex_path q fs))" if "bt_get (path_index fs) q = Some ino" "leaf fs q" for ino
    using sound_drop [OF inv that, of "\<lambda>i. i"] by (simp add: keeps_links_def)
  from inv show ?thesis
  proof (cases rule: entry_cases [where p = q])
    case Absent
    then show ?thesis using Inr inv by (simp add: fs_remove_dir_def)
  next
    case (Entry ino i)
    then show ?thesis
      using Inr inv leafI(2) [OF inv Entry] drop [OF Entry(1)] by (auto simp: fs_remove_dir_def)
  qed
qed

lemma remove_existing_destination_cases:
  assumes inv: "fs_inv fs" and q: "resolve_exact_path fs p = Inr q" "q \<noteq> ''/''"
    and r: "remove_existing_destination now p fs = (r, fs1)"
  shows "calm r \<and> fs_inv fs1 \<and> (r = Inr () \<longrightarrow> shape fs1 = (shape fs)(q := None))"
  using inv
proof (cases rule: entry_cases [where p = q])
  case Absent
  then have "r = Inr ()" "fs1 = fs" using q r by (auto simp: remove_existing_destination_def)
  moreover have "shape fs q = None" using Absent shape_None [OF fs_invD(3) [OF inv]] by simp
  ultimately show ?thesis using inv by (simp add: fun_upd_idem)
next
  case (Entry ino i)
  show ?thesis
  proof (cases "i_kind i = Directory \<and> has_descendant fs q")
    case True
    then have "r = Inl (vfs_not_empty p)" "fs1 = fs" using q r Entry by (auto simp: remove_existing_destination_def)
    then show ?thesis using inv by simp
  next
    case False
    then have eq: "decrement_link_count ino (unindex_path q (update_inode ino (set_ctime now) fs)) = (r, fs1)"
      using q(1) r Entry by (simp add: remove_existing_destination_def split: if_splits)
    have "leaf fs q" using leafI [OF inv Entry] q(2) False by blast
    then show ?thesis using inv_drop [OF inv Entry(1) _ _ eq] by simp
  qed
qed

subsection \<open>Renaming and linking\<close>

lemma sound_link:
  assumes inv: "fs_inv fs"
  shows "sound (fs_link now p p' fs)"
proof (cases "inode_id_for_existing_path fs p ''link'' True")
  case (Inl e)
  then have "inode_for_existing_path fs p ''link'' True = Inl e" by (simp add: inode_for_existing_path_def)
  with inv have "err_code e \<noteq> PANIC"
    by (cases rule: inode_for_existing_path_cases [where p = p and op = "''link''" and f = True]) auto
  then show ?thesis using Inl inv by (simp add: fs_link_def)
next
  case ino: (Inr ino)
  have "\<exists>i. inode_for_existing_path fs p ''link'' True = Inr (ino, i) \<and> bt_get (inodes fs) ino = Some i"
    using inv ino
    by (cases rule: inode_for_existing_path_cases [where p = p and op = "''link''" and f = True])
      (auto simp: inode_for_existing_path_def ok_or_def panic_def split: option.splits)
  then obtain i where i: "bt_get (inodes fs) ino = Some i" by blast
  show ?thesis
  proof (cases "resolve_exact_path fs p'")
    case (Inl e)
    then show ?thesis using ino i inv calm_resolve(2) [OF inv Inl]
      by (auto simp: fs_link_def split: inode_kind.splits)
  next
    case q: (Inr q)
    show ?thesis
    proof (cases "assert_directory_path fs (dirname q) ''link''")
      case (Inl e)
      then show ?thesis using ino i q inv calm_assert_directory [OF inv Inl]
        by (auto simp: fs_link_def split: inode_kind.splits)
    next
      case (Inr u)
      let ?f = "\<lambda>i. set_ctime now (set_nlink (m_nlink (i_metadata i) + 1) i)"
      have "fs_inv (update_inode ino ?f (index_path q ino fs))"
        if "bt_get (path_index fs) q = None" "i_kind i \<noteq> Directory"
        by (rule inv_link [OF inv addable_exact [OF inv q Inr that(1)] i that(2)])
          (simp_all add: set_ctime_def set_nlink_def update_metadata_def)
      then show ?thesis using ino i q Inr inv
        by (auto simp: fs_link_def bt_contains_def split: inode_kind.splits)
    qed
  qed
qed

lemma remove_existing_destination_index:
  assumes "remove_existing_destination now p fs = (Inr u, fs1)" "resolve_exact_path fs p = Inr q"
  shows "path_index fs1 = bt_remove q (path_index fs)"
proof (cases "bt_get (path_index fs) q")
  case None
  then have "bt_remove q (path_index fs) = path_index fs" by (intro bt_eqI) auto
  then show ?thesis using assms None by (simp add: remove_existing_destination_def)
next
  case (Some ino)
  then show ?thesis using assms
    by (auto simp: remove_existing_destination_def decrement_link_count_def unindex_path_def Let_def
        split: option.splits if_splits)
qed

lemma parent_is_dir:
  assumes inv: "fs_inv fs" and q: "resolve_exact_path fs p = Inr (render (ns @ [n]))" and ns: "proper_names (ns @ [n])"
    and dir: "assert_directory_path fs (dirname (render (ns @ [n]))) op = Inr u"
  shows "shape fs (render ns) = Some True"
proof (cases "bt_get (path_index fs) (render (ns @ [n]))")
  case None
  then have "addable fs (render (ns @ [n]))" using addable_exact [OF inv q dir] by blast
  then obtain ms m where "proper_names (ms @ [m])" "render (ns @ [n]) = render (ms @ [m])" "shape fs (render ms) = Some True"
    unfolding addable_def by blast
  then show ?thesis using ns render_inject [of "ns @ [n]" "ms @ [m]"] by auto
next
  case (Some ino)
  then have "shape fs (render (ns @ [n])) \<noteq> None" using shape_None [OF fs_invD(3) [OF inv]] by simp
  then show ?thesis using tree_okD(3) [OF fs_invD(2) [OF inv] ns] by blast
qed

lemma inv_relocate:
  assumes inv: "fs_inv fs" and os: "proper_names os" "os \<noteq> []"
    and e: "bt_get (path_index fs) (render os) = Some ino" "bt_get (inodes fs) ino = Some i"
    and q: "addable fs (render qs)" "proper_names qs" and apart: "\<nexists>rs. qs = os @ rs"
  shows "fs_inv (if i_kind i \<noteq> Directory then index_path (render qs) ino (unindex_path (render os) fs)
    else fs\<lparr>path_index := move_tree (render os) (render qs) (path_index fs)\<rparr>)"
  using inv_move_tree [OF inv os q apart] inv_move_file [OF inv e(1) _ q(1)] shape_Some [OF e] by simp

lemma rename_move:
  assumes inv: "fs_inv fs" and o': "resolve_exact_path fs old = Inr o'" "o' \<noteq> ''/''"
    and q: "resolve_exact_path fs new = Inr q" "q \<noteq> ''/''" "o' \<noteq> q"
    and dir: "assert_directory_path fs (dirname q) op = Inr u" and outside: "\<not> starts_with q (o' @ ''/'')"
    and e: "bt_get (path_index fs) o' = Some ino" "bt_get (inodes fs) ino = Some i"
    and rm: "remove_existing_destination now new fs = (Inr v, fs1)"
  shows "fs_inv (if i_kind i \<noteq> Directory then index_path q ino (unindex_path o' fs1)
      else fs1\<lparr>path_index := move_tree o' q (path_index fs1)\<rparr>) \<and> bt_get (inodes fs1) ino \<noteq> None"
proof -
  note live = fs_invD(3) [OF inv]
  obtain os where os: "proper_names os" "o' = render os" by (rule resolved_names [OF live o'(1) [unfolded resolve_exact_path_def]])
  obtain qs where qs: "proper_names qs" "q = render qs" by (rule resolved_names [OF live q(1) [unfolded resolve_exact_path_def]])
  have ne: "os \<noteq> []" "qs \<noteq> []" using o'(2) q(2) os qs by (auto simp: render_def)
  then obtain ns n where ns: "qs = ns @ [n]" by (cases qs rule: rev_cases) auto
  have inv1: "fs_inv fs1" and shape1: "shape fs1 = (shape fs)(q := None)"
    using remove_existing_destination_cases [OF inv q(1,2) rm] by simp_all
  have e1: "bt_get (path_index fs1) o' = Some ino"
    using remove_existing_destination_index [OF rm q(1)] e(1) q(3) by simp
  then obtain i1 where i1: "bt_get (inodes fs1) ino = Some i1" using live_indexD [OF fs_invD(3) [OF inv1]] by blast
  have kind: "i_kind i1 = Directory \<longleftrightarrow> i_kind i = Directory"
    using shape_Some [OF e1 i1] shape_Some [OF e] fun_cong [OF shape1, of o'] q(3) by simp
  have "shape fs (render ns) = Some True"
    using parent_is_dir [OF inv, of new ns n op u] q(1) qs ns dir by simp
  moreover have "render ns \<noteq> q" using qs ns render_inject [of ns qs] by auto
  ultimately have "shape fs1 (render ns) = Some True" using shape1 by simp
  moreover have "bt_get (path_index fs1) q = None" using remove_existing_destination_index [OF rm q(1)] by simp
  ultimately have "addable fs1 (render qs)" using addable_child [OF inv1, of ns n] qs ns by simp
  moreover have "\<nexists>rs. qs = os @ rs"
  proof
    assume "\<exists>rs. qs = os @ rs"
    then have "moved_by o' q" using moved_by_render [of os qs] os qs ne by simp
    then show False using outside q(3) by (simp add: moved_by_def)
  qed
  ultimately show ?thesis
    using inv_relocate [OF inv1 os(1) ne(1) _ i1 _ qs(1)] e1 os(2) qs(2) kind i1 by (simp split: if_splits)
qed

lemma sound_rename:
  assumes inv: "fs_inv fs" and guard: "resolve_exact_path fs new \<noteq> Inr ''/''"
  shows "sound (fs_rename now old new fs)"
proof (cases "resolve_exact_path fs old")
  case (Inl e)
  then show ?thesis using inv calm_resolve(2) [OF inv Inl] by (simp add: fs_rename_def)
next
  case o': (Inr o')
  show ?thesis
  proof (cases "resolve_exact_path fs new")
    case (Inl e)
    then show ?thesis using o' inv calm_resolve(2) [OF inv Inl] by (simp add: fs_rename_def)
  next
    case q: (Inr q)
    show ?thesis
    proof (cases "o' = ''/'' \<or> o' = q \<or> starts_with q (o' @ ''/'') \<or> bt_get (path_index fs) o' = None \<or>
        (\<exists>e. assert_directory_path fs (dirname q) ''rename'' = Inl e)")
      case True
      then show ?thesis using o' q inv calm_assert_directory [OF inv]
        by (auto simp: fs_rename_def split: sum.splits option.splits)
    next
      case False
      then obtain u ino where u: "assert_directory_path fs (dirname q) ''rename'' = Inr u"
        and e: "bt_get (path_index fs) o' = Some ino" by (cases "assert_directory_path fs (dirname q) ''rename''") auto
      obtain i where i: "bt_get (inodes fs) ino = Some i" using live_indexD [OF fs_invD(3) [OF inv] e] by blast
      obtain r fs1 where rm: "remove_existing_destination now new fs = (r, fs1)"
        by (cases "remove_existing_destination now new fs")
      have q': "q \<noteq> ''/''" using guard q by auto
      let ?fs2 = "if i_kind i \<noteq> Directory then index_path q ino (unindex_path o' fs1)
        else fs1\<lparr>path_index := move_tree o' q (path_index fs1)\<rparr>"
      have eq: "fs_rename now old new fs = (case r of Inl e \<Rightarrow> (Inl e, fs1) | Inr _ \<Rightarrow>
          if bt_contains (inodes ?fs2) ino then (Inr (), update_inode ino (set_ctime now) ?fs2)
          else (Inl (panic ''renamed inode should exist''), ?fs2))"
        using False o' q u e i rm by (simp add: fs_rename_def Let_def split: sum.splits)
      show ?thesis
      proof (cases r)
        case (Inl e)
        then show ?thesis using eq remove_existing_destination_cases [OF inv q q' rm] by simp
      next
        case (Inr v)
        have "fs_inv ?fs2" "bt_get (inodes fs1) ino \<noteq> None"
          using rename_move [OF inv o' _ q q' _ u _ e i rm [unfolded Inr]] False by auto
        moreover from this have "bt_contains (inodes ?fs2) ino"
          by (simp add: bt_contains_def index_path_def unindex_path_def)
        moreover have "keeps_links (set_ctime now)" by simp
        ultimately show ?thesis unfolding eq Inr using inv_update_keeps by simp
      qed
    qed
  qed
qed

end
