(* ===== verification/Memory_Fs_Runs.thy ===== *)
theory Memory_Fs_Runs
  imports Memory_Fs_Safe Vfs_Ops
begin

text \<open>
  Sequences of calls on the in-memory file system, and what a caller can rely on after any of them.
\<close>

subsection \<open>Calls\<close>

text \<open>
  The two calls that can break the tree: a rename onto the root, and a recursive \<^verbatim>\<open>mkdir\<close> that creates
  a directory at the target of a dangling symbolic link.
\<close>

fun regular :: "clock \<Rightarrow> vfs_call \<Rightarrow> memory_fs \<Rightarrow> bool" where
  "regular now (Rename old new) fs \<longleftrightarrow> resolve_exact_path fs new \<noteq> Inr ''/''"
| "regular now (Mkdir p True) fs \<longleftrightarrow> mkdir_direct (now_ms now) ''/'' (components (normalize_path p)) fs"
| "regular now _ fs \<longleftrightarrow> True"

inductive fs_step :: "memory_fs \<Rightarrow> memory_fs \<Rightarrow> bool" where
  "regular now c fs \<Longrightarrow> vfs_perform memory_vfs now c fs = (r, fs') \<Longrightarrow> fs_step fs fs'"

lemma sound_outcome [simp]: "sound (outcome x) \<longleftrightarrow> sound x"
  by (cases "fst x") (auto simp: sound_def outcome_def)

lemma sound_mkdir:
  assumes inv: "fs_inv fs" and guard: "regular now (Mkdir p recursive) fs"
  shows "sound (fs_mkdir (now_ms now) p recursive fs)"
proof -
  have "shape fs ''/'' = Some True" using tree_okD(1) [OF fs_invD(2) [OF inv]] by (simp add: render_def)
  moreover have "proper_names (components (normalize_path p))"
    by (simp add: normalize_path_render components_render normal_names_proper)
  ultimately have "sound (mkdir_parts (now_ms now) ''/'' (components (normalize_path p)) fs)" if recursive
    using that sound_mkdir_parts [OF inv, of "[]" "components (normalize_path p)" "now_ms now"] guard by (simp add: render_def)
  then show ?thesis using inv sound_create_dir [OF inv] by (auto simp: fs_mkdir_def Let_def)
qed

lemmas sound_calls = sound_read_file sound_pread sound_read_dir sound_read_dir_with_types
  sound_read_dir_limited sound_write_file
  sound_create_file_exclusive sound_append_file sound_pwrite sound_truncate sound_create_dir
  sound_remove_exact_path sound_remove_dir sound_symlink sound_link sound_chmod sound_chown sound_utimes
  sound_utimes_spec

lemma sound_perform:
  assumes "fs_inv fs" "regular now c fs"
  shows "sound (vfs_perform memory_vfs now c fs)"
  using assms sound_mkdir sound_rename calm_stat
  by (cases c) (simp_all add: memory_vfs_def sound_calls fs_remove_file_def fs_symlink_def)

lemma fs_inv_step: "fs_inv fs \<Longrightarrow> fs_step fs fs' \<Longrightarrow> fs_inv fs'"
  by (erule fs_step.cases) (use sound_perform in fastforce)

lemma fs_inv_new: "fs_inv (memory_fs_new now)"
proof -
  let ?fs = "memory_fs_new now"
  have idx: "bt_get (path_index ?fs) p = (if p = ''/'' then Some 1 else None)" for p
    by (simp add: memory_fs_new_def allocate_inode_def index_path_def Let_def)
  obtain i where i: "inodes ?fs = bt_insert 1 i bt_empty"
    and d: "i_kind i = Directory" "m_nlink (i_metadata i) = 2" and n: "next_ino ?fs = 2"
    by (auto simp: memory_fs_new_def allocate_inode_def index_path_def Let_def numeral_2_eq_2)
  have "links ?fs j = (if j = 1 then 1 else 0)" for j
    by (simp add: links_def idx)
  then have "fs_ok ?fs" using idx i d n by (auto simp: fs_ok_def live_index_def links_ok_def)
  moreover have shape: "shape ?fs p = (if p = ''/'' then Some True else None)" for p
    using idx i d by (simp add: shape_def kind_at_def)
  have "tree_ok (shape ?fs)"
    unfolding tree_ok_def shape by (auto simp: render_def append_eq_Cons_conv intro: exI [of _ "[]"])
  ultimately show ?thesis by (simp add: fs_inv_def)
qed

interpretation fs_run: invariant_system "memory_fs_new now" fs_step fs_inv for now
  by unfold_locales (rule fs_inv_new, rule fs_inv_step)

subsection \<open>What every run keeps\<close>

lemma kind_at_shape: "shape fs p = Some True \<longleftrightarrow> kind_at fs p = Some Directory"
  by (auto simp: shape_def)

lemma fs_inv_names:
  assumes "fs_inv fs" "bt_get (path_index fs) p \<noteq> None"
  obtains ns where "proper_names ns" "p = render ns"
  using tree_okD(2) [OF fs_invD(2) [OF assms(1)], of p] shape_None [OF fs_invD(3) [OF assms(1)], of p] assms(2) by auto

lemma fs_inv_parent:
  assumes inv: "fs_inv fs" and p: "bt_get (path_index fs) p = Some ino" "p \<noteq> ''/''"
  shows "kind_at fs (dirname p) = Some Directory"
proof -
  have some: "shape fs p \<noteq> None" using p(1) shape_None [OF fs_invD(3) [OF inv]] by simp
  then obtain ns where ns: "proper_names ns" "p = render ns" using tree_okD(2) [OF fs_invD(2) [OF inv]] by blast
  then obtain ms n where "ns = ms @ [n]" using p(2) by (cases ns rule: rev_cases) (auto simp: render_def)
  then show ?thesis using ns some tree_okD(3) [OF fs_invD(2) [OF inv], of ms n]
    by (simp add: dirname_render kind_at_shape)
qed

text \<open>
  C25. After any sequence of calls on a new in-memory file system (renames onto the root and recursive
  \<^verbatim>\<open>mkdir\<close>s through dangling links aside), the root is a directory, the parent of every other
  path is a directory, every path names an inode that exists, and the link count of that inode is the
  number of paths that name it, plus one for a directory.
\<close>

theorem fs_tree_and_links:
  assumes "fs_step\<^sup>*\<^sup>* (memory_fs_new now) fs"
  shows "kind_at fs ''/'' = Some Directory \<and>
    (\<forall>p ino. bt_get (path_index fs) p = Some ino \<longrightarrow>
       (p \<noteq> ''/'' \<longrightarrow> kind_at fs (dirname p) = Some Directory) \<and>
       (\<exists>i. bt_get (inodes fs) ino = Some i \<and>
          m_nlink (i_metadata i) = card {q. bt_get (path_index fs) q = Some ino} + (if i_kind i = Directory then 1 else 0)))"
proof -
  have inv: "fs_inv fs" using assms by (rule fs_run.reachable_inv)
  have "kind_at fs ''/'' = Some Directory"
    using tree_okD(1) [OF fs_invD(2) [OF inv]] by (simp add: kind_at_shape render_def)
  moreover have "\<exists>i. bt_get (inodes fs) ino = Some i \<and>
      m_nlink (i_metadata i) = card {q. bt_get (path_index fs) q = Some ino} + (if i_kind i = Directory then 1 else 0)"
    if "bt_get (path_index fs) p = Some ino" for p ino
    by (rule fs_ok_live [OF fs_invD(1) [OF inv] that]) (auto simp: links_ok_def links_def split: if_splits)
  ultimately show ?thesis using fs_inv_parent [OF inv] by blast
qed

definition sample_clock :: clock where
  "sample_clock = \<lparr>now_ms = 5, now_time_spec = \<lparr>ts_sec = 0, ts_nsec = 5000000\<rparr>\<rparr>"

definition sample_fs :: memory_fs where
  "sample_fs = snd (fs_write_file 5 ''/d/f'' [1, 2] (memory_fs_new 0))"

lemma sample_fs_reachable: "fs_step\<^sup>*\<^sup>* (memory_fs_new 0) sample_fs"
proof (rule r_into_rtranclp)
  show "fs_step (memory_fs_new 0) sample_fs"
    by (rule fs_step.intros [of sample_clock "Write_File ''/d/f'' [1, 2]" _ "fst (fs_write_file 5 ''/d/f'' [1, 2] (memory_fs_new 0))"])
      (simp_all add: sample_fs_def sample_clock_def memory_vfs_def)
qed

theorem fs_tree_and_links_witness:
  "kind_at sample_fs ''/'' = Some Directory \<and> kind_at sample_fs ''/d'' = Some Directory"
proof -
  have "bt_get (path_index sample_fs) ''/d/f'' \<noteq> None" "dirname ''/d/f'' = ''/d''" by code_simp+
  then show ?thesis using fs_tree_and_links [OF sample_fs_reachable] by fastforce
qed



subsection \<open>The calls that break the tree\<close>

lemma resolve_root: "resolve_path_with_options fs ''/'' f 0 = Inr ''/''"
  by (simp add: resolve_path_with_options.simps validate_path_def normalize_path_def MAX_PATH_LENGTH_def is_ascii_control_def)

lemma no_double_slash:
  assumes "fs_inv fs"
  shows "\<not> has_descendant fs ''/''"
proof
  assume "has_descendant fs ''/''"
  then obtain p where p: "bt_get (path_index fs) p \<noteq> None" "starts_with p ''//''"
    by (auto simp: has_descendant_def list_ex_iff)
  obtain ns where ns: "proper_names ns" "p = render ns" by (rule fs_inv_names [OF assms p(1)])
  show False
  proof (cases ns)
    case Nil
    then show ?thesis using p(2) ns(2) by (simp add: render_def starts_with_def)
  next
    case (Cons n ms)
    then obtain c cs where "n = c # cs" "c \<noteq> CHR ''/''" using ns(1) by (cases n) (auto simp: proper_name_def)
    then show ?thesis using p(2) ns(2) Cons by (simp add: render_slashed starts_with_def)
  qed
qed

text \<open>
  C27. Renaming a file onto the root succeeds and replaces the root directory by the file: the test for
  entries below the destination looks for paths that start with \<^verbatim>\<open>//\<close>, and there are none.
\<close>

theorem rename_replaces_root:
  assumes "fs_inv fs" "resolve_exact_path fs old = Inr p" "kind_at fs p = Some (File data)"
  shows "\<exists>fs'. fs_rename now old ''/'' fs = (Inr (), fs') \<and> kind_at fs' ''/'' = Some (File data)"
proof -
  note inv = assms(1)
  obtain ino i where i: "bt_get (path_index fs) p = Some ino" "bt_get (inodes fs) ino = Some i" "i_kind i = File data"
    using assms(3) by (auto simp: kind_at_def bind_eq_Some_conv)
  have "kind_at fs ''/'' = Some Directory"
    using tree_okD(1) [OF fs_invD(2) [OF inv]] by (simp add: kind_at_shape render_def)
  then obtain r d where d: "bt_get (path_index fs) ''/'' = Some r" "bt_get (inodes fs) r = Some d" "i_kind d = Directory"
    by (auto simp: kind_at_def bind_eq_Some_conv)
  have p: "p \<noteq> ''/''" "r \<noteq> ino" using i d by auto
  have dir: "assert_directory_path fs ''/'' ''rename'' = Inr ()"
    using d by (simp add: assert_directory_path_def inode_for_existing_path_def inode_id_for_existing_path_def
        resolve_path_def resolve_root normalize_path_def ok_or_def)
  have new: "resolve_exact_path fs ''/'' = Inr ''/''" by (simp add: resolve_exact_path_def resolve_root)
  have "p \<noteq> []" using tree_okD(2) [OF fs_invD(2) [OF inv], of p] shape_Some [OF i(1,2)] by auto
  then have outside: "\<not> starts_with ''/'' (p @ ''/'')" by (cases p) (auto simp: starts_with_def)
  define drop where "drop = decrement_link_count r (unindex_path ''/'' (update_inode r (set_ctime now) fs))"
  have rm: "remove_existing_destination now ''/'' fs = drop"
    using new d no_double_slash [OF inv] by (simp add: remove_existing_destination_def drop_def)
  have drop: "fst drop = Inr ()" "path_index (snd drop) = bt_remove ''/'' (path_index fs)"
    "bt_get (inodes (snd drop)) ino = Some i"
    using d(2) i(2) p(2) by (auto simp: drop_def decrement_link_count_def unindex_path_def Let_def)
  then obtain fs1 where fs1: "drop = (Inr (), fs1)" by (metis prod.collapse)
  let ?fs2 = "index_path ''/'' ino (unindex_path p fs1)"
  have "fs_rename now old ''/'' fs = (Inr (), update_inode ino (set_ctime now) ?fs2)"
    using assms(2) new p(1) dir outside i rm fs1 drop(3)
    by (simp add: fs_rename_def bt_contains_def index_path_def unindex_path_def)
  moreover have "kind_at (update_inode ino (set_ctime now) ?fs2) ''/'' = Some (File data)"
    using drop(3) fs1 i(3) by (simp add: kind_at_def index_path_def unindex_path_def set_ctime_def update_metadata_def)
  ultimately show ?thesis by blast
qed

theorem rename_replaces_root_witness:
  "\<exists>fs'. fs_rename 7 ''/d/f'' ''/'' sample_fs = (Inr (), fs') \<and> kind_at fs' ''/'' = Some (File [1, 2])"
proof -
  have "resolve_exact_path sample_fs ''/d/f'' = Inr ''/d/f''" "kind_at sample_fs ''/d/f'' = Some (File [1, 2])"
    by code_simp+
  with fs_run.reachable_inv [OF sample_fs_reachable] show ?thesis by (rule rename_replaces_root)
qed


definition empty_dir_fs :: memory_fs where
  "empty_dir_fs = snd (fs_create_dir 5 ''/e'' (memory_fs_new 0))"


subsection \<open>Canonical paths\<close>

lemma walk_to_entry:
  assumes "live_index fs" "proper_names (cs @ ps)" "plain fs (butlast (cs @ ps))" "ps \<noteq> []"
    "\<And>t. kind_at fs (render (cs @ ps)) \<noteq> Some (SymbolicLink t)"
  shows "walk fs f (render cs) ps = Reached (render (cs @ ps))"
  using assms(2-)
proof (induction ps arbitrary: cs)
  case (Cons p ps)
  have p: "child_path (render cs) p = render (cs @ [p])" using Cons.prems(1) by (simp add: child_path_render)
  note step = walk_Cons [OF assms(1), of f "render cs" p ps, unfolded p Let_def]
  show ?case
  proof (cases "ps = []")
    case True
    then show ?thesis using step Cons.prems(4) by (auto split: option.splits inode_kind.splits)
  next
    case False
    then have b: "butlast (cs @ p # ps) = (cs @ [p]) @ butlast ps" by (simp add: butlast_append)
    then have "plain fs (cs @ [p])" using plain_prefix [of fs "cs @ [p]"] Cons.prems(2) by metis
    then have k: "kind_at fs (render (cs @ [p])) \<in> {None, Some Directory}" by simp
    have "walk fs f (render (cs @ [p])) ps = Reached (render ((cs @ [p]) @ ps))"
      using Cons.prems False b by (intro Cons.IH) (simp_all add: butlast_append)
    then show ?thesis using step k by auto
  qed
qed simp

lemma resolve_to_entry:
  assumes "live_index fs" "proper_names ns" "plain fs (butlast ns)" "validate_path (render ns) = Inr u"
    "\<And>t. kind_at fs (render ns) \<noteq> Some (SymbolicLink t)"
  shows "resolve_path_with_options fs (render ns) f 0 = Inr (render ns)"
proof (cases "ns = []")
  case True
  then show ?thesis using resolve_root by (simp add: render_def)
next
  case False
  then have "walk fs f ''/'' ns = Reached (render ns)" "render ns \<noteq> ''/''"
    using walk_to_entry [of fs "[]" ns f] assms by (simp_all add: render_root_iff) (simp add: render_def)
  then show ?thesis using assms
    by (simp add: resolve_path_with_options.simps [of fs "render ns"] normalize_render components_render)
qed

lemma realpath_names:
  assumes inv: "fs_inv fs" and r: "fs_realpath p fs = Inr q"
  obtains ns where "proper_names ns" "q = render ns" "plain fs (butlast ns)"
    "\<forall>ms k. ns = ms @ k \<and> k \<noteq> [] \<longrightarrow> kind_at fs (render ms) = Some Directory"
    "\<forall>t. kind_at fs q \<noteq> Some (SymbolicLink t)" "bt_get (path_index fs) q \<noteq> None"
proof -
  note live = fs_invD(3) [OF inv]
  have q: "resolve_path_with_options fs p True 0 = Inr q" "bt_get (path_index fs) q \<noteq> None"
    using r by (auto simp: fs_realpath_def resolve_path_def bt_contains_def split: sum.splits if_splits)
  obtain ns where ns: "proper_names ns" "q = render ns" "plain fs (butlast ns)"
    "True \<and> ns \<noteq> [] \<longrightarrow> (\<forall>t. kind_at fs q \<noteq> Some (SymbolicLink t))"
    by (rule resolved_names [OF live q(1)])
  have root: "kind_at fs (render []) = Some Directory"
    using tree_okD(1) [OF fs_invD(2) [OF inv]] by (simp add: kind_at_shape)
  have link: "kind_at fs q \<noteq> Some (SymbolicLink t)" for t using ns root by (cases "ns = []") auto
  have "shape fs q \<noteq> None" using q(2) shape_None [OF live, of q] by simp
  then have prefixes: "kind_at fs (render ms) = Some Directory" if "ns = ms @ k" "k \<noteq> []" for ms k
    using tree_ok_prefix [OF fs_invD(2) [OF inv], of ms k] that ns(1,2) by (simp add: kind_at_shape)
  show ?thesis by (rule that [OF ns(1-3)]) (use prefixes link q(2) in blast)+
qed


definition linked_fs :: memory_fs where
  "linked_fs = snd (fs_symlink 6 ''d'' ''/l'' sample_fs)"


end
