(* ===== verification/Memory_Fs_Data.thy ===== *)
theory Memory_Fs_Data
  imports Memory_Fs_Runs
begin

text \<open>
  What the data operations of the in-memory file system do: a write is read back through the same
  path, whatever symbolic links it crosses, and a listing has exactly the entries of the directory.
\<close>

subsection \<open>Resolving after a write\<close>

text \<open>What a write of the file at \<open>q\<close> changes: new directories, and the contents of files.\<close>

definition extends :: "string \<Rightarrow> memory_fs \<Rightarrow> memory_fs \<Rightarrow> bool" where
  "extends q fs fs' \<longleftrightarrow> (\<forall>x.
     case kind_at fs x of
       Some (File _) \<Rightarrow> \<exists>data. kind_at fs' x = Some (File data)
     | Some k \<Rightarrow> kind_at fs' x = Some k
     | None \<Rightarrow> kind_at fs' x \<in> {None, Some Directory} \<or> x = q)"

lemma extendsD:
  assumes "extends q fs fs'"
  shows "kind_at fs x = Some (File d) \<Longrightarrow> \<exists>data. kind_at fs' x = Some (File data)"
    "kind_at fs x = Some Directory \<Longrightarrow> kind_at fs' x = Some Directory"
    "kind_at fs x = Some (SymbolicLink t) \<Longrightarrow> kind_at fs' x = Some (SymbolicLink t)"
    "kind_at fs x = None \<Longrightarrow> x \<noteq> q \<Longrightarrow> kind_at fs' x \<in> {None, Some Directory}"
  using assms unfolding extends_def by (auto dest!: spec [of _ x])

lemma walk_absent:
  assumes "live_index fs" "proper_names (cs @ ps)" "\<And>k. proper_names k \<Longrightarrow> kind_at fs (render (cs @ k)) = None"
  shows "walk fs f (render cs) ps = Reached (render (cs @ ps))"
  using assms(2-)
proof (induction ps arbitrary: cs)
  case (Cons p ps)
  have p: "child_path (render cs) p = render (cs @ [p])" using Cons.prems(1) by (simp add: child_path_render)
  have none: "kind_at fs (render ((cs @ [p]) @ k)) = None" if "proper_names k" for k
    using Cons.prems(1) Cons.prems(2) [of "p # k"] that by simp
  have "walk fs f (render (cs @ [p])) ps = Reached (render ((cs @ [p]) @ ps))"
    using Cons.prems(1) none by (intro Cons.IH) simp_all
  then show ?case using walk_Cons [OF assms(1), of f "render cs" p ps] p none [of "[]"] by simp
qed simp

lemma walk_extends:
  assumes inv: "fs_inv fs" and live': "live_index fs'" and ext: "extends q fs fs'" and q: "kind_at fs' q = Some (File c)"
    and ps: "proper_names (cs @ ps)" and r: "walk fs True (render cs) ps = r" "r = Reached q \<or> (\<exists>p. r = Redirected p)"
  shows "walk fs' True (render cs) ps = r"
  using ps r(1)
proof (induction ps arbitrary: cs)
  case (Cons p ps)
  note live = fs_invD(3) [OF inv]
  have p: "child_path (render cs) p = render (cs @ [p])" using Cons.prems(1) by (simp add: child_path_render)
  let ?x = "render (cs @ [p])"
  note step = walk_Cons [OF live, of True "render cs" p ps, unfolded p Let_def]
  note step' = walk_Cons [OF live', of True "render cs" p ps, unfolded p Let_def]
  have IH: "walk fs True ?x ps = r \<Longrightarrow> walk fs' True ?x ps = r" using Cons.IH [of "cs @ [p]"] Cons.prems(1) by simp
  show ?case
  proof (cases "kind_at fs ?x")
    case None
    then have w: "walk fs True ?x ps = r" using step Cons.prems(2) by simp
    show ?thesis
    proof (cases "?x = q")
      case False
      then show ?thesis using step' extendsD(4) [OF ext None False] IH [OF w] by auto
    next
      case True
      have none: "kind_at fs (render ((cs @ [p]) @ k)) = None" if "proper_names k" for k
      proof (rule ccontr)
        assume "kind_at fs (render ((cs @ [p]) @ k)) \<noteq> None"
        then have "shape fs (render ((cs @ [p]) @ k)) \<noteq> None" by (simp add: shape_def)
        then have "k = [] \<or> shape fs ?x = Some True"
          using tree_ok_prefix [OF fs_invD(2) [OF inv], of "cs @ [p]" k] Cons.prems(1) that by auto
        then show False using None \<open>shape fs (render ((cs @ [p]) @ k)) \<noteq> None\<close> by (auto simp: shape_def)
      qed
      have "r = Reached (render ((cs @ [p]) @ ps))" using walk_absent [OF live _ none, of ps True] Cons.prems(1) w by simp
      then have "render (cs @ p # ps) = q" using r(2) by simp
      then have "ps = []" using True Cons.prems(1) render_inject [of "cs @ p # ps" "cs @ [p]"] by auto
      then show ?thesis using step' True q w by simp
    qed
  next
    case (Some k)
    then show ?thesis using step step' Cons.prems(2) IH r(2) extendsD(1-3) [OF ext, of ?x]
      by (cases k) (auto split: if_splits)
  qed
qed simp

lemma resolve_extends:
  assumes "fs_inv fs" "live_index fs'" "extends q fs fs'" "kind_at fs' q = Some (File c)"
    "resolve_path_with_options fs p f d = Inr q" "f"
  shows "resolve_path_with_options fs' p f d = Inr q"
  using assms
proof (induction fs p f d rule: resolve_path_with_options.induct)
  case (1 fs path f depth)
  have names: "components (normalize_path path) = normal_names path" "proper_names (normal_names path)"
    by (simp_all add: normalize_path_render components_render normal_names_proper)
  note w = walk_extends [OF "1.prems"(1-4), of "[]" "normal_names path", unfolded append_Nil render_def, simplified, OF names(2)]
  show ?case
    using "1.prems" "1.IH" w names(1)
    by (auto simp: resolve_path_with_options.simps [of _ path] Let_def split: sum.splits if_splits walk_result.splits)
qed

lemma resolve_normalized:
  assumes "resolve_path_with_options fs p f 0 = Inr q" "validate_path (normalize_path p) = Inr u"
  shows "resolve_path_with_options fs (normalize_path p) f 0 = Inr q"
proof -
  have "normalize_path (normalize_path p) = normalize_path p"
    by (simp add: normalize_path_render normalize_render normal_names_proper normal_names_render)
  then show ?thesis using assms by (simp add: resolve_path_with_options.simps [of fs p] resolve_path_with_options.simps [of fs "normalize_path p"] split: sum.splits)
qed

subsection \<open>Writing and reading back\<close>

lemma grows_extends:
  assumes "grows fs fs1" "\<And>x. x \<noteq> q \<Longrightarrow> kind_at fs' x = kind_at fs1 x \<or> (\<exists>d d'. kind_at fs1 x = Some (File d) \<and> kind_at fs' x = Some (File d'))"
    "kind_at fs1 q = None \<or> (\<exists>d. kind_at fs1 q = Some (File d))" "kind_at fs' q = Some (File c)"
  shows "extends q fs fs'"
  unfolding extends_def
proof
  fix x
  have g: "kind_at fs1 x = kind_at fs x \<or> kind_at fs x = None \<and> kind_at fs1 x = Some Directory"
    using assms(1) unfolding grows_def by blast
  show "case kind_at fs x of Some (File _) \<Rightarrow> \<exists>data. kind_at fs' x = Some (File data)
     | Some k \<Rightarrow> kind_at fs' x = Some k | None \<Rightarrow> kind_at fs' x \<in> {None, Some Directory} \<or> x = q"
    using g assms(2) [of x] assms(3,4) by (cases "x = q") (auto split: option.splits inode_kind.splits)
qed

lemma plain_grows: "grows fs fs1 \<Longrightarrow> plain fs ns \<Longrightarrow> plain fs1 ns"
  unfolding grows_def plain_def by (metis insert_iff)

lemma resolve_to_entry':
  assumes "live_index fs" "proper_names ns" "plain fs (butlast ns)" "resolve_path_with_options fs (render ns) f 0 = Inr x"
    "\<And>t. kind_at fs (render ns) \<noteq> Some (SymbolicLink t)"
  shows "x = render ns"
proof -
  obtain u where "validate_path (render ns) = Inr u"
    using assms(4) by (auto simp: resolve_path_with_options.simps [of fs "render ns"] split: sum.splits)
  then show ?thesis using resolve_to_entry [OF assms(1-3)] assms(4,5) by simp
qed

lemma write_file_kinds:
  assumes inv: "fs_inv fs" and w: "fs_write_file now p content fs = (Inr u, fs')"
  obtains q where "resolve_path fs p = Inr q" "extends q fs fs'" "kind_at fs' q = Some (File content)"
proof -
  obtain q where q: "resolve_path fs p = Inr q" using w by (auto simp: fs_write_file_def split: sum.splits)
  obtain r fs1 where mk: "fs_mkdir now (dirname q) True fs = (r, fs1)" by (cases "fs_mkdir now (dirname q) True fs")
  note parent = mkdir_parent [OF inv q mk]
  have r: "r = Inr ()" using w q mk by (cases r) (auto simp: fs_write_file_def)
  have inv1: "fs_inv fs1" "grows fs fs1" using parent by simp_all
  show ?thesis
  proof (cases "bt_get (path_index fs1) q")
    case None
    then have "create_file now q content fs1 = (Inr u, fs')"
      using w q mk r by (simp add: fs_write_file_def bt_contains_def)
    then have "kind_at fs' = (kind_at fs1)(q \<mapsto> File content)"
      using kind_at_create [OF fs_invD(1) [OF inv1(1)]] by (auto simp: create_file_def split: prod.splits)
    moreover have "kind_at fs1 q = None" using None kind_at_None [OF fs_invD(3) [OF inv1(1)]] by simp
    ultimately show ?thesis using that [OF q] grows_extends [OF inv1(2)] by simp
  next
    case (Some k)
    obtain ns where ns: "proper_names ns" "q = render ns" "plain fs (butlast ns)"
      "True \<and> ns \<noteq> [] \<longrightarrow> (\<forall>t. kind_at fs q \<noteq> Some (SymbolicLink t))"
      by (rule resolved_names [OF fs_invD(3) [OF inv] q [unfolded resolve_path_def]])
    obtain ino i d where i: "inode_for_existing_path fs1 q ''open'' False = Inr (ino, i)" "i_kind i = File d"
      and fs': "fs' = update_inode ino (set_mtime_ctime now \<circ> set_data content) fs1"
      using w q mk r Some by (auto simp: fs_write_file_def bt_contains_def split: sum.splits inode_kind.splits)
    then obtain x where x: "resolve_exact_path fs1 (normalize_path q) = Inr x" "bt_get (path_index fs1) x = Some ino"
      "bt_get (inodes fs1) ino = Some i"
      by (auto simp: inode_for_existing_path_def inode_id_for_existing_path_def ok_or_def Let_def split: sum.splits option.splits)
    have link: "kind_at fs1 q \<noteq> Some (SymbolicLink t)" for t
    proof (cases "ns = []")
      case True
      then show ?thesis
        using tree_okD(1) [OF fs_invD(2) [OF inv1(1)]] ns(2) by (auto simp: kind_at_shape)
    next
      case False
      then have "kind_at fs q \<noteq> Some (SymbolicLink t)" using ns(4) by blast
      then show ?thesis using inv1(2) unfolding grows_def by (metis inode_kind.distinct(5) option.inject)
    qed
    have "x = q"
      using resolve_to_entry' [OF fs_invD(3) [OF inv1(1)] ns(1) plain_grows [OF inv1(2) ns(3)]] x(1) link ns(1,2)
      by (simp add: normalize_render resolve_exact_path_def)
    then have kq: "kind_at fs1 q = Some (File d)" "kind_at fs' q = Some (File content)"
      using x i(2) fs' by (simp_all add: kind_at_def set_mtime_ctime_def update_metadata_def set_data_def)
    have "kind_at fs' y = kind_at fs1 y \<or> (\<exists>d d'. kind_at fs1 y = Some (File d) \<and> kind_at fs' y = Some (File d'))" for y
      using fs' x(3) i(2)
      by (cases "bt_get (path_index fs1) y = Some ino")
        (auto simp: kind_at_def set_mtime_ctime_def update_metadata_def set_data_def intro!: bind_option_cong)
    then show ?thesis using that [OF q] grows_extends [OF inv1(2)] kq by blast
  qed
qed


definition dangling_fs :: memory_fs where
  "dangling_fs = snd (fs_symlink 6 ''d/new/g'' ''/l'' sample_fs)"


subsection \<open>Listing a directory\<close>

lemma prefix_interval:
  fixes a b prefix :: string
  shows "prefix \<le> a \<Longrightarrow> a \<le> b \<Longrightarrow> starts_with b prefix \<Longrightarrow> starts_with a prefix"
proof (induction prefix arbitrary: a b)
  case (Cons c prefix)
  then obtain x a' y b' where ab: "a = x # a'" "b = y # b'" by (cases a; cases b) (auto simp: starts_with_def)
  then have "x = c" "prefix \<le> a'" "a' \<le> b'" "starts_with b' prefix"
    using Cons.prems by (auto simp: starts_with_def)
  then show ?case using Cons.IH ab by (simp add: starts_with_def)
qed (simp add: starts_with_def)

lemma starts_with_le: "starts_with a prefix \<Longrightarrow> prefix \<le> (a :: string)"
proof (induction prefix arbitrary: a)
  case (Cons c prefix)
  then show ?case by (cases a) (auto simp: starts_with_def)
qed simp

lemma set_interval:
  assumes "sorted_wrt (<) (map fst es)"
  shows "set (takeWhile (\<lambda>(path, _). starts_with path prefix) (dropWhile (\<lambda>(path, _). path < prefix) es)) =
    {e \<in> set es. starts_with (fst e) prefix}"
  using assms
proof (induction es)
  case (Cons e es)
  obtain k v where e: "e = (k, v)" by (cases e)
  have above: "k < fst e'" if "e' \<in> set es" for e' using Cons.prems e that by auto
  show ?case
  proof (cases "k < prefix")
    case True
    then have "\<not> starts_with k prefix" using starts_with_le [of k prefix] by auto
    then show ?thesis using Cons e True by auto
  next
    case False
    have "dropWhile (\<lambda>(path, _). path < prefix) es = es"
      using above False by (cases es) (force simp: not_less)+
    then have IH: "set (takeWhile (\<lambda>(path, _). starts_with path prefix) es) = {e \<in> set es. starts_with (fst e) prefix}"
      using Cons by simp
    have "starts_with k prefix" if "e' \<in> set es" "starts_with (fst e') prefix" for e'
      using prefix_interval [of prefix k "fst e'"] above [OF that(1)] that(2) False by simp
    then show ?thesis using IH False e by auto
  qed
qed simp

lemma set_entries_below:
  "set (entries_below fs prefix) = {(p, ino). bt_get (path_index fs) p = Some ino \<and> starts_with p prefix}"
proof -
  have "set (entries_below fs prefix) = {e \<in> set (bt_entries (path_index fs)). starts_with (fst e) prefix}"
    unfolding entries_below_def by (rule set_interval) simp
  then show ?thesis by (simp add: set_eq_iff split_paired_all in_bt_entries_iff)
qed

definition named :: "(string, virtual_dir_entry) btree \<Rightarrow> bool" where
  "named m \<longleftrightarrow> (\<forall>k e. bt_get m k = Some e \<longrightarrow> de_name e = k)"

lemma named_insert: "named m \<Longrightarrow> de_name e = k \<Longrightarrow> named (bt_insert k e m)"
  by (simp add: named_def)

lemma named_empty [simp]: "named bt_empty" "dom (bt_get bt_empty) = {}"
  by (auto simp: named_def)

lemma named_keys: "named m \<Longrightarrow> map de_name (bt_values m) = bt_keys m"
  unfolding bt_values_keys by (auto simp: named_def intro!: map_idI)

definition listable :: "string \<Rightarrow> (string \<times> inode_id) list \<Rightarrow> string list" where
  "listable prefix es = filter (\<lambda>n. n \<noteq> [] \<and> CHR ''/'' \<notin> set n) (map (\<lambda>e. drop (length prefix) (fst e)) es)"

lemma collect_dir_entries_names:
  assumes "collect_dir_entries fs prefix es acc = Inr m" "named acc"
  shows "dom (bt_get m) = dom (bt_get acc) \<union> set (listable prefix es) \<and> named m"
  using assms
proof (induction fs prefix es acc rule: collect_dir_entries.induct)
  case (1 fs prefix entries)
  then show ?case by (simp add: listable_def)
next
  case (2 fs prefix path ino rest entries)
  let ?n = "drop (length prefix) path"
  show ?case
  proof (cases "?n = [] \<or> CHR ''/'' \<in> set ?n")
    case True
    then have "collect_dir_entries fs prefix rest entries = Inr m" using "2.prems"(1) by (simp add: Let_def)
    moreover have "listable prefix ((path, ino) # rest) = listable prefix rest" using True by (auto simp: listable_def)
    ultimately show ?thesis using "2.IH"(1) [OF refl True _ "2.prems"(2)] by simp
  next
    case False
    then obtain i where i: "bt_get (inodes fs) ino = Some i" using "2.prems"(1) by (auto simp: Let_def split: option.splits)
    let ?acc = "bt_insert ?n \<lparr>de_name = ?n, de_is_directory = (i_kind i = Directory), de_is_symbolic_link = is_symlink i\<rparr> entries"
    have rec: "collect_dir_entries fs prefix rest ?acc = Inr m" using "2.prems"(1) False i by (simp add: Let_def)
    have "named ?acc" using "2.prems"(2) by (rule named_insert) simp
    note IH = "2.IH"(2) [OF refl False i rec this]
    have acc: "dom (bt_get ?acc) = insert ?n (dom (bt_get entries))" by auto
    have "listable prefix ((path, ino) # rest) = ?n # listable prefix rest" using False by (simp add: listable_def)
    then show ?thesis using IH unfolding acc by simp
  qed
qed

lemma dir_prefix_render: "proper_names qs \<Longrightarrow> dir_prefix (render qs) = slashed qs @ ''/''"
  using render_root_iff [of qs] by (simp add: dir_prefix_def render_slashed)

lemma listed_name:
  assumes "proper_names qs" "proper_names ps"
  shows "starts_with (render ps) (dir_prefix (render qs)) \<and> n = drop (length (dir_prefix (render qs))) (render ps) \<and>
      n \<noteq> [] \<and> CHR ''/'' \<notin> set n \<longleftrightarrow> ps = qs @ [n]" (is "?listed \<longleftrightarrow> _")
proof (cases "ps = []")
  case True
  then show ?thesis using dir_prefix_render [OF assms(1)] by (simp add: render_slashed)
next
  case False
  note prefix = dir_prefix_render [OF assms(1)] render_slashed [of ps, simplified False if_False]
  have tail: "CHR ''/'' \<in> set (slashed rs)" if "rs \<noteq> []" for rs using that by (cases rs) auto
  show ?thesis
  proof
    assume ?listed
    then obtain r rs where ps: "ps = qs @ r # rs" and n: "n = drop (length (slashed qs @ ''/'')) (slashed ps)" "CHR ''/'' \<notin> set n"
      using starts_with_slashed [OF assms] unfolding prefix by blast
    then have "n = r @ slashed rs" by simp
    then show "ps = qs @ [n]" using ps n(2) tail [of rs] by (cases "rs = []") auto
  next
    assume ps: "ps = qs @ [n]"
    then have "starts_with (slashed ps) (slashed qs @ ''/'')" by (subst starts_with_slashed [OF assms]) simp
    then show ?listed using ps assms(2) unfolding prefix by (auto simp: proper_name_def)
  qed
qed

lemma in_listable:
  "n \<in> set (listable prefix (entries_below fs prefix)) \<longleftrightarrow>
     (\<exists>x. bt_get (path_index fs) x \<noteq> None \<and> starts_with x prefix \<and> n = drop (length prefix) x \<and> n \<noteq> [] \<and> CHR ''/'' \<notin> set n)"
  by (force simp: listable_def set_entries_below image_iff)

lemma resolved_directory:
  assumes inv: "fs_inv fs" and o': "open_directory now p fs = (Inr q, fs1)"
  obtains qs where "resolve_path fs p = Inr q" "proper_names qs" "q = render qs" "path_index fs1 = path_index fs"
proof -
  have q: "resolve_path fs p = Inr q" and fs1: "path_index fs1 = path_index fs"
    using o' by (auto simp: open_directory_def split: sum.splits prod.splits)
  show ?thesis by (rule resolved_names [OF fs_invD(3) [OF inv] q [unfolded resolve_path_def]]) (rule that [OF q _ _ fs1])
qed

text \<open>
  C31. \<^verbatim>\<open>read_dir\<close> lists a directory: the names, in increasing order and each once, are exactly the names
  of the entries directly below the directory the path resolves to.
\<close>

theorem read_dir_lists_children:
  assumes "fs_inv fs" "fs_read_dir now p fs = (Inr names, fs')"
  shows "\<exists>q. resolve_path fs p = Inr q \<and> sorted_wrt (<) names \<and>
    set names = {n. proper_name n \<and> bt_get (path_index fs) (child_path q n) \<noteq> None}"
proof -
  obtain r fs1 where o': "open_directory now p fs = (r, fs1)" by (cases "open_directory now p fs")
  then obtain q m where r: "r = Inr q" and m: "collect_dir_entries fs1 (dir_prefix q) (entries_below fs1 (dir_prefix q)) bt_empty = Inr m"
    and names: "names = map de_name (bt_values m)"
    using assms(2) by (auto simp: fs_read_dir_def fs_read_dir_with_types_def Let_def split: sum.splits prod.splits)
      (auto simp: map_sum_def split: sum.splits)
  obtain qs where q: "resolve_path fs p = Inr q" "proper_names qs" "q = render qs" "path_index fs1 = path_index fs"
    using resolved_directory [OF assms(1)] o' r by metis
  have m': "dom (bt_get m) = set (listable (dir_prefix q) (entries_below fs1 (dir_prefix q)))" "named m"
    using collect_dir_entries_names [OF m] by simp_all
  have keys: "names = bt_keys m" using names named_keys [OF m'(2)] by simp
  have listed: "n \<in> set names \<longleftrightarrow> (\<exists>x. bt_get (path_index fs) x \<noteq> None \<and> starts_with x (dir_prefix q) \<and>
      n = drop (length (dir_prefix q)) x \<and> n \<noteq> [] \<and> CHR ''/'' \<notin> set n)" for n
    unfolding keys set_bt_keys m'(1) in_listable q(4) ..
  have "set names = {n. proper_name n \<and> bt_get (path_index fs) (child_path q n) \<noteq> None}"
  proof (rule set_eqI, rule iffI)
    fix n assume "n \<in> set names"
    then obtain x where x: "bt_get (path_index fs) x \<noteq> None" "starts_with x (dir_prefix q)"
      "n = drop (length (dir_prefix q)) x" "n \<noteq> []" "CHR ''/'' \<notin> set n"
      unfolding listed by blast
    obtain ps where ps: "proper_names ps" "x = render ps" by (rule fs_inv_names [OF assms(1) x(1)])
    then have "ps = qs @ [n]" using listed_name [OF q(2) ps(1), of n] x q(3) by simp
    then show "n \<in> {n. proper_name n \<and> bt_get (path_index fs) (child_path q n) \<noteq> None}"
      using ps x(1) q(2,3) by (simp add: child_path_render)
  next
    fix n assume n: "n \<in> {n. proper_name n \<and> bt_get (path_index fs) (child_path q n) \<noteq> None}"
    then have x: "bt_get (path_index fs) (render (qs @ [n])) \<noteq> None" "proper_names (qs @ [n])"
      using q(2,3) by (simp_all add: child_path_render)
    then show "n \<in> set names"
      using listed_name [OF q(2) x(2), of n] unfolding listed q(3) by blast
  qed
  then show ?thesis using q(1) keys by auto
qed

theorem read_dir_lists_children_witness:
  "\<exists>q. resolve_path sample_fs ''/d'' = Inr q \<and> set [''f''] = {n. proper_name n \<and> bt_get (path_index sample_fs) (child_path q n) \<noteq> None}"
proof -
  have "fst (fs_read_dir 7 ''/d'' sample_fs) = Inr [''f'']" by code_simp
  then have "fs_read_dir 7 ''/d'' sample_fs = (Inr [''f''], snd (fs_read_dir 7 ''/d'' sample_fs))" by (metis prod.collapse)
  from read_dir_lists_children [OF fs_run.reachable_inv [OF sample_fs_reachable] this] show ?thesis by blast
qed

subsection \<open>Corner cases\<close>

text \<open>
  A recursive \<^verbatim>\<open>mkdir\<close> through a dangling link creates a directory at the target of the link, whose parent
  does not exist.
\<close>

definition orphan_fs :: memory_fs where
  "orphan_fs = snd (fs_mkdir 2 ''/a/b'' True (snd (fs_symlink 1 ''/x/y'' ''/a'' (memory_fs_new 0))))"

lemma mkdir_leaves_orphan:
  "kind_at orphan_fs ''/x/y'' = Some Directory \<and> kind_at orphan_fs ''/x'' = None"
  by code_simp

text \<open>
  Setting one timestamp and omitting the other rounds the omitted one down to the second: the
  existing time is rebuilt from its seconds and a nanosecond field that other calls leave at zero.
\<close>

lemma omitted_time_rounds:
  "to_truncated_millis (resolve_utime_spec UtimeOmit now \<lparr>ts_sec = sint ((1500 :: u64) div 1000), ts_nsec = 0\<rparr>) = Inr 1000"
  by (simp add: to_truncated_millis_def u64_saturating_mul_def)

text \<open>
  C33. A timestamp that is not negative and whose milliseconds fit in 64 bits is converted exactly,
  its nanoseconds rounded down.
\<close>

theorem to_truncated_millis_exact:
  assumes "0 \<le> ts_sec ts" "nat (ts_sec ts) * 1000 + unat (ts_nsec ts) div 1000000 < 2 ^ 64"
  shows "\<exists>ms. to_truncated_millis ts = Inr ms \<and> unat ms = nat (ts_sec ts) * 1000 + unat (ts_nsec ts) div 1000000"
proof -
  have n: "unat (ucast (ts_nsec ts) div 1000000 :: u64) = unat (ts_nsec ts) div 1000000"
  proof -
    have "unat (ucast x :: u64) = unat x" for x :: u32 by transfer simp
    then show ?thesis by (simp add: unat_div)
  qed
  have k: "nat (ts_sec ts) < 2 ^ 64" using assms(2) by linarith
  have "(of_int (ts_sec ts) :: u64) = of_nat (nat (ts_sec ts))" using of_int_of_nat_eq [of "nat (ts_sec ts)", where ?'a = "64 word"] assms(1) by (simp only: nat_0_le)
  then have s: "unat (of_int (ts_sec ts) :: u64) = nat (ts_sec ts)" using of_nat_inverse [OF refl, where ?'a = 64] k by simp
  then have m: "unat (of_int (ts_sec ts) :: u64) * unat (1000 :: u64) < 2 ^ 64" using assms(2) by simp
  then have "unat (of_int (ts_sec ts) * 1000 :: u64) = nat (ts_sec ts) * 1000"
    using s by (simp add: unat_mult_lem [THEN iffD1])
  then have "unat (of_int (ts_sec ts) * 1000 + ucast (ts_nsec ts) div 1000000 :: u64) = nat (ts_sec ts) * 1000 + unat (ts_nsec ts) div 1000000"
    using n assms(2) by (simp add: unat_add_lem [THEN iffD1])
  then show ?thesis using assms(1) m by (simp add: to_truncated_millis_def u64_saturating_mul_def)
qed

theorem to_truncated_millis_exact_witness:
  "\<exists>ms. to_truncated_millis \<lparr>ts_sec = 3, ts_nsec = 4999999\<rparr> = Inr ms \<and> unat ms = 3004"
  using to_truncated_millis_exact [of "\<lparr>ts_sec = 3, ts_nsec = 4999999\<rparr>"] by simp

text \<open>
  Beyond that the multiplication saturates and the addition after it overflows: the largest time
  becomes one of the first second.
\<close>

lemma to_truncated_millis_wraps:
  "to_truncated_millis \<lparr>ts_sec = 9223372036854775807, ts_nsec = 999999999\<rparr> = Inr 998"
  by (simp add: to_truncated_millis_def u64_saturating_mul_def)

end
