(* ===== verification/Permissions_Fs.thy ===== *)
theory Permissions_Fs
  imports Permissions Memory_Fs_Data
begin

text \<open>
  What the permission checks of the wrapped file system protect: an interface that says where a file
  system reads from, the confinement of reads proved over it, the in-memory file system as its
  provider, and the calls that get around the policy.
\<close>

subsection \<open>Reading\<close>

definition allows :: "fs_operation \<Rightarrow> string \<Rightarrow> 'f permissioned_fs \<Rightarrow> bool" where
  "allows op path s \<longleftrightarrow>
     (case perm_filesystem (pf_permissions s) of
        None \<Rightarrow> False
      | Some check \<Rightarrow> pd_allow (check \<lparr>fr_vm_id = pf_vm_id s, fr_op = op, fr_path = path\<rparr>))"

lemma pf_check_allows: "pf_check op path s = Inr u \<Longrightarrow> allows op path s"
  by (auto simp: pf_check_def allows_def Let_def split: sum.splits option.splits if_splits)

text \<open>
  A file system whose reads go to the canonical path: \<open>file_at\<close> gives the contents of the file at a
  canonical path.
\<close>

locale reading_fs =
  fixes v :: "'f vfs"
    and ok :: "'f \<Rightarrow> bool"
    and file_at :: "'f \<Rightarrow> string \<Rightarrow> bytes option"
  assumes read_file_at: "ok s \<Longrightarrow> vfs_read_file v now p s = (Inr data, s') \<Longrightarrow> vfs_realpath v p s = Inr q \<Longrightarrow> file_at s q = Some data"
    and pread_file_at: "ok s \<Longrightarrow> vfs_pread v now p offset len s = (Inr data, s') \<Longrightarrow> vfs_realpath v p s = Inr q \<Longrightarrow>
      \<exists>whole. file_at s q = Some whole \<and> data = pread_data offset len whole"
begin

lemma subject_of_read:
  assumes "check_subject v FsRead p s = Inr u"
  shows "\<exists>q. vfs_realpath v p (pf_inner s) = Inr q \<and> allows FsRead q s"
  using assms pf_check_allows
  by (auto simp: check_subject_def permission_subject_def resolved_existing_path_def split: sum.splits)

lemma read_confined:
  assumes "ok (pf_inner s)" "vfs_read_file (permissioned_vfs v) now p s = (Inr data, s')"
  shows "\<exists>q. vfs_realpath v p (pf_inner s) = Inr q \<and> allows FsRead q s \<and> file_at (pf_inner s) q = Some data"
proof -
  have c: "\<exists>u. check_subject v FsRead p s = Inr u" "\<exists>i. vfs_read_file v now p (pf_inner s) = (Inr data, i)"
    using assms(2) by (auto simp: permissioned_vfs_def checked_def guarded_def on_inner_def split: sum.splits prod.splits)
  then show ?thesis using subject_of_read read_file_at [OF assms(1)] by blast
qed

lemma pread_confined:
  assumes "ok (pf_inner s)" "vfs_pread (permissioned_vfs v) now p offset len s = (Inr data, s')"
  shows "\<exists>q whole. vfs_realpath v p (pf_inner s) = Inr q \<and> allows FsRead q s \<and>
    file_at (pf_inner s) q = Some whole \<and> data = pread_data offset len whole"
proof -
  have c: "\<exists>u. check_subject v FsRead p s = Inr u" "\<exists>i. vfs_pread v now p offset len (pf_inner s) = (Inr data, i)"
    using assms(2) by (auto simp: permissioned_vfs_def checked_def guarded_def on_inner_def split: sum.splits prod.splits)
  then show ?thesis using subject_of_read pread_file_at [OF assms(1)] by blast
qed

end

definition memory_file_at :: "memory_fs \<Rightarrow> string \<Rightarrow> bytes option" where
  "memory_file_at fs q = (case kind_at fs q of Some (File data) \<Rightarrow> Some data | _ \<Rightarrow> None)"

lemma realpath_normalize:
  assumes "fs_realpath p fs = Inr q" "inode_for_existing_path fs p op True = Inr (ino, i)"
  shows "bt_get (path_index fs) q = Some ino \<and> bt_get (inodes fs) ino = Some i"
proof -
  obtain x where x: "resolve_path fs (normalize_path p) = Inr x" "bt_get (path_index fs) x = Some ino" "bt_get (inodes fs) ino = Some i"
    using assms(2) by (auto simp: inode_for_existing_path_def inode_id_for_existing_path_def Let_def split: sum.splits option.splits)
  have q: "resolve_path fs p = Inr q" using assms(1) by (auto simp: fs_realpath_def split: sum.splits if_splits)
  obtain u where "validate_path (normalize_path p) = Inr u"
    using x(1) by (auto simp: resolve_path_def resolve_path_with_options.simps [of fs "normalize_path p"] split: sum.splits)
  then have "x = q" using resolve_normalized [of fs p True q u] q x(1) by (simp add: resolve_path_def)
  then show ?thesis using x by simp
qed

interpretation mem_reads: reading_fs memory_vfs "\<lambda>_. True" memory_file_at
proof unfold_locales
  fix s now p data s' q
  assume "vfs_read_file memory_vfs now p s = (Inr data, s')" and q: "vfs_realpath memory_vfs p s = Inr q"
  then obtain ino i where "inode_for_existing_path s p ''open'' True = Inr (ino, i)" "i_kind i = File data"
    by (auto simp: memory_vfs_def fs_read_file_def split: sum.splits inode_kind.splits)
  then show "memory_file_at s q = Some data"
    using realpath_normalize q by (fastforce simp: memory_vfs_def memory_file_at_def kind_at_def)
next
  fix s now p offset len data s' q
  assume "vfs_pread memory_vfs now p offset len s = (Inr data, s')" and q: "vfs_realpath memory_vfs p s = Inr q"
  then obtain ino i whole where "inode_for_existing_path s p ''open'' True = Inr (ino, i)" "i_kind i = File whole"
      "data = pread_data offset len whole"
    by (auto simp: memory_vfs_def fs_pread_def split: sum.splits inode_kind.splits)
  then show "\<exists>whole. memory_file_at s q = Some whole \<and> data = pread_data offset len whole"
    using realpath_normalize q by (fastforce simp: memory_vfs_def memory_file_at_def kind_at_def)
qed


text \<open>A policy that allows everything below \<^verbatim>\<open>/pub\<close> and nothing else.\<close>

definition pub_only :: permissions where
  "pub_only = permissions_allow_all\<lparr>perm_filesystem := Some (\<lambda>r.
     if starts_with (fr_path r) ''/pub/'' \<or> fr_path r = ''/pub'' then decision_allow else decision_deny ''private'')\<rparr>"

definition pub_fs :: memory_fs where
  "pub_fs = snd (fs_symlink 3 ''/secret/new'' ''/pub/hole'' (snd (fs_symlink 3 ''/secret'' ''/pub/link''
     (snd (fs_write_file 2 ''/pub/f'' [7] (snd (fs_write_file 1 ''/secret/f'' [1, 2] (memory_fs_new 0))))))))"

definition pub_box :: "memory_fs permissioned_fs" where
  "pub_box = \<lparr>pf_inner = pub_fs, pf_vm_id = ''vm'', pf_permissions = pub_only\<rparr>"

lemma pub_fs_inv: "fs_inv pub_fs"
proof -
  have w: "fs_inv (snd (fs_write_file now p d fs))" if "fs_inv fs" for now p d fs
    using sound_write_file [OF that, of now p d] by (simp add: sound_def)
  have l: "fs_inv (snd (fs_symlink now t p fs))" if "fs_inv fs" for now t p fs
    using sound_symlink [OF that] by (simp add: sound_def fs_symlink_def)
  show ?thesis unfolding pub_fs_def by (intro l w fs_inv_new)
qed


subsection \<open>Around the policy\<close>


text \<open>
  \<^verbatim>\<open>lstat\<close> is decided on the path as it is written, although links inside it are followed: it tells the
  size of a file that \<^verbatim>\<open>stat\<close> refuses to talk about.
\<close>

lemma lstat_escapes:
  "map_sum id st_size (vfs_lstat (permissioned_vfs memory_vfs) ''/pub/link/f'' pub_box) = Inr 2"
  "\<not> is_ok (fst (vfs_stat (permissioned_vfs memory_vfs) ''/pub/link/f'' pub_box))"
  by code_simp+

end
