(* ===== verification/Resource.thy ===== *)
theory Resource
  imports Vfs_Ops
begin

text \<open>
  Resource limits (\<^verbatim>\<open>resource_accounting.rs\<close>): the limits of a virtual machine, the checks the kernel
  makes against a snapshot of what is in use, the size of a process's arguments and environment, and
  the walk that measures how much a file system holds.
\<close>

subsection \<open>Limits and snapshots\<close>

definition DEFAULT_MAX_FILESYSTEM_BYTES :: u64 where "DEFAULT_MAX_FILESYSTEM_BYTES = 64 * 1024 * 1024"
definition DEFAULT_MAX_INODE_COUNT :: nat where "DEFAULT_MAX_INODE_COUNT = 16384"
definition DEFAULT_MAX_PROCESSES :: nat where "DEFAULT_MAX_PROCESSES = 256"
definition DEFAULT_MAX_OPEN_FDS :: nat where "DEFAULT_MAX_OPEN_FDS = 256"
definition DEFAULT_MAX_PIPES :: nat where "DEFAULT_MAX_PIPES = 128"
definition DEFAULT_MAX_PTYS :: nat where "DEFAULT_MAX_PTYS = 128"
definition DEFAULT_MAX_SOCKETS :: nat where "DEFAULT_MAX_SOCKETS = 256"
definition DEFAULT_MAX_CONNECTIONS :: nat where "DEFAULT_MAX_CONNECTIONS = 256"
definition DEFAULT_BLOCKING_READ_TIMEOUT_MS :: u64 where "DEFAULT_BLOCKING_READ_TIMEOUT_MS = 5000"
definition DEFAULT_MAX_PREAD_BYTES :: nat where "DEFAULT_MAX_PREAD_BYTES = 64 * 1024 * 1024"
definition DEFAULT_MAX_FD_WRITE_BYTES :: nat where "DEFAULT_MAX_FD_WRITE_BYTES = 64 * 1024 * 1024"
definition DEFAULT_MAX_PROCESS_ARGV_BYTES :: nat where "DEFAULT_MAX_PROCESS_ARGV_BYTES = 1024 * 1024"
definition DEFAULT_MAX_PROCESS_ENV_BYTES :: nat where "DEFAULT_MAX_PROCESS_ENV_BYTES = 1024 * 1024"
definition DEFAULT_MAX_READDIR_ENTRIES :: nat where "DEFAULT_MAX_READDIR_ENTRIES = 4096"
definition DEFAULT_VIRTUAL_CPU_COUNT :: nat where "DEFAULT_VIRTUAL_CPU_COUNT = 1"

record resource_snapshot =
  rs_running_processes :: nat
  rs_exited_processes :: nat
  rs_fd_tables :: nat
  rs_open_fds :: nat
  rs_pipes :: nat
  rs_pipe_buffered_bytes :: nat
  rs_ptys :: nat
  rs_pty_buffered_input_bytes :: nat
  rs_pty_buffered_output_bytes :: nat
  rs_sockets :: nat
  rs_socket_listeners :: nat
  rs_socket_connections :: nat

record resource_limits =
  virtual_cpu_count :: "nat option"
  max_processes :: "nat option"
  max_open_fds :: "nat option"
  max_pipes :: "nat option"
  max_ptys :: "nat option"
  max_sockets :: "nat option"
  max_connections :: "nat option"
  max_filesystem_bytes :: "u64 option"
  max_inode_count :: "nat option"
  max_blocking_read_ms :: "u64 option"
  max_pread_bytes :: "nat option"
  max_fd_write_bytes :: "nat option"
  max_process_argv_bytes :: "nat option"
  max_process_env_bytes :: "nat option"
  max_readdir_entries :: "nat option"
  max_wasm_fuel :: "u64 option"
  max_wasm_memory_bytes :: "u64 option"
  max_wasm_stack_bytes :: "nat option"

definition default_resource_limits :: resource_limits where
  "default_resource_limits = \<lparr>
     virtual_cpu_count = Some DEFAULT_VIRTUAL_CPU_COUNT, max_processes = Some DEFAULT_MAX_PROCESSES,
     max_open_fds = Some DEFAULT_MAX_OPEN_FDS, max_pipes = Some DEFAULT_MAX_PIPES, max_ptys = Some DEFAULT_MAX_PTYS,
     max_sockets = Some DEFAULT_MAX_SOCKETS, max_connections = Some DEFAULT_MAX_CONNECTIONS,
     max_filesystem_bytes = Some DEFAULT_MAX_FILESYSTEM_BYTES, max_inode_count = Some DEFAULT_MAX_INODE_COUNT,
     max_blocking_read_ms = Some DEFAULT_BLOCKING_READ_TIMEOUT_MS, max_pread_bytes = Some DEFAULT_MAX_PREAD_BYTES,
     max_fd_write_bytes = Some DEFAULT_MAX_FD_WRITE_BYTES,
     max_process_argv_bytes = Some DEFAULT_MAX_PROCESS_ARGV_BYTES,
     max_process_env_bytes = Some DEFAULT_MAX_PROCESS_ENV_BYTES,
     max_readdir_entries = Some DEFAULT_MAX_READDIR_ENTRIES, max_wasm_fuel = None, max_wasm_memory_bytes = None,
     max_wasm_stack_bytes = None\<rparr>"

record file_system_usage =
  total_bytes :: u64
  inode_count :: nat

definition resource_exhausted :: "string \<Rightarrow> sys_error" where
  "resource_exhausted msg = SysError EAGAIN msg"

definition file_table_full :: "string \<Rightarrow> sys_error" where
  "file_table_full msg = SysError ENFILE msg"

definition filesystem_full :: "string \<Rightarrow> sys_error" where
  "filesystem_full msg = SysError ENOSPC msg"

definition resource_invalid_input :: "string \<Rightarrow> sys_error" where
  "resource_invalid_input msg = SysError EINVAL msg"

definition resource_out_of_memory :: "string \<Rightarrow> sys_error" where
  "resource_out_of_memory msg = SysError ENOMEM msg"

text \<open>\<^verbatim>\<open>if let Some(limit) = limit { if exceeded(limit) { return Err(..) } }\<close>, with the rest of the check after it.\<close>

definition limited :: "'l option \<Rightarrow> ('l \<Rightarrow> bool) \<Rightarrow> ('l \<Rightarrow> sys_error) \<Rightarrow> unit result \<Rightarrow> unit result" where
  "limited l exceeded e rest = (case l of None \<Rightarrow> rest | Some n \<Rightarrow> if exceeded n then Inl (e n) else rest)"

lemma limited_ok [simp]: "limited l exceeded e rest = Inr u \<longleftrightarrow> (\<forall>n. l = Some n \<longrightarrow> \<not> exceeded n) \<and> rest = Inr u"
  by (auto simp: limited_def split: option.splits)

definition check_open_fds :: "resource_limits \<Rightarrow> resource_snapshot \<Rightarrow> nat \<Rightarrow> unit result" where
  "check_open_fds limits snapshot additional_fds =
     limited (max_open_fds limits) (\<lambda>limit. usize_saturating_add (rs_open_fds snapshot) additional_fds > limit)
       (\<lambda>_. file_table_full ''maximum open file descriptor limit reached'') (Inr ())"

definition check_process_spawn :: "resource_limits \<Rightarrow> resource_snapshot \<Rightarrow> nat \<Rightarrow> unit result" where
  "check_process_spawn limits snapshot additional_fds =
     limited (max_processes limits) (\<lambda>limit. rs_running_processes snapshot + rs_exited_processes snapshot \<ge> limit)
       (\<lambda>_. resource_exhausted ''maximum process limit reached'') (check_open_fds limits snapshot additional_fds)"

definition argv_payload_bytes :: "string \<Rightarrow> string list \<Rightarrow> nat" where
  "argv_payload_bytes command args =
     usize_saturating_add (usize_saturating_add (length command) 1)
       (sum_list (map (\<lambda>arg. usize_saturating_add (length arg) 1) args))"

definition env_entry_payload_bytes :: "string \<Rightarrow> string \<Rightarrow> nat" where
  "env_entry_payload_bytes key val =
     usize_saturating_add (usize_saturating_add (usize_saturating_add (length key) 1) (length val)) 1"

definition merged_env_payload_bytes :: "(string, string) btree \<Rightarrow> (string, string) btree \<Rightarrow> nat" where
  "merged_env_payload_bytes inherited_env overrides =
     foldl (\<lambda>total (key, val).
         let total = (case bt_get inherited_env key of
                        None \<Rightarrow> total
                      | Some previous \<Rightarrow> total - env_entry_payload_bytes key previous)
         in usize_saturating_add total (env_entry_payload_bytes key val))
       (sum_list (map (\<lambda>(key, val). env_entry_payload_bytes key val) (bt_entries inherited_env)))
       (bt_entries overrides)"

definition check_process_argv_bytes :: "resource_limits \<Rightarrow> string \<Rightarrow> string list \<Rightarrow> unit result" where
  "check_process_argv_bytes limits command args =
     limited (max_process_argv_bytes limits) (\<lambda>limit. argv_payload_bytes command args > limit)
       (\<lambda>limit. resource_invalid_input (''process argv payload '' @ show_nat (argv_payload_bytes command args) @
          '' bytes exceeds configured limit '' @ show_nat limit)) (Inr ())"

definition check_process_env_bytes ::
    "resource_limits \<Rightarrow> (string, string) btree \<Rightarrow> (string, string) btree \<Rightarrow> unit result" where
  "check_process_env_bytes limits inherited_env overrides =
     limited (max_process_env_bytes limits) (\<lambda>limit. merged_env_payload_bytes inherited_env overrides > limit)
       (\<lambda>limit. resource_invalid_input (''process environment payload '' @
          show_nat (merged_env_payload_bytes inherited_env overrides) @
          '' bytes exceeds configured limit '' @ show_nat limit)) (Inr ())"

definition check_pipe_allocation :: "resource_limits \<Rightarrow> resource_snapshot \<Rightarrow> unit result" where
  "check_pipe_allocation limits snapshot =
     limited (max_pipes limits) (\<lambda>limit. rs_pipes snapshot \<ge> limit)
       (\<lambda>_. resource_exhausted ''maximum pipe count reached'') (check_open_fds limits snapshot 2)"

definition check_pty_allocation :: "resource_limits \<Rightarrow> resource_snapshot \<Rightarrow> unit result" where
  "check_pty_allocation limits snapshot =
     limited (max_ptys limits) (\<lambda>limit. rs_ptys snapshot \<ge> limit)
       (\<lambda>_. resource_exhausted ''maximum PTY count reached'') (check_open_fds limits snapshot 2)"

definition check_socket_allocation :: "resource_limits \<Rightarrow> resource_snapshot \<Rightarrow> unit result" where
  "check_socket_allocation limits snapshot =
     limited (max_sockets limits) (\<lambda>limit. rs_sockets snapshot \<ge> limit)
       (\<lambda>_. resource_exhausted ''maximum socket count reached'') (Inr ())"

definition check_pread_length :: "resource_limits \<Rightarrow> nat \<Rightarrow> unit result" where
  "check_pread_length limits len =
     limited (max_pread_bytes limits) (\<lambda>limit. len > limit)
       (\<lambda>limit. resource_invalid_input (''pread length '' @ show_nat len @ '' exceeds configured limit '' @ show_nat limit))
       (Inr ())"

definition check_fd_write_size :: "resource_limits \<Rightarrow> nat \<Rightarrow> unit result" where
  "check_fd_write_size limits n =
     limited (max_fd_write_bytes limits) (\<lambda>limit. n > limit)
       (\<lambda>limit. resource_invalid_input (''write size '' @ show_nat n @ '' exceeds configured limit '' @ show_nat limit))
       (Inr ())"

definition check_fd_allocation :: "resource_limits \<Rightarrow> resource_snapshot \<Rightarrow> nat \<Rightarrow> unit result" where
  "check_fd_allocation limits snapshot additional_fds = check_open_fds limits snapshot additional_fds"

definition check_readdir_entries :: "resource_limits \<Rightarrow> nat \<Rightarrow> unit result" where
  "check_readdir_entries limits entries =
     limited (max_readdir_entries limits) (\<lambda>limit. entries > limit)
       (\<lambda>limit. resource_out_of_memory (''directory listing with '' @ show_nat entries @
          '' entries exceeds configured limit '' @ show_nat limit)) (Inr ())"

definition check_filesystem_usage :: "resource_limits \<Rightarrow> u64 \<Rightarrow> nat \<Rightarrow> unit result" where
  "check_filesystem_usage limits resulting_bytes resulting_inodes =
     limited (max_filesystem_bytes limits) (\<lambda>limit. resulting_bytes > limit)
       (\<lambda>_. filesystem_full ''maximum filesystem size limit reached'')
       (limited (max_inode_count limits) (\<lambda>limit. resulting_inodes > limit)
          (\<lambda>_. filesystem_full ''maximum inode count limit reached'') (Inr ()))"

subsection \<open>Measuring a file system\<close>

text \<open>
  The recursion follows the directories of an arbitrary file system, so it takes fuel: \<open>None\<close> says that
  the nesting is deeper than the fuel.
\<close>

type_synonym 'f measured = "(file_system_usage result \<times> inode_id bset \<times> 'f) option"

definition add_usage :: "file_system_usage \<Rightarrow> file_system_usage \<Rightarrow> file_system_usage" where
  "add_usage usage child = usage\<lparr>total_bytes := word_saturating_add (total_bytes usage) (total_bytes child),
     inode_count := usize_saturating_add (inode_count usage) (inode_count child)\<rparr>"

fun measure_entries ::
    "(string \<Rightarrow> inode_id bset \<Rightarrow> 'f \<Rightarrow> 'f measured) \<Rightarrow> string \<Rightarrow> virtual_dir_entry list \<Rightarrow> file_system_usage
      \<Rightarrow> inode_id bset \<Rightarrow> 'f \<Rightarrow> 'f measured" where
  "measure_entries measure_child path [] usage visited s = Some (Inr usage, visited, s)"
| "measure_entries measure_child path (entry # entries) usage visited s =
     (if de_name entry = ''.'' \<or> de_name entry = ''..'' then measure_entries measure_child path entries usage visited s
      else case measure_child (child_path path (de_name entry)) visited s of
             None \<Rightarrow> None
           | Some (Inl e, visited1, s1) \<Rightarrow> Some (Inl e, visited1, s1)
           | Some (Inr child_usage, visited1, s1) \<Rightarrow>
               measure_entries measure_child path entries (add_usage usage child_usage) visited1 s1)"

primrec measure_path_usage :: "nat \<Rightarrow> 'f vfs \<Rightarrow> clock \<Rightarrow> string \<Rightarrow> inode_id bset \<Rightarrow> 'f \<Rightarrow> 'f measured" where
  "measure_path_usage 0 v now path visited s = None"
| "measure_path_usage (Suc n) v now path visited s =
     (case vfs_lstat v path s of
        Inl e \<Rightarrow> Some (Inl e, visited, s)
      | Inr stat \<Rightarrow>
          let usage = (if bs_member visited (st_ino stat) then \<lparr>total_bytes = 0, inode_count = 0\<rparr>
                       else \<lparr>total_bytes = (if st_is_directory stat then 0 else st_size stat), inode_count = 1\<rparr>);
              visited1 = bs_insert (st_ino stat) visited
          in if \<not> st_is_directory stat \<or> st_is_symbolic_link stat then Some (Inr usage, visited1, s)
             else case vfs_read_dir_with_types v now path s of
                    (Inl e, s1) \<Rightarrow> Some (Inl e, visited1, s1)
                  | (Inr entries, s1) \<Rightarrow> measure_entries (measure_path_usage n v now) path entries usage visited1 s1)"

definition measure_filesystem_usage :: "nat \<Rightarrow> 'f vfs \<Rightarrow> clock \<Rightarrow> 'f \<Rightarrow> (file_system_usage result \<times> 'f) option" where
  "measure_filesystem_usage n v now s =
     map_option (\<lambda>(r, _, s1). (r, s1)) (measure_path_usage n v now ''/'' bs_empty s)"

subsection \<open>The walk ends\<close>

text \<open>
  A file system whose paths have bounded length: it examines only paths within the bound, and the names
  it lists are names.
\<close>

locale bounded_fs =
  fixes v :: "'f vfs"
    and bound :: nat
  assumes lstat_bounded: "vfs_lstat v path s = Inr st \<Longrightarrow> length (normalize_path path) \<le> bound"
    and listed_names: "vfs_read_dir_with_types v now path s = (Inr entries, s') \<Longrightarrow> e \<in> set entries \<Longrightarrow>
      de_name e \<noteq> [] \<and> CHR ''/'' \<notin> set (de_name e)"
begin

lemma measure_entries_total:
  assumes "\<And>name visited s. proper_name name \<Longrightarrow> measure_child (child_path path name) visited s \<noteq> None"
    "\<forall>e \<in> set entries. de_name e \<noteq> [] \<and> CHR ''/'' \<notin> set (de_name e)"
  shows "measure_entries measure_child path entries usage visited s \<noteq> None"
  using assms(2)
proof (induction entries arbitrary: usage visited s)
  case (Cons e entries)
  show ?case
  proof (cases "proper_name (de_name e)")
    case True
    then show ?thesis using assms(1) [OF True, of visited s] Cons by (auto simp: proper_name_def split: option.splits sum.splits)
  next
    case False
    then show ?thesis using Cons by (auto simp: proper_name_def)
  qed
qed simp

lemma measure_total:
  "\<forall>n \<in> set ns. proper_name n \<Longrightarrow> Suc bound - length (render ns) < fuel \<Longrightarrow>
     measure_path_usage fuel v now (render ns) visited s \<noteq> None"
proof (induction fuel arbitrary: ns visited s)
  case (Suc fuel)
  show ?case
  proof (cases "vfs_lstat v (render ns) s")
    case (Inr st)
    then have len: "length (render ns) \<le> bound" using lstat_bounded [OF Inr] Suc.prems(1) by (simp add: normalize_render)
    have "measure_path_usage fuel v now (child_path (render ns) name) visited' s'' \<noteq> None" if name: "proper_name name" for name visited' s''
    proof -
      have nil: "[] \<notin> set ns" using Suc.prems(1) by (auto simp: proper_name_def)
      have "length (render ns) < length (render (ns @ [name]))"
        using name by (cases "ns = []") (simp_all add: render_def proper_name_def)
      then show ?thesis
        using Suc.IH [of "ns @ [name]"] Suc.prems len name child_path_render [OF nil, of name] by simp
    qed
    then have "measure_entries (measure_path_usage fuel v now) (render ns) entries usage visited' s1 \<noteq> None"
      if "vfs_read_dir_with_types v now (render ns) s = (Inr entries, s1)" for entries usage visited' s1
      using measure_entries_total [of "measure_path_usage fuel v now" "render ns" entries] listed_names [OF that] by blast
    then show ?thesis using Inr by (auto simp: Let_def split: prod.splits sum.splits)
  qed simp
qed simp

lemma measure_filesystem_total: "bound < fuel \<Longrightarrow> measure_filesystem_usage fuel v now s \<noteq> None"
  using measure_total [of "[]" fuel now bs_empty s] by (simp add: measure_filesystem_usage_def render_def)

end

definition listing_ok :: "(string, virtual_dir_entry) btree \<Rightarrow> bool" where
  "listing_ok m \<longleftrightarrow> (\<forall>k e. bt_get m k = Some e \<longrightarrow> de_name e \<noteq> [] \<and> CHR ''/'' \<notin> set (de_name e))"

lemma listing_ok_insert: "listing_ok m \<Longrightarrow> de_name e \<noteq> [] \<Longrightarrow> CHR ''/'' \<notin> set (de_name e) \<Longrightarrow> listing_ok (bt_insert k e m)"
  by (simp add: listing_ok_def)

lemma collect_dir_entries_listed:
  "collect_dir_entries fs prefix es acc = Inr m \<Longrightarrow> listing_ok acc \<Longrightarrow> listing_ok m"
proof (induction fs prefix es acc rule: collect_dir_entries.induct)
  case (2 fs prefix path ino rest entries)
  let ?n = "drop (length prefix) path"
  show ?case
  proof (cases "?n = [] \<or> CHR ''/'' \<in> set ?n")
    case True
    then show ?thesis using "2.IH"(1) [OF refl True] "2.prems" by (simp add: Let_def)
  next
    case False
    then obtain i where i: "bt_get (inodes fs) ino = Some i" using "2.prems"(1) by (auto simp: Let_def split: option.splits)
    show ?thesis
      by (rule "2.IH"(2) [OF refl False i])
        (use "2.prems" False i in \<open>simp_all add: Let_def listing_ok_insert\<close>)
  qed
qed simp

lemma inode_for_existing_path_length:
  assumes "inode_for_existing_path fs p op f = Inr x"
  shows "length (normalize_path p) \<le> MAX_PATH_LENGTH"
proof -
  obtain q where "resolve_path_with_options fs (normalize_path p) f 0 = Inr q"
    using assms by (auto simp: inode_for_existing_path_def inode_id_for_existing_path_def resolve_path_def
        resolve_exact_path_def Let_def split: sum.splits if_splits)
  then have "validate_path (normalize_path p) = Inr ()"
    by (auto simp: resolve_path_with_options.simps [of fs "normalize_path p"] split: sum.splits)
  then show ?thesis
    by (auto simp: validate_path_def normalize_path_render normalize_render normal_names_render normal_names_proper
        split: if_splits option.splits)
qed

interpretation bounded_memory: bounded_fs memory_vfs MAX_PATH_LENGTH
proof unfold_locales
  fix path s st assume "vfs_lstat memory_vfs path s = Inr st"
  then obtain x where "inode_for_existing_path s path ''lstat'' False = Inr x"
    by (cases "inode_for_existing_path s path ''lstat'' False") (auto simp: memory_vfs_def fs_lstat_def)
  then show "length (normalize_path path) \<le> MAX_PATH_LENGTH" by (rule inode_for_existing_path_length)
next
  fix now path s entries s' e
  assume rd: "vfs_read_dir_with_types memory_vfs now path s = (Inr entries, s')" and e: "e \<in> set entries"
  obtain r fs1 where o': "open_directory (now_ms now) path s = (r, fs1)" by (cases "open_directory (now_ms now) path s")
  then obtain q where q: "r = Inr q" using rd by (cases r) (auto simp: memory_vfs_def fs_read_dir_with_types_def)
  let ?c = "collect_dir_entries fs1 (dir_prefix q) (entries_below fs1 (dir_prefix q)) bt_empty"
  obtain m where m: "?c = Inr m" "entries = bt_values m"
    using rd o' q by (cases ?c) (simp_all add: memory_vfs_def fs_read_dir_with_types_def Let_def)
  have "listing_ok m" using collect_dir_entries_listed [OF m(1)] by (simp add: listing_ok_def)
  then show "de_name e \<noteq> [] \<and> CHR ''/'' \<notin> set (de_name e)"
    using e in_bt_values_iff [of e m] unfolding listing_ok_def m(2) by blast
qed

text \<open>
  C37. Measuring the in-memory file system always ends: with as much fuel as a path may have
  characters the walk returns, because each directory it enters makes the path longer and longer
  paths are refused.
\<close>

theorem measure_usage_terminates:
  assumes "MAX_PATH_LENGTH < fuel"
  shows "\<exists>r fs'. measure_filesystem_usage fuel memory_vfs now fs = Some (r, fs')"
  using bounded_memory.measure_filesystem_total [OF assms, of now fs] by auto

theorem measure_usage_terminates_witness:
  "\<exists>r fs'. measure_filesystem_usage (Suc MAX_PATH_LENGTH) memory_vfs
     \<lparr>now_ms = 0, now_time_spec = \<lparr>ts_sec = 0, ts_nsec = 0\<rparr>\<rparr> (memory_fs_new 0) = Some (r, fs')"
  by (rule measure_usage_terminates) simp

subsection \<open>The size of an environment\<close>

definition env_payload :: "(string, string) btree \<Rightarrow> nat" where
  "env_payload env = sum_list (map (\<lambda>(key, val). length key + length val + 2) (bt_entries env))"

definition env_extend :: "(string, string) btree \<Rightarrow> (string, string) btree \<Rightarrow> (string, string) btree" where
  "env_extend env overrides = fold (\<lambda>(key, val). bt_insert key val) (bt_entries overrides) env"

lemma env_payload_sum: "env_payload env = (\<Sum>k \<in> dom (bt_get env). length k + length (the (bt_get env k)) + 2)"
proof -
  have d: "distinct (map fst (bt_entries env))" by (simp add: ordered_distinct)
  then have "env_payload env = (\<Sum>e \<in> set (bt_entries env). length (fst e) + length (snd e) + 2)"
    by (simp add: env_payload_def sum_list_distinct_conv_sum_set distinct_map case_prod_beta)
  also have "\<dots> = (\<Sum>k \<in> fst ` set (bt_entries env). length k + length (the (bt_get env k)) + 2)"
    using d by (subst sum.reindex) (auto simp: distinct_map bt_get_entries intro!: sum.cong)
  finally show ?thesis by (simp add: bt_get_entries dom_map_of_conv_image_fst)
qed

lemma env_payload_insert:
  "env_payload (bt_insert k val env) =
     (case bt_get env k of None \<Rightarrow> env_payload env | Some old \<Rightarrow> env_payload env - (length k + length old + 2)) +
     (length k + length val + 2)"
proof -
  let ?s = "\<lambda>env k. length k + length (the (bt_get env k)) + 2"
  have dom: "dom (bt_get (bt_insert k val env)) = insert k (dom (bt_get env) - {k})" by auto
  have rest: "sum (?s (bt_insert k val env)) (dom (bt_get env) - {k}) = sum (?s env) (dom (bt_get env) - {k})"
    by (rule sum.cong) auto
  have "env_payload (bt_insert k val env) = (length k + length val + 2) + sum (?s env) (dom (bt_get env) - {k})"
    unfolding env_payload_sum dom by (subst sum.insert) (simp_all add: rest)
  moreover have "sum (?s env) (dom (bt_get env) - {k}) =
      (case bt_get env k of None \<Rightarrow> env_payload env | Some old \<Rightarrow> env_payload env - (length k + length old + 2))"
  proof (cases "bt_get env k")
    case None
    then have "dom (bt_get env) - {k} = dom (bt_get env)" by auto
    then show ?thesis using None by (simp add: env_payload_sum)
  next
    case (Some old)
    then have "k \<in> dom (bt_get env)" by auto
    then show ?thesis using Some by (simp add: env_payload_sum sum_diff1_nat)
  qed
  ultimately show ?thesis by simp
qed

lemma env_payload_insert_le: "env_payload (bt_insert k val env) \<le> env_payload env + (length k + length val + 2)"
  unfolding env_payload_insert by (simp split: option.splits)

definition merge_step :: "(string, string) btree \<Rightarrow> nat \<Rightarrow> string \<times> string \<Rightarrow> nat" where
  "merge_step inherited acc = (\<lambda>(key, val).
     usize_saturating_add (case bt_get inherited key of None \<Rightarrow> acc | Some previous \<Rightarrow> acc - env_entry_payload_bytes key previous)
       (env_entry_payload_bytes key val))"

lemma env_entry_exact: "length key + length val + 2 \<le> usize_max \<Longrightarrow> env_entry_payload_bytes key val = length key + length val + 2"
  by (simp add: env_entry_payload_bytes_def usize_saturating_add_def)

lemma env_entry_le_payload: "bt_get env k = Some val \<Longrightarrow> length k + length val + 2 \<le> env_payload env"
  unfolding env_payload_sum using member_le_sum [of k "dom (bt_get env)" "\<lambda>k. length k + length (the (bt_get env k)) + 2"] by auto

lemma merge_payload:
  assumes "distinct (map fst xs)" "\<forall>k \<in> fst ` set xs. bt_get env k = bt_get inherited k"
    "env_payload env + sum_list (map (\<lambda>(k, val). length k + length val + 2) xs) \<le> usize_max"
  shows "foldl (merge_step inherited) (env_payload env) xs = env_payload (fold (\<lambda>(k, val). bt_insert k val) xs env)"
  using assms
proof (induction xs arbitrary: env)
  case (Cons x xs)
  obtain k val where x: "x = (k, val)" by (cases x)
  have small: "env_entry_payload_bytes k val = length k + length val + 2"
    using Cons.prems(3) x by (intro env_entry_exact) simp
  have old: "env_entry_payload_bytes k old = length k + length old + 2" if "bt_get env k = Some old" for old
    using env_entry_le_payload [OF that] Cons.prems(3) by (intro env_entry_exact) simp
  have "merge_step inherited (env_payload env) x = env_payload (bt_insert k val env)"
    using Cons.prems(2,3) x small old env_payload_insert_le [of k val env]
    by (auto simp: merge_step_def env_payload_insert usize_saturating_add_def split: option.splits)
  moreover have "foldl (merge_step inherited) (env_payload (bt_insert k val env)) xs =
      env_payload (fold (\<lambda>(k, val). bt_insert k val) xs (bt_insert k val env))"
    using Cons.prems x env_payload_insert_le [of k val env] by (intro Cons.IH) auto
  ultimately show ?case using x by simp
qed simp

text \<open>
  C38. The size the kernel charges for an environment, computed from the inherited variables and the
  overrides without building the merged environment, is the size of the merged environment: two bytes
  and the lengths of the key and the value for each variable.
\<close>

theorem merged_env_payload_exact:
  assumes "env_payload inherited + env_payload overrides \<le> usize_max"
  shows "merged_env_payload_bytes inherited overrides = env_payload (env_extend inherited overrides)"
proof -
  have "env_entry_payload_bytes k val = length k + length val + 2" if "(k, val) \<in> set (bt_entries inherited)" for k val
    using that env_entry_le_payload [of inherited k val] assms by (intro env_entry_exact) (simp add: in_bt_entries_iff)
  then have "map (\<lambda>(k, val). env_entry_payload_bytes k val) (bt_entries inherited) =
      map (\<lambda>(k, val). length k + length val + 2) (bt_entries inherited)" by (intro map_cong) auto
  then have "merged_env_payload_bytes inherited overrides =
      foldl (merge_step inherited) (env_payload inherited) (bt_entries overrides)"
    unfolding merged_env_payload_bytes_def env_payload_def merge_step_def Let_def by (simp only:)
  also have "\<dots> = env_payload (env_extend inherited overrides)"
    unfolding env_extend_def using assms by (intro merge_payload) (simp_all add: ordered_distinct env_payload_def)
  finally show ?thesis .
qed

theorem merged_env_payload_exact_witness:
  "merged_env_payload_bytes (bt_insert ''A'' ''1'' (bt_insert ''B'' ''22'' bt_empty)) (bt_insert ''A'' ''333'' bt_empty) = 11"
proof -
  let ?i = "bt_insert ''A'' ''1'' (bt_insert ''B'' ''22'' bt_empty)" and ?o = "bt_insert ''A'' ''333'' bt_empty"
  have "env_payload ?i + env_payload ?o \<le> usize_max" by (simp add: env_payload_def usize_max_def)
  moreover have "env_payload (env_extend ?i ?o) = 11" by (simp add: env_payload_def env_extend_def)
  ultimately show ?thesis using merged_env_payload_exact [of ?i ?o] by simp
qed

end
