(* ===== verification/Command_Registry.thy ===== *)
theory Command_Registry
  imports Vfs_Ops
begin

text \<open>
  The command registry (\<^verbatim>\<open>command_registry.rs\<close>): which driver runs a command name, the warnings about
  names that are registered twice, and the stub files below \<^verbatim>\<open>/bin\<close>.
\<close>

definition bytes_of_string :: "string \<Rightarrow> bytes" where
  "bytes_of_string s = map of_char s"

definition COMMAND_STUB :: bytes where
  "COMMAND_STUB = bytes_of_string (''#!/bin/sh'' @ [CHR 0x0A] @ ''# kernel command stub'' @ [CHR 0x0A])"

record command_driver =
  driver_name :: string
  driver_commands :: "string list"

record command_registry =
  registry_commands :: "(string, command_driver) btree"
  registry_warnings :: "string list"

definition registry_new :: command_registry where
  "registry_new = \<lparr>registry_commands = bt_empty, registry_warnings = []\<rparr>"

definition register_command :: "command_driver \<Rightarrow> string \<Rightarrow> command_registry \<Rightarrow> command_registry" where
  "register_command driver command r =
     (let r1 = (case bt_get (registry_commands r) command of
                  None \<Rightarrow> r
                | Some existing \<Rightarrow>
                    r\<lparr>registry_warnings := registry_warnings r @
                        [''command '' @ [CHR 0x22] @ command @ [CHR 0x22] @ '' overridden: '' @ driver_name existing @
                         '' -> '' @ driver_name driver]\<rparr>)
      in r1\<lparr>registry_commands := bt_insert command driver (registry_commands r1)\<rparr>)"

definition register :: "command_driver \<Rightarrow> command_registry \<Rightarrow> command_registry" where
  "register driver r = fold (register_command driver) (driver_commands driver) r"

definition registry_resolve :: "command_registry \<Rightarrow> string \<Rightarrow> command_driver option" where
  "registry_resolve r command = bt_get (registry_commands r) command"

definition registry_list :: "command_registry \<Rightarrow> (string, string) btree" where
  "registry_list r = bt_mapv (\<lambda>_. driver_name) (registry_commands r)"

text \<open>The result of \<^verbatim>\<open>chmod\<close> is ignored.\<close>

fun populate_stubs :: "'f vfs \<Rightarrow> clock \<Rightarrow> string list \<Rightarrow> (unit, 'f) vfs_method" where
  "populate_stubs v now [] s = (Inr (), s)"
| "populate_stubs v now (command # commands) s =
     (let path = ''/bin/'' @ command
      in if vfs_exists v path s then populate_stubs v now commands s
         else case vfs_write_file v now path COMMAND_STUB s of
                (Inl e, s1) \<Rightarrow> (Inl e, s1)
              | (Inr _, s1) \<Rightarrow> populate_stubs v now commands (snd (vfs_chmod v now path 0x1ED s1)))"

definition populate_commands :: "'f vfs \<Rightarrow> clock \<Rightarrow> string list \<Rightarrow> (unit, 'f) vfs_method" where
  "populate_commands v now commands s =
     (case (if vfs_exists v ''/bin'' s then (Inr (), s) else vfs_mkdir v now ''/bin'' True s) of
        (Inl e, s1) \<Rightarrow> (Inl e, s1)
      | (Inr _, s1) \<Rightarrow> populate_stubs v now commands s1)"

definition populate_bin :: "'f vfs \<Rightarrow> clock \<Rightarrow> command_registry \<Rightarrow> (unit, 'f) vfs_method" where
  "populate_bin v now r = populate_commands v now (bt_keys (registry_commands r))"

definition populate_driver_bin :: "'f vfs \<Rightarrow> clock \<Rightarrow> command_driver \<Rightarrow> (unit, 'f) vfs_method" where
  "populate_driver_bin v now driver = populate_commands v now (driver_commands driver)"

subsection \<open>The last driver wins\<close>

lemma resolve_register_command:
  "registry_resolve (register_command d c r) = (registry_resolve r)(c \<mapsto> d)"
  by (auto simp: fun_eq_iff registry_resolve_def register_command_def Let_def split: option.splits)

lemma resolve_register:
  "registry_resolve (register d r) c = (if c \<in> set (driver_commands d) then Some d else registry_resolve r c)"
proof -
  have "registry_resolve (fold (register_command d) cs r) c = (if c \<in> set cs then Some d else registry_resolve r c)" for cs
    by (induction cs arbitrary: r) (auto simp: resolve_register_command)
  then show ?thesis by (simp add: register_def)
qed

lemma registry_list_get: "bt_get (registry_list r) c = map_option driver_name (registry_resolve r c)"
  by (simp add: registry_list_def registry_resolve_def)

text \<open>
  After any sequence of registrations a name resolves to the last driver that lists it.
\<close>

lemma resolve_last_registered:
  "registry_resolve (fold register ds registry_new) c = find (\<lambda>d. c \<in> set (driver_commands d)) (rev ds)"
proof (induction ds rule: rev_induct)
  case Nil
  then show ?case by (simp add: registry_new_def registry_resolve_def)
qed (simp add: resolve_register)

text \<open>A warning is issued for each name that already has a driver, and for no other.\<close>

lemma warnings_register_command:
  "length (registry_warnings (register_command d c r)) =
     length (registry_warnings r) + (if registry_resolve r c = None then 0 else 1)"
  by (auto simp: register_command_def registry_resolve_def Let_def split: option.splits)

end
