(* ===== verification/Socket_Table.thy ===== *)
theory Socket_Table
  imports BTree_Map Poll Vfs_Path "HOL-Library.Product_Lexorder" "HOL-Library.Option_ord"
begin

text \<open>
  The socket table (\<^verbatim>\<open>socket_table.rs\<close>): socket records with their listener, connection and datagram
  states, the indexes by owner and by bound address, and every operation of \<^verbatim>\<open>SocketTable\<close>. All
  operations run under one lock, so each is a function on the table.
\<close>

type_synonym socket_id = u64

subsection \<open>Addresses\<close>

datatype inet_socket_address = InetSocketAddress (inet_host: string) (inet_port: u16)

datatype socket_multicast_membership =
  SocketMulticastMembership (group_address: string) (interface_address: "string option")

text \<open>The derived orders: field by field.\<close>

instantiation inet_socket_address :: linorder
begin

definition less_eq_inet_socket_address :: "inet_socket_address \<Rightarrow> inet_socket_address \<Rightarrow> bool" where
  "less_eq_inet_socket_address a b \<longleftrightarrow> (inet_host a, inet_port a) \<le> (inet_host b, inet_port b)"

definition less_inet_socket_address :: "inet_socket_address \<Rightarrow> inet_socket_address \<Rightarrow> bool" where
  "less_inet_socket_address a b \<longleftrightarrow> (inet_host a, inet_port a) < (inet_host b, inet_port b)"

instance
proof
  fix a b c :: inet_socket_address
  show "(a < b) = (a \<le> b \<and> \<not> b \<le> a)" by (simp add: less_inet_socket_address_def less_eq_inet_socket_address_def less_le_not_le)
  show "a \<le> a" by (simp add: less_eq_inet_socket_address_def)
  show "a \<le> c" if "a \<le> b" "b \<le> c"
    using that unfolding less_eq_inet_socket_address_def by (rule order_trans)
  show "a = b" if "a \<le> b" "b \<le> a"
    using antisym [OF that [unfolded less_eq_inet_socket_address_def]] by (simp add: inet_socket_address.expand)
  show "a \<le> b \<or> b \<le> a" unfolding less_eq_inet_socket_address_def by (rule linear)
qed

end

instantiation socket_multicast_membership :: linorder
begin

definition less_eq_socket_multicast_membership :: "socket_multicast_membership \<Rightarrow> socket_multicast_membership \<Rightarrow> bool" where
  "less_eq_socket_multicast_membership a b \<longleftrightarrow> (group_address a, interface_address a) \<le> (group_address b, interface_address b)"

definition less_socket_multicast_membership :: "socket_multicast_membership \<Rightarrow> socket_multicast_membership \<Rightarrow> bool" where
  "less_socket_multicast_membership a b \<longleftrightarrow> (group_address a, interface_address a) < (group_address b, interface_address b)"

instance
proof
  fix a b c :: socket_multicast_membership
  show "(a < b) = (a \<le> b \<and> \<not> b \<le> a)"
    by (simp add: less_socket_multicast_membership_def less_eq_socket_multicast_membership_def less_le_not_le)
  show "a \<le> a" by (simp add: less_eq_socket_multicast_membership_def)
  show "a \<le> c" if "a \<le> b" "b \<le> c"
    using that unfolding less_eq_socket_multicast_membership_def by (rule order_trans)
  show "a = b" if "a \<le> b" "b \<le> a"
    using antisym [OF that [unfolded less_eq_socket_multicast_membership_def]] by (simp add: socket_multicast_membership.expand)
  show "a \<le> b \<or> b \<le> a" unfolding less_eq_socket_multicast_membership_def by (rule linear)
qed

end

definition to_ascii_lowercase :: "string \<Rightarrow> string" where
  "to_ascii_lowercase s =
     map (\<lambda>c. if 65 \<le> (of_char c :: nat) \<and> (of_char c :: nat) \<le> 90 then char_of ((of_char c :: nat) + 32) else c) s"

definition normalize_inet_address :: "inet_socket_address \<Rightarrow> inet_socket_address" where
  "normalize_inet_address address =
     (if to_ascii_lowercase (inet_host address) = ''localhost''
      then InetSocketAddress ''127.0.0.1'' (inet_port address) else address)"

definition wildcard_inet_address :: "inet_socket_address \<Rightarrow> inet_socket_address option" where
  "wildcard_inet_address address =
     (if inet_host address = ''127.0.0.1'' then Some (InetSocketAddress ''0.0.0.0'' (inet_port address))
      else if inet_host address = ''::1'' then Some (InetSocketAddress ''::'' (inet_port address))
      else None)"

subsection \<open>Records\<close>

datatype socket_domain = Inet | Inet6 | Unix
datatype socket_type = Stream | Datagram
datatype socket_state = Created | Bound | Listening | Connected
datatype socket_shutdown = ShutRead | ShutWrite | ShutBoth
datatype datagram_socket_option = ReuseAddr | ReusePort | Broadcast

definition counts_as_listener :: "socket_state \<Rightarrow> bool" where
  "counts_as_listener s \<longleftrightarrow> s = Listening"

definition counts_as_connection :: "socket_state \<Rightarrow> bool" where
  "counts_as_connection s \<longleftrightarrow> s = Connected"

record socket_spec =
  spec_domain :: socket_domain
  spec_type :: socket_type

record pending_connection =
  pc_peer_address :: "inet_socket_address option"
  pc_peer_unix_path :: "string option"
  pc_accepted_socket_id :: "socket_id option"

record listener_state =
  ls_backlog :: nat
  ls_pending_accepts :: "pending_connection list"

record connection_state =
  cs_peer_socket_id :: "socket_id option"
  cs_recv_buffer :: bytes
  cs_read_shutdown :: bool
  cs_write_shutdown :: bool
  cs_peer_write_shutdown :: bool

record queued_datagram =
  qd_source_address :: "inet_socket_address option"
  qd_payload :: bytes

record datagram_state =
  ds_recv_queue :: "queued_datagram list"
  ds_reuse_addr :: bool
  ds_reuse_port :: bool
  ds_broadcast :: bool
  ds_multicast_memberships :: "socket_multicast_membership bset"

record socket_record =
  so_id :: socket_id
  so_owner_pid :: u32
  so_spec :: socket_spec
  so_state :: socket_state
  so_local_address :: "inet_socket_address option"
  so_peer_address :: "inet_socket_address option"
  so_local_unix_path :: "string option"
  so_peer_unix_path :: "string option"
  so_listener_state :: "listener_state option"
  so_connection_state :: "connection_state option"
  so_datagram_state :: "datagram_state option"

record socket_table =
  st_sockets :: "(socket_id, socket_record) btree"
  st_by_owner :: "(u32, socket_id bset) btree"
  st_bound_inet_streams :: "(inet_socket_address, socket_id) btree"
  st_bound_inet_datagrams :: "(inet_socket_address, socket_id bset) btree"
  st_bound_unix_streams :: "(string, socket_id) btree"
  st_multicast_groups :: "(socket_multicast_membership, socket_id bset) btree"
  st_next_socket_id :: socket_id

record socket_table_snapshot =
  sns_sockets :: nat
  sns_listeners :: nat
  sns_connections :: nat

definition socket_table_new :: socket_table where
  "socket_table_new = \<lparr>st_sockets = bt_empty, st_by_owner = bt_empty, st_bound_inet_streams = bt_empty,
     st_bound_inet_datagrams = bt_empty, st_bound_unix_streams = bt_empty, st_multicast_groups = bt_empty,
     st_next_socket_id = 0\<rparr>"

subsection \<open>Errors\<close>

definition socket_not_found :: "socket_id \<Rightarrow> sys_error" where
  "socket_not_found i = SysError ENOENT (''no such socket '' @ show_word i)"

definition socket_invalid_argument :: "string \<Rightarrow> sys_error" where
  "socket_invalid_argument msg = SysError EINVAL msg"

definition address_in_use :: "string \<Rightarrow> sys_error" where
  "address_in_use msg = SysError EADDRINUSE msg"

definition address_not_available :: "string \<Rightarrow> sys_error" where
  "address_not_available msg = SysError EADDRNOTAVAIL msg"

definition not_found_address :: "string \<Rightarrow> sys_error" where
  "not_found_address msg = SysError ECONNREFUSED msg"

definition socket_would_block :: "string \<Rightarrow> sys_error" where
  "socket_would_block msg = SysError EAGAIN msg"

definition socket_not_connected :: "string \<Rightarrow> sys_error" where
  "socket_not_connected msg = SysError ENOTCONN msg"

definition socket_broken_pipe :: "string \<Rightarrow> sys_error" where
  "socket_broken_pipe msg = SysError EPIPE msg"

definition about_socket :: "socket_id \<Rightarrow> string \<Rightarrow> string" where
  "about_socket i msg = ''socket '' @ show_word i @ '' '' @ msg"

fun show_socket_state :: "socket_state \<Rightarrow> string" where
  "show_socket_state Created = ''Created''"
| "show_socket_state Bound = ''Bound''"
| "show_socket_state Listening = ''Listening''"
| "show_socket_state Connected = ''Connected''"

definition show_inet :: "inet_socket_address \<Rightarrow> string" where
  "show_inet a = inet_host a @ '':'' @ show_word (inet_port a)"

subsection \<open>What a socket supports\<close>

definition supports_connection_lifecycle :: "socket_spec \<Rightarrow> bool" where
  "supports_connection_lifecycle spec \<longleftrightarrow> spec_type spec = Stream"

definition supports_listener_lifecycle :: "socket_spec \<Rightarrow> bool" where
  "supports_listener_lifecycle spec \<longleftrightarrow> spec_type spec = Stream \<and> spec_domain spec \<in> {Inet, Inet6, Unix}"

definition supports_inet_bind :: "socket_spec \<Rightarrow> bool" where
  "supports_inet_bind spec \<longleftrightarrow> spec_domain spec \<in> {Inet, Inet6} \<and> spec_type spec \<in> {Stream, Datagram}"

definition supports_unix_stream_lifecycle :: "socket_spec \<Rightarrow> bool" where
  "supports_unix_stream_lifecycle spec \<longleftrightarrow> spec_type spec = Stream \<and> spec_domain spec = Unix"

definition supports_inet_stream_lifecycle :: "socket_spec \<Rightarrow> bool" where
  "supports_inet_stream_lifecycle spec \<longleftrightarrow> spec_type spec = Stream \<and> spec_domain spec \<in> {Inet, Inet6}"

definition supports_inet_datagram_lifecycle :: "socket_spec \<Rightarrow> bool" where
  "supports_inet_datagram_lifecycle spec \<longleftrightarrow> spec_type spec = Datagram \<and> spec_domain spec \<in> {Inet, Inet6}"

definition connection_default :: connection_state where
  "connection_default = \<lparr>cs_peer_socket_id = None, cs_recv_buffer = [], cs_read_shutdown = False,
     cs_write_shutdown = False, cs_peer_write_shutdown = False\<rparr>"

definition connection_to :: "socket_id \<Rightarrow> connection_state" where
  "connection_to peer = connection_default\<lparr>cs_peer_socket_id := Some peer\<rparr>"

definition datagram_default :: datagram_state where
  "datagram_default = \<lparr>ds_recv_queue = [], ds_reuse_addr = False, ds_reuse_port = False, ds_broadcast = False,
     ds_multicast_memberships = bs_empty\<rparr>"

definition default_connection_state :: "socket_spec \<Rightarrow> socket_state \<Rightarrow> connection_state option" where
  "default_connection_state spec state =
     (if state = Connected \<and> supports_connection_lifecycle spec then Some connection_default else None)"

definition default_datagram_state :: "socket_spec \<Rightarrow> datagram_state option" where
  "default_datagram_state spec = (if supports_inet_datagram_lifecycle spec then Some datagram_default else None)"

definition pending_accept_count :: "socket_record \<Rightarrow> nat" where
  "pending_accept_count r = (case so_listener_state r of None \<Rightarrow> 0 | Some ls \<Rightarrow> length (ls_pending_accepts ls))"

definition reuse_address :: "socket_record \<Rightarrow> bool" where
  "reuse_address r = (case so_datagram_state r of None \<Rightarrow> False | Some ds \<Rightarrow> ds_reuse_addr ds)"

definition reuse_port :: "socket_record \<Rightarrow> bool" where
  "reuse_port r = (case so_datagram_state r of None \<Rightarrow> False | Some ds \<Rightarrow> ds_reuse_port ds)"

definition has_bound_endpoint :: "socket_record \<Rightarrow> bool" where
  "has_bound_endpoint r \<longleftrightarrow> so_local_address r \<noteq> None \<or> so_local_unix_path r \<noteq> None"

subsection \<open>Allocating\<close>

definition put_socket :: "socket_record \<Rightarrow> socket_table \<Rightarrow> socket_table" where
  "put_socket r t = t\<lparr>st_sockets := bt_insert (so_id r) r (st_sockets t)\<rparr>"

definition next_socket_id :: "socket_table \<Rightarrow> socket_id \<times> socket_table" where
  "next_socket_id t =
     (let socket_id = (if st_next_socket_id t = 0 then 1 else st_next_socket_id t)
      in (socket_id, t\<lparr>st_next_socket_id := word_saturating_add socket_id 1\<rparr>))"

text \<open>\<^verbatim>\<open>entry(key).or_default().insert(id)\<close> on a map of sets, and its inverse.\<close>

definition index_insert :: "'k::linorder \<Rightarrow> socket_id \<Rightarrow> ('k, socket_id bset) btree \<Rightarrow> ('k, socket_id bset) btree" where
  "index_insert k i m = bt_insert k (bs_insert i (unwrap_or (bt_get m k) bs_empty)) m"

definition index_remove :: "'k::linorder \<Rightarrow> socket_id \<Rightarrow> ('k, socket_id bset) btree \<Rightarrow> ('k, socket_id bset) btree" where
  "index_remove k i m =
     (case bt_get m k of
        None \<Rightarrow> m
      | Some ids \<Rightarrow>
          let ids1 = bs_remove i ids in if bt_is_empty ids1 then bt_remove k m else bt_insert k ids1 m)"

definition own_socket :: "u32 \<Rightarrow> socket_id \<Rightarrow> socket_table \<Rightarrow> socket_table" where
  "own_socket pid i t = t\<lparr>st_by_owner := index_insert pid i (st_by_owner t)\<rparr>"

definition socket_allocate_with_state ::
    "u32 \<Rightarrow> socket_spec \<Rightarrow> socket_state \<Rightarrow> socket_table \<Rightarrow> socket_record \<times> socket_table" where
  "socket_allocate_with_state owner_pid spec state t =
     (let (i, t1) = next_socket_id t;
          r = \<lparr>so_id = i, so_owner_pid = owner_pid, so_spec = spec, so_state = state, so_local_address = None,
               so_peer_address = None, so_local_unix_path = None, so_peer_unix_path = None, so_listener_state = None,
               so_connection_state = default_connection_state spec state,
               so_datagram_state = default_datagram_state spec\<rparr>
      in (r, own_socket owner_pid i (put_socket r t1)))"

definition socket_allocate :: "u32 \<Rightarrow> socket_spec \<Rightarrow> socket_table \<Rightarrow> socket_record \<times> socket_table" where
  "socket_allocate owner_pid spec t = socket_allocate_with_state owner_pid spec Created t"

definition socket_get :: "socket_id \<Rightarrow> socket_table \<Rightarrow> socket_record option" where
  "socket_get i t = bt_get (st_sockets t) i"

definition validate_state_transition :: "socket_state \<Rightarrow> socket_state \<Rightarrow> unit result" where
  "validate_state_transition current new =
     (if current = Connected \<and> new \<noteq> Connected
      then Inl (socket_invalid_argument (''invalid socket state transition from '' @ show_socket_state current @
             '' to '' @ show_socket_state new))
      else Inr ())"

definition socket_update_state :: "socket_id \<Rightarrow> socket_state \<Rightarrow> socket_table \<Rightarrow> socket_record result \<times> socket_table" where
  "socket_update_state i new_state t =
     (case bt_get (st_sockets t) i of
        None \<Rightarrow> (Inl (socket_not_found i), t)
      | Some r \<Rightarrow>
          (case validate_state_transition (so_state r) new_state of
             Inl e \<Rightarrow> (Inl e, t)
           | Inr _ \<Rightarrow>
               let r1 = r\<lparr>so_state := new_state\<rparr>;
                   r2 = (if new_state \<noteq> Listening then r1\<lparr>so_listener_state := None\<rparr> else r1);
                   r3 = (if new_state = Connected \<and> supports_connection_lifecycle (so_spec r)
                         then r2\<lparr>so_connection_state := Some (unwrap_or (so_connection_state r2) connection_default)\<rparr>
                         else if new_state \<noteq> Connected then r2\<lparr>so_connection_state := None\<rparr> else r2)
               in (Inr r3, t\<lparr>st_sockets := bt_insert i r3 (st_sockets t)\<rparr>)))"

subsection \<open>Binding\<close>

definition inet_stream_bind_addresses_overlap :: "inet_socket_address \<Rightarrow> inet_socket_address \<Rightarrow> bool" where
  "inet_stream_bind_addresses_overlap existing requested \<longleftrightarrow>
     existing = requested \<or> wildcard_inet_address existing = Some requested \<or>
     wildcard_inet_address requested = Some existing"

definition lookup_conflicting_bound_inet_socket_ids ::
    "socket_table \<Rightarrow> socket_spec \<Rightarrow> inet_socket_address \<Rightarrow> socket_id list" where
  "lookup_conflicting_bound_inet_socket_ids t spec address =
     (if supports_inet_stream_lifecycle spec
      then (case find (\<lambda>(bound, _). inet_stream_bind_addresses_overlap bound address) (bt_entries (st_bound_inet_streams t)) of
              None \<Rightarrow> [] | Some (_, i) \<Rightarrow> [i])
      else if supports_inet_datagram_lifecycle spec
      then concat (map (\<lambda>(_, ids). bs_elems ids)
             (filter (\<lambda>(bound, _). inet_stream_bind_addresses_overlap bound address) (bt_entries (st_bound_inet_datagrams t))))
      else [])"

definition inet_datagram_bind_shares_port :: "socket_record \<Rightarrow> socket_record \<Rightarrow> bool" where
  "inet_datagram_bind_shares_port requested existing \<longleftrightarrow>
     reuse_port requested \<and> reuse_port existing \<or> reuse_address requested \<and> reuse_address existing"

definition has_incompatible_inet_bind_conflict :: "socket_table \<Rightarrow> socket_record \<Rightarrow> socket_id list \<Rightarrow> bool" where
  "has_incompatible_inet_bind_conflict t r conflicting_ids \<longleftrightarrow>
     list_ex (\<lambda>i. if i = so_id r then False
       else case bt_get (st_sockets t) i of
              None \<Rightarrow> False
            | Some existing \<Rightarrow>
                if supports_inet_datagram_lifecycle (so_spec r) then \<not> inet_datagram_bind_shares_port r existing else True)
       conflicting_ids"

definition register_bound_inet_socket ::
    "socket_spec \<Rightarrow> inet_socket_address \<Rightarrow> socket_id \<Rightarrow> socket_table \<Rightarrow> socket_table" where
  "register_bound_inet_socket spec address i t =
     (if supports_inet_stream_lifecycle spec
      then t\<lparr>st_bound_inet_streams := bt_insert address i (st_bound_inet_streams t)\<rparr>
      else if supports_inet_datagram_lifecycle spec
      then t\<lparr>st_bound_inet_datagrams := index_insert address i (st_bound_inet_datagrams t)\<rparr>
      else t)"

definition cannot_bind :: "socket_id \<Rightarrow> socket_state \<Rightarrow> sys_error" where
  "cannot_bind i state = socket_invalid_argument (about_socket i (''cannot bind in state '' @ show_socket_state state))"

definition bind_inet :: "socket_id \<Rightarrow> inet_socket_address \<Rightarrow> socket_table \<Rightarrow> socket_record result \<times> socket_table" where
  "bind_inet i addr t =
     (let address = normalize_inet_address addr
      in case bt_get (st_sockets t) i of
           None \<Rightarrow> (Inl (socket_not_found i), t)
         | Some r \<Rightarrow>
             if \<not> supports_inet_bind (so_spec r)
             then (Inl (socket_invalid_argument (about_socket i ''is not an INET socket'')), t)
             else if has_incompatible_inet_bind_conflict t r (lookup_conflicting_bound_inet_socket_ids t (so_spec r) address)
             then (Inl (address_in_use (''address '' @ show_inet address @ '' is already bound'')), t)
             else if so_state r = Bound \<and> so_local_address r = Some address then (Inr r, t)
             else if so_state r \<noteq> Created then (Inl (cannot_bind i (so_state r)), t)
             else
               let r1 = r\<lparr>so_local_address := Some address, so_peer_address := None, so_local_unix_path := None,
                          so_peer_unix_path := None, so_listener_state := None, so_connection_state := None,
                          so_state := Bound\<rparr>
               in (Inr r1, register_bound_inet_socket (so_spec r) address i
                     (t\<lparr>st_sockets := bt_insert i r1 (st_sockets t)\<rparr>)))"

definition normalize_unix_socket_path :: "string \<Rightarrow> string result" where
  "normalize_unix_socket_path path =
     (let normalized = normalize_path path
      in if normalized = ''/'' then Inl (socket_invalid_argument ''unix socket path must not be empty or root'')
         else Inr normalized)"

definition bind_unix :: "socket_id \<Rightarrow> string \<Rightarrow> socket_table \<Rightarrow> socket_record result \<times> socket_table" where
  "bind_unix i given t =
     (case normalize_unix_socket_path given of
        Inl e \<Rightarrow> (Inl e, t)
      | Inr path \<Rightarrow>
          (case bt_get (st_sockets t) i of
             None \<Rightarrow> (Inl (socket_not_found i), t)
           | Some r \<Rightarrow>
               if \<not> supports_unix_stream_lifecycle (so_spec r)
               then (Inl (socket_invalid_argument (about_socket i ''is not a Unix stream socket'')), t)
               else if (case bt_get (st_bound_unix_streams t) path of None \<Rightarrow> False | Some bound \<Rightarrow> bound \<noteq> i)
               then (Inl (address_in_use (''path '' @ path @ '' is already bound'')), t)
               else if so_state r = Bound \<and> so_local_unix_path r = Some path then (Inr r, t)
               else if so_state r \<noteq> Created then (Inl (cannot_bind i (so_state r)), t)
               else
                 let r1 = r\<lparr>so_local_address := None, so_peer_address := None, so_local_unix_path := Some path,
                            so_peer_unix_path := None, so_listener_state := None, so_connection_state := None,
                            so_state := Bound\<rparr>
                 in (Inr r1, t\<lparr>st_sockets := bt_insert i r1 (st_sockets t),
                               st_bound_unix_streams := bt_insert path i (st_bound_unix_streams t)\<rparr>)))"

subsection \<open>Listening and accepting\<close>

definition socket_listen :: "socket_id \<Rightarrow> nat \<Rightarrow> socket_table \<Rightarrow> socket_record result \<times> socket_table" where
  "socket_listen i backlog t =
     (if backlog = 0 then (Inl (socket_invalid_argument ''listener backlog must be greater than zero''), t)
      else case bt_get (st_sockets t) i of
             None \<Rightarrow> (Inl (socket_not_found i), t)
           | Some r \<Rightarrow>
               if \<not> supports_listener_lifecycle (so_spec r)
               then (Inl (socket_invalid_argument (about_socket i ''is not a stream socket'')), t)
               else if so_state r \<noteq> Bound \<or> \<not> has_bound_endpoint r
               then (Inl (socket_invalid_argument (about_socket i ''must be bound before listen'')), t)
               else
                 let r1 = r\<lparr>so_state := Listening,
                            so_listener_state := Some \<lparr>ls_backlog = backlog, ls_pending_accepts = []\<rparr>\<rparr>
                 in (Inr r1, t\<lparr>st_sockets := bt_insert i r1 (st_sockets t)\<rparr>))"

definition listener_of :: "socket_id \<Rightarrow> socket_record \<Rightarrow> listener_state result" where
  "listener_of i r =
     (if so_state r \<noteq> Listening then Inl (socket_invalid_argument (about_socket i ''is not listening''))
      else ok_or (so_listener_state r) (socket_invalid_argument (about_socket i ''has no listener state'')))"

definition backlog_full :: "socket_id \<Rightarrow> sys_error" where
  "backlog_full i = socket_would_block (''listener '' @ show_word i @ '' backlog is full'')"

definition push_pending :: "pending_connection \<Rightarrow> listener_state \<Rightarrow> listener_state" where
  "push_pending p ls = ls\<lparr>ls_pending_accepts := ls_pending_accepts ls @ [p]\<rparr>"

definition enqueue_incoming_tcp_connection ::
    "socket_id \<Rightarrow> inet_socket_address \<Rightarrow> socket_table \<Rightarrow> unit result \<times> socket_table" where
  "enqueue_incoming_tcp_connection i peer_address t =
     (case bt_get (st_sockets t) i of
        None \<Rightarrow> (Inl (socket_not_found i), t)
      | Some r \<Rightarrow>
          (case listener_of i r of
             Inl e \<Rightarrow> (Inl e, t)
           | Inr ls \<Rightarrow>
               if length (ls_pending_accepts ls) \<ge> ls_backlog ls then (Inl (backlog_full i), t)
               else
                 let p = \<lparr>pc_peer_address = Some peer_address, pc_peer_unix_path = None, pc_accepted_socket_id = None\<rparr>
                 in (Inr (), t\<lparr>st_sockets :=
                       bt_insert i (r\<lparr>so_listener_state := Some (push_pending p ls)\<rparr>) (st_sockets t)\<rparr>)))"

definition socket_accept :: "socket_id \<Rightarrow> socket_table \<Rightarrow> socket_record result \<times> socket_table" where
  "socket_accept i t =
     (case bt_get (st_sockets t) i of
        None \<Rightarrow> (Inl (socket_not_found i), t)
      | Some r \<Rightarrow>
          (case listener_of i r of
             Inl e \<Rightarrow> (Inl e, t)
           | Inr ls \<Rightarrow>
               (case ls_pending_accepts ls of
                  [] \<Rightarrow> (Inl (socket_would_block (''listener '' @ show_word i @ '' has no pending connections'')), t)
                | pending # rest \<Rightarrow>
                    let t1 = t\<lparr>st_sockets :=
                          bt_insert i (r\<lparr>so_listener_state := Some (ls\<lparr>ls_pending_accepts := rest\<rparr>)\<rparr>) (st_sockets t)\<rparr>
                    in case pc_accepted_socket_id pending of
                         Some accepted \<Rightarrow> (ok_or (bt_get (st_sockets t1) accepted) (socket_not_found accepted), t1)
                       | None \<Rightarrow>
                           let (j, t2) = next_socket_id t1;
                               a = \<lparr>so_id = j, so_owner_pid = so_owner_pid r, so_spec = so_spec r, so_state = Connected,
                                    so_local_address = so_local_address r, so_peer_address = pc_peer_address pending,
                                    so_local_unix_path = so_local_unix_path r,
                                    so_peer_unix_path = pc_peer_unix_path pending, so_listener_state = None,
                                    so_connection_state = default_connection_state (so_spec r) Connected,
                                    so_datagram_state = default_datagram_state (so_spec r)\<rparr>
                           in (Inr a, own_socket (so_owner_pid r) j (put_socket a t2)))))"

subsection \<open>Connecting\<close>

text \<open>
  \<^verbatim>\<open>connect_pair\<close>, \<^verbatim>\<open>connect_to_bound_*\<close> and \<^verbatim>\<open>shutdown\<close> take a record out of the map while they work on it and
  put it back on every path; here it stays in the map.
\<close>

definition no_stream_connections :: "socket_id \<Rightarrow> sys_error" where
  "no_stream_connections i = socket_invalid_argument (about_socket i ''does not support stream connections'')"

definition cannot_connect :: "socket_record \<Rightarrow> sys_error" where
  "cannot_connect r =
     socket_invalid_argument (about_socket (so_id r) (''cannot connect in state '' @ show_socket_state (so_state r)))"

definition validate_connect_pair :: "socket_record \<Rightarrow> socket_record \<Rightarrow> unit result" where
  "validate_connect_pair socket peer =
     (if \<not> supports_connection_lifecycle (so_spec socket) then Inl (no_stream_connections (so_id socket))
      else if \<not> supports_connection_lifecycle (so_spec peer) then Inl (no_stream_connections (so_id peer))
      else if so_state socket \<notin> {Created, Bound} then Inl (cannot_connect socket)
      else if so_state peer \<notin> {Created, Bound} then Inl (cannot_connect peer)
      else Inr ())"

definition connect_pair ::
    "socket_id \<Rightarrow> socket_id \<Rightarrow> socket_table \<Rightarrow> (socket_record \<times> socket_record) result \<times> socket_table" where
  "connect_pair i j t =
     (if i = j then (Inl (socket_invalid_argument ''socket cannot connect to itself''), t)
      else case bt_get (st_sockets t) i of
             None \<Rightarrow> (Inl (socket_not_found i), t)
           | Some socket \<Rightarrow>
               (case bt_get (st_sockets t) j of
                  None \<Rightarrow> (Inl (socket_not_found j), t)
                | Some peer \<Rightarrow>
                    (case validate_connect_pair socket peer of
                       Inl e \<Rightarrow> (Inl e, t)
                     | Inr _ \<Rightarrow>
                         let socket1 = socket\<lparr>so_state := Connected, so_peer_address := so_local_address peer,
                               so_peer_unix_path := so_local_unix_path peer, so_listener_state := None,
                               so_connection_state := Some (connection_to j)\<rparr>;
                             peer1 = peer\<lparr>so_state := Connected, so_peer_address := so_local_address socket,
                               so_peer_unix_path := so_local_unix_path socket, so_listener_state := None,
                               so_connection_state := Some (connection_to i)\<rparr>
                         in (Inr (socket1, peer1),
                             t\<lparr>st_sockets := bt_insert j peer1 (bt_insert i socket1 (st_sockets t))\<rparr>))))"

definition lookup_bound_inet_socket_in_table ::
    "(inet_socket_address, socket_id) btree \<Rightarrow> inet_socket_address \<Rightarrow> socket_id option" where
  "lookup_bound_inet_socket_in_table sockets address =
     (case bt_get sockets address of
        Some i \<Rightarrow> Some i
      | None \<Rightarrow> Option.bind (wildcard_inet_address address) (bt_get sockets))"

definition lookup_bound_inet_datagram_socket_in_table ::
    "(inet_socket_address, socket_id bset) btree \<Rightarrow> inet_socket_address \<Rightarrow> socket_id option" where
  "lookup_bound_inet_datagram_socket_in_table sockets address =
     (case Option.bind (bt_get sockets address) bs_first of
        Some i \<Rightarrow> Some i
      | None \<Rightarrow> Option.bind (wildcard_inet_address address) (\<lambda>wildcard. Option.bind (bt_get sockets wildcard) bs_first))"

definition lookup_bound_inet_socket :: "socket_table \<Rightarrow> socket_spec \<Rightarrow> inet_socket_address \<Rightarrow> socket_id option" where
  "lookup_bound_inet_socket t spec address =
     (if supports_inet_stream_lifecycle spec then lookup_bound_inet_socket_in_table (st_bound_inet_streams t) address
      else if supports_inet_datagram_lifecycle spec
      then lookup_bound_inet_datagram_socket_in_table (st_bound_inet_datagrams t) address
      else None)"

definition find_bound_inet_socket :: "socket_spec \<Rightarrow> inet_socket_address \<Rightarrow> socket_table \<Rightarrow> socket_record option" where
  "find_bound_inet_socket spec address t =
     Option.bind (lookup_bound_inet_socket t spec (normalize_inet_address address)) (bt_get (st_sockets t))"

definition find_bound_unix_socket :: "string \<Rightarrow> socket_table \<Rightarrow> socket_record option" where
  "find_bound_unix_socket given t =
     (case normalize_unix_socket_path given of
        Inl _ \<Rightarrow> None
      | Inr path \<Rightarrow> Option.bind (bt_get (st_bound_unix_streams t) path) (bt_get (st_sockets t)))"

definition validate_connect_to_listener :: "socket_record \<Rightarrow> socket_record \<Rightarrow> unit result" where
  "validate_connect_to_listener client listener =
     (if \<not> supports_connection_lifecycle (so_spec client) then Inl (no_stream_connections (so_id client))
      else if \<not> supports_listener_lifecycle (so_spec listener)
      then Inl (socket_invalid_argument (about_socket (so_id listener) ''is not a stream listener''))
      else if so_state client \<notin> {Created, Bound} then Inl (cannot_connect client)
      else if so_state listener \<noteq> Listening
      then Inl (socket_invalid_argument (about_socket (so_id listener) ''is not listening''))
      else Inr ())"

text \<open>
  The part that the two functions \<^verbatim>\<open>connect_to_bound_*\<close> share, from the comparison of the two sockets on.
  They differ in the addresses of the accepted socket: \<open>local_a\<close>, \<open>peer_a\<close>, \<open>local_p\<close> and \<open>peer_p\<close> give
  its local and peer address and its local and peer path, from the client and the listener. The peer of
  the pending entry is that of the accepted socket, and the peer of the client is where it is local.
\<close>

definition accepted_record ::
    "socket_id \<Rightarrow> socket_id \<Rightarrow> socket_record \<Rightarrow> inet_socket_address option \<Rightarrow> inet_socket_address option
      \<Rightarrow> string option \<Rightarrow> string option \<Rightarrow> socket_record" where
  "accepted_record a i listener local_a peer_a local_p peer_p =
     \<lparr>so_id = a, so_owner_pid = so_owner_pid listener, so_spec = so_spec listener, so_state = Connected,
      so_local_address = local_a, so_peer_address = peer_a, so_local_unix_path = local_p,
      so_peer_unix_path = peer_p, so_listener_state = None, so_connection_state = Some (connection_to i),
      so_datagram_state = default_datagram_state (so_spec listener)\<rparr>"

definition connected_client ::
    "socket_id \<Rightarrow> inet_socket_address option \<Rightarrow> string option \<Rightarrow> socket_record \<Rightarrow> socket_record" where
  "connected_client a peer_a peer_p client =
     client\<lparr>so_state := Connected, so_peer_address := peer_a, so_peer_unix_path := peer_p,
            so_listener_state := None, so_connection_state := Some (connection_to a)\<rparr>"

definition connect_to_listener ::
    "socket_id \<Rightarrow> socket_id
      \<Rightarrow> (socket_record \<Rightarrow> socket_record \<Rightarrow>
            inet_socket_address option \<times> inet_socket_address option \<times> string option \<times> string option)
      \<Rightarrow> socket_table \<Rightarrow> unit result \<times> socket_table" where
  "connect_to_listener i l endpoints t =
     (if i = l then (Inl (socket_invalid_argument ''socket cannot connect to its own listening endpoint''), t)
      else case bt_get (st_sockets t) i of
             None \<Rightarrow> (Inl (socket_not_found i), t)
           | Some client \<Rightarrow>
               let (a, t1) = next_socket_id t
               in case bt_get (st_sockets t1) l of
                    None \<Rightarrow> (Inl (socket_not_found l), t1)
                  | Some listener \<Rightarrow>
                      (case validate_connect_to_listener client listener of
                         Inl e \<Rightarrow> (Inl e, t1)
                       | Inr _ \<Rightarrow>
                           (case so_listener_state listener of
                              None \<Rightarrow> (Inl (socket_invalid_argument (about_socket l ''has no listener state'')), t1)
                            | Some ls \<Rightarrow>
                                if length (ls_pending_accepts ls) \<ge> ls_backlog ls then (Inl (backlog_full l), t1)
                                else
                                  let (local_a, peer_a, local_p, peer_p) = endpoints client listener;
                                      p = \<lparr>pc_peer_address = peer_a, pc_peer_unix_path = peer_p,
                                           pc_accepted_socket_id = Some a\<rparr>;
                                      listener1 = listener\<lparr>so_listener_state := Some (push_pending p ls)\<rparr>;
                                      accepted = accepted_record a i listener local_a peer_a local_p peer_p;
                                      client1 = connected_client a local_a local_p client
                                  in (Inr (), own_socket (so_owner_pid listener) a
                                       (t1\<lparr>st_sockets := bt_insert a accepted
                                          (bt_insert i client1 (bt_insert l listener1 (st_sockets t1)))\<rparr>)))))"

definition connect_to_bound_inet_stream ::
    "socket_id \<Rightarrow> inet_socket_address \<Rightarrow> socket_table \<Rightarrow> unit result \<times> socket_table" where
  "connect_to_bound_inet_stream i target t =
     (let target_address = normalize_inet_address target
      in case lookup_bound_inet_socket_in_table (st_bound_inet_streams t) target_address of
           None \<Rightarrow> (Inl (not_found_address (''no listening socket bound at '' @ show_inet target_address)), t)
         | Some l \<Rightarrow>
             connect_to_listener i l
               (\<lambda>client listener. (so_local_address listener, so_local_address client, None, None)) t)"

definition connect_to_bound_unix_stream ::
    "socket_id \<Rightarrow> string \<Rightarrow> socket_table \<Rightarrow> unit result \<times> socket_table" where
  "connect_to_bound_unix_stream i target t =
     (case normalize_unix_socket_path target of
        Inl e \<Rightarrow> (Inl e, t)
      | Inr target_path \<Rightarrow>
          (case bt_get (st_bound_unix_streams t) target_path of
             None \<Rightarrow> (Inl (not_found_address (''no listening socket bound at path '' @ target_path)), t)
           | Some l \<Rightarrow>
               connect_to_listener i l
                 (\<lambda>client listener. (None, None, so_local_unix_path listener, so_local_unix_path client)) t))"

subsection \<open>Datagrams\<close>

definition not_inet_datagram :: "socket_id \<Rightarrow> sys_error" where
  "not_inet_datagram i = socket_invalid_argument (about_socket i ''is not an INET datagram socket'')"

definition no_datagrams :: "socket_id \<Rightarrow> sys_error" where
  "no_datagrams i = socket_invalid_argument (about_socket i ''does not support datagrams'')"

definition validate_bound_udp_sender :: "socket_record \<Rightarrow> unit result" where
  "validate_bound_udp_sender sender =
     (if \<not> supports_inet_datagram_lifecycle (so_spec sender) then Inl (not_inet_datagram (so_id sender))
      else if so_state sender \<noteq> Bound \<or> so_local_address sender = None
      then Inl (socket_invalid_argument (about_socket (so_id sender) ''must be bound before sending datagrams''))
      else Inr ())"

definition validate_bound_udp_receiver :: "socket_record \<Rightarrow> unit result" where
  "validate_bound_udp_receiver receiver =
     (if \<not> supports_inet_datagram_lifecycle (so_spec receiver) then Inl (not_inet_datagram (so_id receiver))
      else if so_state receiver \<noteq> Bound \<or> so_local_address receiver = None
      then Inl (socket_invalid_argument (about_socket (so_id receiver) ''must be bound to receive datagrams''))
      else Inr ())"

definition datagram_state_mut :: "socket_record \<Rightarrow> datagram_state result" where
  "datagram_state_mut r =
     (if \<not> supports_inet_datagram_lifecycle (so_spec r) then Inl (not_inet_datagram (so_id r))
      else ok_or (so_datagram_state r) (no_datagrams (so_id r)))"

definition set_datagram_socket_option ::
    "socket_id \<Rightarrow> datagram_socket_option \<Rightarrow> bool \<Rightarrow> socket_table \<Rightarrow> socket_record result \<times> socket_table" where
  "set_datagram_socket_option i opt enabled t =
     (case bt_get (st_sockets t) i of
        None \<Rightarrow> (Inl (socket_not_found i), t)
      | Some r \<Rightarrow>
          (case datagram_state_mut r of
             Inl e \<Rightarrow> (Inl e, t)
           | Inr ds \<Rightarrow>
               let ds1 = (case opt of ReuseAddr \<Rightarrow> ds\<lparr>ds_reuse_addr := enabled\<rparr>
                                    | ReusePort \<Rightarrow> ds\<lparr>ds_reuse_port := enabled\<rparr>
                                    | Broadcast \<Rightarrow> ds\<lparr>ds_broadcast := enabled\<rparr>);
                   r1 = r\<lparr>so_datagram_state := Some ds1\<rparr>
               in (Inr r1, t\<lparr>st_sockets := bt_insert i r1 (st_sockets t)\<rparr>)))"

definition send_to_bound_udp_socket ::
    "socket_id \<Rightarrow> inet_socket_address \<Rightarrow> bytes \<Rightarrow> socket_table \<Rightarrow> nat result \<times> socket_table" where
  "send_to_bound_udp_socket i target data t =
     (let target_address = normalize_inet_address target
      in case bt_get (st_sockets t) i of
           None \<Rightarrow> (Inl (socket_not_found i), t)
         | Some sender \<Rightarrow>
             (case validate_bound_udp_sender sender of
                Inl e \<Rightarrow> (Inl e, t)
              | Inr _ \<Rightarrow>
                  (case Option.bind (bt_get (st_bound_inet_datagrams t) target_address) bs_first of
                     None \<Rightarrow> (Inl (not_found_address (''no UDP socket bound at '' @ show_inet target_address)), t)
                   | Some j \<Rightarrow>
                       (case bt_get (st_sockets t) j of
                          None \<Rightarrow> (Inl (socket_not_found j), t)
                        | Some receiver \<Rightarrow>
                            (case validate_bound_udp_receiver receiver of
                               Inl e \<Rightarrow> (Inl e, t)
                             | Inr _ \<Rightarrow>
                                 (case so_datagram_state receiver of
                                    None \<Rightarrow> (Inl (no_datagrams j), t)
                                  | Some ds \<Rightarrow>
                                      let d = \<lparr>qd_source_address = so_local_address sender, qd_payload = data\<rparr>;
                                          ds1 = ds\<lparr>ds_recv_queue := ds_recv_queue ds @ [d]\<rparr>
                                      in (Inr (length data), t\<lparr>st_sockets :=
                                            bt_insert j (receiver\<lparr>so_datagram_state := Some ds1\<rparr>) (st_sockets t)\<rparr>)))))))"

text \<open>The received datagram has the fields of the queued one, with the payload cut to \<^verbatim>\<open>max_bytes\<close>.\<close>

definition recv_datagram :: "socket_id \<Rightarrow> nat \<Rightarrow> socket_table \<Rightarrow> queued_datagram option result \<times> socket_table" where
  "recv_datagram i max_bytes t =
     (case bt_get (st_sockets t) i of
        None \<Rightarrow> (Inl (socket_not_found i), t)
      | Some r \<Rightarrow>
          (case validate_bound_udp_receiver r of
             Inl e \<Rightarrow> (Inl e, t)
           | Inr _ \<Rightarrow>
               (case so_datagram_state r of
                  None \<Rightarrow> (Inl (no_datagrams i), t)
                | Some ds \<Rightarrow>
                    (case ds_recv_queue ds of
                       [] \<Rightarrow> (Inl (socket_would_block (about_socket i ''has no queued datagrams'')), t)
                     | d # rest \<Rightarrow>
                         let payload = (if length (qd_payload d) > max_bytes then take max_bytes (qd_payload d)
                                        else qd_payload d)
                         in (Inr (Some (d\<lparr>qd_payload := payload\<rparr>)), t\<lparr>st_sockets :=
                               bt_insert i (r\<lparr>so_datagram_state := Some (ds\<lparr>ds_recv_queue := rest\<rparr>)\<rparr>)
                                 (st_sockets t)\<rparr>)))))"

subsection \<open>Multicast groups\<close>

text \<open>
  \<^verbatim>\<open>Ipv4Addr::from_str\<close> of the standard library: four decimal numbers up to 255 without leading zeros,
  separated by dots. \<^verbatim>\<open>trim\<close> removes ASCII white space here; strings are bytes, and the other white space
  of Unicode is not recognised.
\<close>

definition is_digit :: "char \<Rightarrow> bool" where
  "is_digit c \<longleftrightarrow> 48 \<le> (of_char c :: nat) \<and> (of_char c :: nat) \<le> 57"

definition decimal_value :: "string \<Rightarrow> nat" where
  "decimal_value s = foldl (\<lambda>n c. 10 * n + ((of_char c :: nat) - 48)) 0 s"

definition parse_octet :: "string \<Rightarrow> nat option" where
  "parse_octet s =
     (if s \<noteq> [] \<and> length s \<le> 3 \<and> list_all is_digit s \<and> (hd s = CHR ''0'' \<longrightarrow> length s = 1) \<and> decimal_value s \<le> 255
      then Some (decimal_value s) else None)"

fun split_dots :: "string \<Rightarrow> string list" where
  "split_dots [] = [[]]"
| "split_dots (c # cs) =
     (if c = CHR ''.'' then [] # split_dots cs
      else case split_dots cs of [] \<Rightarrow> [[c]] | part # parts \<Rightarrow> (c # part) # parts)"

definition parse_ipv4 :: "string \<Rightarrow> nat list option" where
  "parse_ipv4 s =
     (let octets = map parse_octet (split_dots s)
      in if length octets = 4 \<and> list_all (\<lambda>x. x \<noteq> None) octets then Some (map the octets) else None)"

definition ipv4_is_multicast :: "nat list \<Rightarrow> bool" where
  "ipv4_is_multicast octets \<longleftrightarrow> (case octets of [] \<Rightarrow> False | x # _ \<Rightarrow> 224 \<le> x \<and> x \<le> 239)"

definition is_space :: "char \<Rightarrow> bool" where
  "is_space c \<longleftrightarrow> (of_char c :: nat) = 32 \<or> 9 \<le> (of_char c :: nat) \<and> (of_char c :: nat) \<le> 13"

definition trim :: "string \<Rightarrow> string" where
  "trim s = rev (dropWhile is_space (rev (dropWhile is_space s)))"

definition validate_multicast_socket :: "socket_record \<Rightarrow> unit result" where
  "validate_multicast_socket r =
     (case validate_bound_udp_receiver r of
        Inl e \<Rightarrow> Inl e
      | Inr _ \<Rightarrow>
          if spec_domain (so_spec r) \<noteq> Inet
          then Inl (socket_invalid_argument
            (about_socket (so_id r) ''multicast membership is only implemented for IPv4 datagrams''))
          else Inr ())"

text \<open>
  Both callers of \<^verbatim>\<open>normalize_multicast_membership\<close> have refused every domain but \<^const>\<open>Inet\<close> before, so its
  two other branches are never reached and are left out.
\<close>

definition normalize_multicast_membership :: "socket_multicast_membership \<Rightarrow> socket_multicast_membership result" where
  "normalize_multicast_membership membership =
     (let group = to_ascii_lowercase (trim (group_address membership));
          interface = (case interface_address membership of
                         None \<Rightarrow> None
                       | Some given \<Rightarrow>
                           let val = to_ascii_lowercase (trim given) in if val = [] then None else Some val)
      in case parse_ipv4 group of
           None \<Rightarrow> Inl (socket_invalid_argument (''invalid IPv4 multicast address '' @ group))
         | Some parsed \<Rightarrow>
             if \<not> ipv4_is_multicast parsed
             then Inl (socket_invalid_argument (''address '' @ group @ '' is not an IPv4 multicast group''))
             else Inr (SocketMulticastMembership group interface))"

definition add_multicast_membership ::
    "socket_id \<Rightarrow> socket_multicast_membership \<Rightarrow> socket_table \<Rightarrow> socket_record result \<times> socket_table" where
  "add_multicast_membership i membership t =
     (case bt_get (st_sockets t) i of
        None \<Rightarrow> (Inl (socket_not_found i), t)
      | Some r \<Rightarrow>
          (case validate_multicast_socket r of
             Inl e \<Rightarrow> (Inl e, t)
           | Inr _ \<Rightarrow>
               (case normalize_multicast_membership membership of
                  Inl e \<Rightarrow> (Inl e, t)
                | Inr m \<Rightarrow>
                    (case datagram_state_mut r of
                       Inl e \<Rightarrow> (Inl e, t)
                     | Inr ds \<Rightarrow>
                         let r1 = r\<lparr>so_datagram_state :=
                               Some (ds\<lparr>ds_multicast_memberships := bs_insert m (ds_multicast_memberships ds)\<rparr>)\<rparr>
                         in (Inr r1, t\<lparr>st_sockets := bt_insert i r1 (st_sockets t),
                               st_multicast_groups := index_insert m i (st_multicast_groups t)\<rparr>)))))"

definition drop_multicast_membership ::
    "socket_id \<Rightarrow> socket_multicast_membership \<Rightarrow> socket_table \<Rightarrow> socket_record result \<times> socket_table" where
  "drop_multicast_membership i membership t =
     (case bt_get (st_sockets t) i of
        None \<Rightarrow> (Inl (socket_not_found i), t)
      | Some r \<Rightarrow>
          (case validate_multicast_socket r of
             Inl e \<Rightarrow> (Inl e, t)
           | Inr _ \<Rightarrow>
               (case normalize_multicast_membership membership of
                  Inl e \<Rightarrow> (Inl e, t)
                | Inr m \<Rightarrow>
                    (case datagram_state_mut r of
                       Inl e \<Rightarrow> (Inl e, t)
                     | Inr ds \<Rightarrow>
                         if \<not> bs_member (ds_multicast_memberships ds) m
                         then (Inl (address_not_available
                                 (about_socket i (''has not joined multicast group '' @ group_address m))), t)
                         else
                           let r1 = r\<lparr>so_datagram_state :=
                                 Some (ds\<lparr>ds_multicast_memberships := bs_remove m (ds_multicast_memberships ds)\<rparr>)\<rparr>
                           in (Inr r1, t\<lparr>st_sockets := bt_insert i r1 (st_sockets t),
                                 st_multicast_groups := index_remove m i (st_multicast_groups t)\<rparr>)))))"

subsection \<open>Streams\<close>

definition is_not_connected :: "socket_id \<Rightarrow> sys_error" where
  "is_not_connected i = socket_not_connected (about_socket i ''is not connected'')"

definition socket_poll :: "socket_id \<Rightarrow> poll_events \<Rightarrow> socket_table \<Rightarrow> poll_events result" where
  "socket_poll i requested t =
     (case bt_get (st_sockets t) i of
        None \<Rightarrow> Inl (socket_not_found i)
      | Some r \<Rightarrow>
          (case so_state r of
             Listening \<Rightarrow>
               Inr (if poll_intersects requested POLLIN \<and> pending_accept_count r > 0 then POLLIN else poll_empty)
           | Connected \<Rightarrow>
               (case so_connection_state r of
                  None \<Rightarrow> Inl (is_not_connected i)
                | Some c \<Rightarrow>
                    let peer = Option.bind (cs_peer_socket_id c) (bt_get (st_sockets t));
                        e1 = (if poll_intersects requested POLLIN \<and> cs_recv_buffer c \<noteq> [] then POLLIN else poll_empty);
                        e2 = (if cs_peer_write_shutdown c \<or> peer = None then poll_bitor e1 POLLHUP else e1);
                        e3 = (if poll_intersects requested POLLOUT \<and> \<not> cs_write_shutdown c
                              then if unwrap_or (map_option cs_read_shutdown (Option.bind peer so_connection_state)) True
                                   then poll_bitor e2 POLLERR else poll_bitor e2 POLLOUT
                              else e2)
                    in Inr e3)
           | Bound \<Rightarrow>
               if supports_inet_datagram_lifecycle (so_spec r)
               then (case so_datagram_state r of
                       None \<Rightarrow> Inl (no_datagrams i)
                     | Some ds \<Rightarrow>
                         let e1 = (if poll_intersects requested POLLIN \<and> ds_recv_queue ds \<noteq> [] then POLLIN else poll_empty)
                         in Inr (if poll_intersects requested POLLOUT then poll_bitor e1 POLLOUT else e1))
               else Inr poll_empty
           | Created \<Rightarrow> Inr poll_empty))"

definition peer_is_closed :: "socket_id \<Rightarrow> sys_error" where
  "peer_is_closed i = socket_broken_pipe (about_socket i ''peer is closed'')"

definition socket_write :: "socket_id \<Rightarrow> bytes \<Rightarrow> socket_table \<Rightarrow> nat result \<times> socket_table" where
  "socket_write i data t =
     (case bt_get (st_sockets t) i of
        None \<Rightarrow> (Inl (socket_not_found i), t)
      | Some r \<Rightarrow>
          (case so_connection_state r of
             None \<Rightarrow> (Inl (is_not_connected i), t)
           | Some c \<Rightarrow>
               if so_state r \<noteq> Connected then (Inl (is_not_connected i), t)
               else if cs_write_shutdown c
               then (Inl (socket_broken_pipe (about_socket i ''write side is shut down'')), t)
               else case cs_peer_socket_id c of
                      None \<Rightarrow> (Inl (peer_is_closed i), t)
                    | Some j \<Rightarrow>
                        (case bt_get (st_sockets t) j of
                           None \<Rightarrow> (Inl (peer_is_closed i), t)
                         | Some peer \<Rightarrow>
                             (case so_connection_state peer of
                                None \<Rightarrow> (Inl (peer_is_closed i), t)
                              | Some pc \<Rightarrow>
                                  if cs_read_shutdown pc
                                  then (Inl (socket_broken_pipe (about_socket j ''read side is shut down'')), t)
                                  else (Inr (length data), t\<lparr>st_sockets := bt_insert j
                                         (peer\<lparr>so_connection_state :=
                                            Some (pc\<lparr>cs_recv_buffer := cs_recv_buffer pc @ data\<rparr>)\<rparr>) (st_sockets t)\<rparr>)))))"

definition socket_read :: "socket_id \<Rightarrow> nat \<Rightarrow> socket_table \<Rightarrow> bytes option result \<times> socket_table" where
  "socket_read i max_bytes t =
     (if max_bytes = 0 then (Inr (Some []), t)
      else case bt_get (st_sockets t) i of
             None \<Rightarrow> (Inl (socket_not_found i), t)
           | Some r \<Rightarrow>
               if so_state r \<noteq> Connected then (Inl (is_not_connected i), t)
               else case so_connection_state r of
                      None \<Rightarrow> (Inl (is_not_connected i), t)
                    | Some c \<Rightarrow>
                        if cs_read_shutdown c then (Inr None, t)
                        else if cs_recv_buffer c \<noteq> []
                        then let read_len = min (length (cs_recv_buffer c)) max_bytes
                             in (Inr (Some (take read_len (cs_recv_buffer c))), t\<lparr>st_sockets := bt_insert i
                                  (r\<lparr>so_connection_state := Some (c\<lparr>cs_recv_buffer := drop read_len (cs_recv_buffer c)\<rparr>)\<rparr>)
                                  (st_sockets t)\<rparr>)
                        else let peer_open = (case cs_peer_socket_id c of
                                                None \<Rightarrow> False
                                              | Some j \<Rightarrow> bt_contains (st_sockets t) j)
                             in if cs_peer_write_shutdown c \<or> \<not> peer_open then (Inr None, t)
                                else (Inl (socket_would_block (about_socket i ''has no readable data'')), t))"

text \<open>\<^verbatim>\<open>get_mut\<close> of the peer and of its connection, in \<^verbatim>\<open>shutdown\<close> and in \<^verbatim>\<open>remove_socket\<close>.\<close>

definition modify_peer ::
    "(connection_state \<Rightarrow> connection_state) \<Rightarrow> socket_id option \<Rightarrow> (socket_id, socket_record) btree
      \<Rightarrow> (socket_id, socket_record) btree" where
  "modify_peer f peer sockets =
     (case peer of
        None \<Rightarrow> sockets
      | Some j \<Rightarrow> bt_modify j (\<lambda>p. p\<lparr>so_connection_state := map_option f (so_connection_state p)\<rparr>) sockets)"

definition socket_shut_down :: "socket_id \<Rightarrow> socket_shutdown \<Rightarrow> socket_table \<Rightarrow> socket_record result \<times> socket_table" where
  "socket_shut_down i how t =
     (case bt_get (st_sockets t) i of
        None \<Rightarrow> (Inl (socket_not_found i), t)
      | Some r \<Rightarrow>
          if so_state r \<noteq> Connected then (Inl (is_not_connected i), t)
          else case so_connection_state r of
                 None \<Rightarrow> (Inl (is_not_connected i), t)
               | Some c \<Rightarrow>
                   let c1 = (if how \<in> {ShutRead, ShutBoth} then c\<lparr>cs_recv_buffer := [], cs_read_shutdown := True\<rparr> else c);
                       c2 = (if how \<in> {ShutWrite, ShutBoth} then c1\<lparr>cs_write_shutdown := True\<rparr> else c1);
                       sockets1 = (if how \<in> {ShutWrite, ShutBoth}
                                   then modify_peer (\<lambda>pc. pc\<lparr>cs_peer_write_shutdown := True\<rparr>) (cs_peer_socket_id c1) (st_sockets t)
                                   else st_sockets t);
                       r1 = r\<lparr>so_connection_state := Some c2\<rparr>
                   in (Inr r1, t\<lparr>st_sockets := bt_insert i r1 sockets1\<rparr>))"

subsection \<open>Removing\<close>

definition unregister_bound_socket :: "socket_record \<Rightarrow> socket_table \<Rightarrow> socket_table" where
  "unregister_bound_socket r t =
     (case so_local_address r of
        None \<Rightarrow>
          if supports_unix_stream_lifecycle (so_spec r)
          then (case so_local_unix_path r of
                  None \<Rightarrow> t
                | Some path \<Rightarrow>
                    if bt_get (st_bound_unix_streams t) path = Some (so_id r)
                    then t\<lparr>st_bound_unix_streams := bt_remove path (st_bound_unix_streams t)\<rparr> else t)
          else t
      | Some address \<Rightarrow>
          let t1 = (if supports_inet_stream_lifecycle (so_spec r) \<and> bt_get (st_bound_inet_streams t) address = Some (so_id r)
                    then t\<lparr>st_bound_inet_streams := bt_remove address (st_bound_inet_streams t)\<rparr> else t)
          in if supports_inet_datagram_lifecycle (so_spec r)
             then t1\<lparr>st_bound_inet_datagrams := index_remove address (so_id r) (st_bound_inet_datagrams t1)\<rparr> else t1)"

definition unregister_multicast_memberships :: "socket_record \<Rightarrow> socket_table \<Rightarrow> socket_table" where
  "unregister_multicast_memberships r t =
     (case so_datagram_state r of
        None \<Rightarrow> t
      | Some ds \<Rightarrow>
          t\<lparr>st_multicast_groups := fold (\<lambda>m. index_remove m (so_id r)) (bs_elems (ds_multicast_memberships ds))
                                    (st_multicast_groups t)\<rparr>)"

definition pending_socket_ids :: "socket_record \<Rightarrow> socket_id list" where
  "pending_socket_ids r =
     (case so_listener_state r of
        None \<Rightarrow> []
      | Some ls \<Rightarrow> List.map_filter pc_accepted_socket_id (ls_pending_accepts ls))"

text \<open>The end of the connection with the removed socket \<open>i\<close>, at the peer.\<close>

definition peer_removed :: "socket_id \<Rightarrow> connection_state \<Rightarrow> connection_state" where
  "peer_removed i pc =
     (if cs_peer_socket_id pc = Some i then pc\<lparr>cs_peer_socket_id := None, cs_peer_write_shutdown := True\<rparr>
      else pc\<lparr>cs_peer_write_shutdown := True\<rparr>)"

definition disconnect_peer :: "socket_id \<Rightarrow> socket_record \<Rightarrow> socket_table \<Rightarrow> socket_table" where
  "disconnect_peer i r t =
     t\<lparr>st_sockets := modify_peer (peer_removed i) (Option.bind (so_connection_state r) cs_peer_socket_id) (st_sockets t)\<rparr>"

text \<open>
  Removing a listener removes the sockets that wait to be accepted, by a recursive call. A call takes
  its socket out of the table first, so the recursion is no deeper than the table has sockets:
  \<open>fuel\<close> is one more than that, and \<open>None\<close>, for fuel that ran out, is not reached
  (\<open>remove_socket_enough\<close>).
\<close>

fun remove_each ::
    "(socket_id \<Rightarrow> socket_table \<Rightarrow> (socket_record option \<times> socket_table) option) \<Rightarrow> socket_id list \<Rightarrow> socket_table
      \<Rightarrow> (socket_record list \<times> socket_table) option" where
  "remove_each f [] t = Some ([], t)"
| "remove_each f (i # is) t =
     (case f i t of
        None \<Rightarrow> None
      | Some (removed, t1) \<Rightarrow>
          (case remove_each f is t1 of
             None \<Rightarrow> None
           | Some (rs, t2) \<Rightarrow> Some (case removed of None \<Rightarrow> rs | Some r \<Rightarrow> r # rs, t2)))"

primrec remove_socket_in :: "nat \<Rightarrow> socket_id \<Rightarrow> socket_table \<Rightarrow> (socket_record option \<times> socket_table) option" where
  "remove_socket_in 0 i t = None"
| "remove_socket_in (Suc fuel) i t =
     (case bt_get (st_sockets t) i of
        None \<Rightarrow> Some (None, t)
      | Some r \<Rightarrow>
          let t1 = t\<lparr>st_sockets := bt_remove i (st_sockets t)\<rparr>;
              t2 = unregister_multicast_memberships r (unregister_bound_socket r t1)
          in case remove_each (remove_socket_in fuel) (pending_socket_ids r) t2 of
               None \<Rightarrow> None
             | Some (_, t3) \<Rightarrow>
                 let t4 = disconnect_peer i r t3
                 in Some (Some r, t4\<lparr>st_by_owner := index_remove (so_owner_pid r) i (st_by_owner t4)\<rparr>))"

declare remove_socket_in.simps(2) [simp del]

definition remove_socket :: "socket_id \<Rightarrow> socket_table \<Rightarrow> (socket_record option \<times> socket_table) option" where
  "remove_socket i t = remove_socket_in (Suc (bt_len (st_sockets t))) i t"

definition socket_remove :: "socket_id \<Rightarrow> socket_table \<Rightarrow> (socket_record result \<times> socket_table) option" where
  "socket_remove i t = map_option (\<lambda>(r, t1). (ok_or r (socket_not_found i), t1)) (remove_socket i t)"

definition remove_all_for_pid :: "u32 \<Rightarrow> socket_table \<Rightarrow> (socket_record list \<times> socket_table) option" where
  "remove_all_for_pid pid t =
     (case bt_get (st_by_owner t) pid of
        None \<Rightarrow> Some ([], t)
      | Some ids \<Rightarrow> remove_each remove_socket (bs_elems ids) (t\<lparr>st_by_owner := bt_remove pid (st_by_owner t)\<rparr>))"

definition socket_snapshot :: "socket_table \<Rightarrow> socket_table_snapshot" where
  "socket_snapshot t =
     \<lparr>sns_sockets = bt_len (st_sockets t),
      sns_listeners = length (filter (\<lambda>r. counts_as_listener (so_state r)) (bt_values (st_sockets t))),
      sns_connections = length (filter (\<lambda>r. counts_as_connection (so_state r)) (bt_values (st_sockets t)))\<rparr>"

end
