(* ===== verification/Socket_Remove.thy ===== *)
theory Socket_Remove
  imports Socket_Table
begin

text \<open>
  Removing sockets (\<^verbatim>\<open>remove_socket\<close> of \<^verbatim>\<open>socket_table.rs\<close>): the recursion through the sockets that wait at a
  listener always ends, and satisfies the equation of the source.
\<close>

lemma sockets_unregister_bound [simp]: "st_sockets (unregister_bound_socket r t) = st_sockets t"
  by (simp add: unregister_bound_socket_def Let_def split: option.splits)

lemma sockets_unregister_multicast [simp]: "st_sockets (unregister_multicast_memberships r t) = st_sockets t"
  by (simp add: unregister_multicast_memberships_def split: option.splits)

lemma sockets_own_socket [simp]: "st_sockets (own_socket p i t) = st_sockets t"
  by (simp add: own_socket_def)

lemma sockets_register_bound [simp]: "st_sockets (register_bound_inet_socket spec a i t) = st_sockets t"
  by (simp add: register_bound_inet_socket_def)

lemma next_unregister_bound [simp]: "st_next_socket_id (unregister_bound_socket r t) = st_next_socket_id t"
  by (simp add: unregister_bound_socket_def Let_def split: option.splits)

lemma next_unregister_multicast [simp]: "st_next_socket_id (unregister_multicast_memberships r t) = st_next_socket_id t"
  by (simp add: unregister_multicast_memberships_def split: option.splits)

lemma get_modify_peer:
  "bt_get (modify_peer f peer m) i =
     (if peer = Some i then map_option (\<lambda>p. p\<lparr>so_connection_state := map_option f (so_connection_state p)\<rparr>) (bt_get m i)
      else bt_get m i)"
  by (auto simp: modify_peer_def split: option.splits)

lemma dom_modify_peer [simp]: "dom (bt_get (modify_peer f peer m)) = dom (bt_get m)"
  by (auto simp: get_modify_peer dom_def split: if_splits)

lemma len_modify_peer [simp]: "bt_len (modify_peer f peer m) = bt_len m"
  by (simp add: bt_len_keys)

subsection \<open>Enough fuel\<close>

lemma remove_socket_in_missing [simp]: "bt_get (st_sockets t) i = None \<Longrightarrow> remove_socket_in (Suc n) i t = Some (None, t)"
  by (simp add: remove_socket_in.simps(2))

text \<open>The table when \<^verbatim>\<open>remove_socket\<close> turns to the sockets that wait at the removed one.\<close>

abbreviation taken_out :: "socket_id \<Rightarrow> socket_record \<Rightarrow> socket_table \<Rightarrow> socket_table" where
  "taken_out i r t \<equiv>
     unregister_multicast_memberships r (unregister_bound_socket r (t\<lparr>st_sockets := bt_remove i (st_sockets t)\<rparr>))"

text \<open>What is left to do after them.\<close>

definition finish_removal :: "socket_id \<Rightarrow> socket_record \<Rightarrow> socket_table \<Rightarrow> socket_table" where
  "finish_removal i r t =
     (let t4 = disconnect_peer i r t in t4\<lparr>st_by_owner := index_remove (so_owner_pid r) i (st_by_owner t4)\<rparr>)"

lemma remove_socket_in_present:
  "bt_get (st_sockets t) i = Some r \<Longrightarrow> remove_socket_in (Suc n) i t =
     map_option (\<lambda>(_, t3). (Some r, finish_removal i r t3)) (remove_each (remove_socket_in n) (pending_socket_ids r) (taken_out i r t))"
  by (auto simp: remove_socket_in.simps(2) finish_removal_def Let_def split: option.splits)

lemma len_finish_removal [simp]: "bt_len (st_sockets (finish_removal i r t)) = bt_len (st_sockets t)"
  by (simp add: finish_removal_def disconnect_peer_def Let_def)

text \<open>\<open>f\<close> returns on tables of at most \<open>n\<close> sockets and leaves no more than there were.\<close>

definition shrinks :: "nat \<Rightarrow> (socket_id \<Rightarrow> socket_table \<Rightarrow> (socket_record option \<times> socket_table) option) \<Rightarrow> bool" where
  "shrinks n f \<longleftrightarrow> (\<forall>i t. bt_len (st_sockets t) \<le> n \<longrightarrow>
     (\<exists>r t'. f i t = Some (r, t') \<and> bt_len (st_sockets t') \<le> bt_len (st_sockets t)))"

lemma remove_each_shrinks:
  assumes "shrinks n f" "bt_len (st_sockets t) \<le> n"
  shows "\<exists>rs t'. remove_each f is t = Some (rs, t') \<and> bt_len (st_sockets t') \<le> bt_len (st_sockets t)"
  using assms(2)
proof (induction "is" arbitrary: t)
  case (Cons i "is")
  obtain r t1 where f: "f i t = Some (r, t1)" "bt_len (st_sockets t1) \<le> bt_len (st_sockets t)"
    using assms(1) Cons.prems unfolding shrinks_def by blast
  moreover obtain rs t2 where "remove_each f is t1 = Some (rs, t2)" "bt_len (st_sockets t2) \<le> bt_len (st_sockets t1)"
    using Cons.IH [of t1] f(2) Cons.prems by auto
  ultimately show ?case by simp
qed simp

lemma remove_socket_in_shrinks: "shrinks n (remove_socket_in (Suc n))"
proof (induction n)
  case 0
  have "bt_get (st_sockets t) i = None" if "bt_len (st_sockets t) \<le> 0" for i and t :: socket_table
  proof -
    have "dom (bt_get (st_sockets t)) = {}" using that finite_dom_bt_get [of "st_sockets t"] by (simp add: bt_len_keys)
    then show ?thesis by auto
  qed
  then show ?case unfolding shrinks_def by simp
next
  case (Suc n)
  show ?case unfolding shrinks_def
  proof (intro allI impI)
    fix i and t :: socket_table
    assume len: "bt_len (st_sockets t) \<le> Suc n"
    show "\<exists>r t'. remove_socket_in (Suc (Suc n)) i t = Some (r, t') \<and> bt_len (st_sockets t') \<le> bt_len (st_sockets t)"
    proof (cases "bt_get (st_sockets t) i")
      case (Some r)
      have shorter: "bt_len (st_sockets (taken_out i r t)) = bt_len (st_sockets t) - 1" using Some by (simp add: bt_len_remove)
      with len have "bt_len (st_sockets (taken_out i r t)) \<le> n" by linarith
      from remove_each_shrinks [OF Suc.IH this, of "pending_socket_ids r"] obtain rs t3
        where "remove_each (remove_socket_in (Suc n)) (pending_socket_ids r) (taken_out i r t) = Some (rs, t3)"
          "bt_len (st_sockets t3) \<le> bt_len (st_sockets (taken_out i r t))" by blast
      with shorter show ?thesis by (simp add: remove_socket_in_present [OF Some])
    qed simp
  qed
qed

lemma remove_socket_enough:
  obtains r t' where "remove_socket i t = Some (r, t')" "bt_len (st_sockets t') \<le> bt_len (st_sockets t)"
  using remove_socket_in_shrinks [of "bt_len (st_sockets t)"] unfolding shrinks_def remove_socket_def by blast

subsection \<open>More fuel changes nothing\<close>

definition extends ::
    "(socket_id \<Rightarrow> socket_table \<Rightarrow> (socket_record option \<times> socket_table) option)
      \<Rightarrow> (socket_id \<Rightarrow> socket_table \<Rightarrow> (socket_record option \<times> socket_table) option) \<Rightarrow> bool" where
  "extends g f \<longleftrightarrow> (\<forall>i t x. f i t = Some x \<longrightarrow> g i t = Some x)"

lemma remove_each_extends:
  assumes "extends g f" "remove_each f is t = Some x"
  shows "remove_each g is t = Some x"
  using assms(2)
proof (induction "is" arbitrary: t x)
  case (Cons i "is")
  from Cons.prems obtain r t1 where f: "f i t = Some (r, t1)"
    by (auto split: option.splits)
  from Cons.prems f obtain rs t2 where "remove_each f is t1 = Some (rs, t2)"
    by (auto split: option.splits)
  moreover from f have "g i t = Some (r, t1)" using assms(1) unfolding extends_def by blast
  ultimately show ?case using Cons.prems Cons.IH [of t1] f by simp
qed simp

lemma remove_socket_in_extends: "extends (remove_socket_in (Suc n)) (remove_socket_in n)"
proof (induction n)
  case (Suc n)
  show ?case unfolding extends_def
  proof (intro allI impI)
    fix i t x
    assume x: "remove_socket_in (Suc n) i t = Some x"
    show "remove_socket_in (Suc (Suc n)) i t = Some x"
    proof (cases "bt_get (st_sockets t) i")
      case (Some r)
      from x obtain y where y: "remove_each (remove_socket_in n) (pending_socket_ids r) (taken_out i r t) = Some y"
        by (auto simp: remove_socket_in_present [OF Some])
      from remove_each_extends [OF Suc.IH this] x y show ?thesis by (simp add: remove_socket_in_present [OF Some])
    qed (use x in simp)
  qed
qed (simp add: extends_def)

lemma remove_socket_in_more:
  assumes "remove_socket_in n i t = Some x"
  shows "remove_socket_in (n + k) i t = Some x"
proof (induction k)
  case (Suc k)
  then show ?case using remove_socket_in_extends [of "n + k"] unfolding extends_def add_Suc_right by blast
qed (use assms in simp)

lemma remove_socket_in_any:
  assumes "bt_len (st_sockets t) < n"
  shows "remove_socket_in n i t = remove_socket i t"
proof -
  obtain x where x: "remove_socket i t = Some x" by (rule remove_socket_enough)
  then have "remove_socket_in (Suc (bt_len (st_sockets t)) + (n - Suc (bt_len (st_sockets t)))) i t = Some x"
    unfolding remove_socket_def by (rule remove_socket_in_more)
  with x assms show ?thesis by simp
qed

lemma remove_each_cong:
  assumes "shrinks n f" "\<And>i t. bt_len (st_sockets t) \<le> n \<Longrightarrow> g i t = f i t" "bt_len (st_sockets t) \<le> n"
  shows "remove_each g is t = remove_each f is t"
  using assms(3)
proof (induction "is" arbitrary: t)
  case (Cons i "is")
  obtain r t1 where f: "f i t = Some (r, t1)" "bt_len (st_sockets t1) \<le> bt_len (st_sockets t)"
    using assms(1) Cons.prems unfolding shrinks_def by blast
  then show ?case using Cons.IH [of t1] Cons.prems assms(2) [of t i] by simp
qed simp

lemma remove_socket_missing [simp]: "bt_get (st_sockets t) i = None \<Longrightarrow> remove_socket i t = Some (None, t)"
  by (simp add: remove_socket_def)

text \<open>The equation of the source, without fuel.\<close>

lemma remove_socket_present:
  assumes "bt_get (st_sockets t) i = Some r"
  shows "remove_socket i t =
    map_option (\<lambda>(_, t3). (Some r, finish_removal i r t3)) (remove_each remove_socket (pending_socket_ids r) (taken_out i r t))"
proof -
  let ?n = "bt_len (st_sockets t) - 1"
  have "bt_len (st_sockets t) \<noteq> 0"
    using assms finite_dom_bt_get [of "st_sockets t"] by (auto simp: bt_len_keys)
  then have n: "Suc ?n = bt_len (st_sockets t)" by simp
  have "remove_each remove_socket (pending_socket_ids r) (taken_out i r t) =
      remove_each (remove_socket_in (Suc ?n)) (pending_socket_ids r) (taken_out i r t)"
    using remove_socket_in_shrinks assms
    by (intro remove_each_cong [where n = ?n]) (simp_all add: remove_socket_in_any bt_len_remove)
  then show ?thesis unfolding remove_socket_def n by (simp add: remove_socket_in_present [OF assms])
qed

lemma remove_each_socket_total: "\<exists>rs t'. remove_each remove_socket is t = Some (rs, t')"
proof (induction "is" arbitrary: t)
  case (Cons i "is")
  obtain r t1 where "remove_socket i t = Some (r, t1)" by (rule remove_socket_enough)
  then show ?case using Cons.IH [of t1] by auto
qed simp

end
