(* ===== verification/Socket_Net.thy ===== *)
theory Socket_Net
  imports Socket_Table "HOL-Library.Sublist"
begin

text \<open>
  What the socket table promises of stream connections, without listeners, addresses or owners: a
  network of endpoints that are opened, connected in pairs, written to, read from, shut down and closed.
  The network also remembers what each endpoint has sent and received and whom it was connected to.
\<close>

record socket_net =
  n_used :: "socket_id \<Rightarrow> bool"
  n_alive :: "socket_id \<Rightarrow> bool"
  n_conn :: "socket_id \<Rightarrow> connection_state option"
  n_partner :: "socket_id \<Rightarrow> socket_id option"
  n_sent :: "socket_id \<Rightarrow> bytes"
  n_received :: "socket_id \<Rightarrow> bytes"

definition net_new :: socket_net where
  "net_new = \<lparr>n_used = (\<lambda>_. False), n_alive = (\<lambda>_. False), n_conn = (\<lambda>_. None), n_partner = (\<lambda>_. None),
     n_sent = (\<lambda>_. []), n_received = (\<lambda>_. [])\<rparr>"

definition conn_modify ::
    "(connection_state \<Rightarrow> connection_state) \<Rightarrow> socket_id option \<Rightarrow> (socket_id \<Rightarrow> connection_state option)
      \<Rightarrow> socket_id \<Rightarrow> connection_state option" where
  "conn_modify f peer conn i = (if peer = Some i then map_option f (conn i) else conn i)"

text \<open>The end that is left when the other one closes.\<close>

definition left_alone :: "connection_state \<Rightarrow> connection_state" where
  "left_alone d = d\<lparr>cs_peer_socket_id := None, cs_peer_write_shutdown := True\<rparr>"

inductive net_step :: "socket_net \<Rightarrow> socket_net \<Rightarrow> bool" where
  net_open: "\<not> n_used w i \<Longrightarrow> c = None \<or> c = Some connection_default \<Longrightarrow>
    net_step w (w\<lparr>n_used := (n_used w)(i := True), n_alive := (n_alive w)(i := True), n_conn := (n_conn w)(i := c)\<rparr>)"
| net_mark: "n_alive w i \<Longrightarrow> n_conn w i = None \<Longrightarrow>
    net_step w (w\<lparr>n_conn := (n_conn w)(i \<mapsto> connection_default)\<rparr>)"
| net_connect: "n_alive w i \<Longrightarrow> n_alive w j \<Longrightarrow> i \<noteq> j \<Longrightarrow> n_conn w i = None \<Longrightarrow> n_conn w j = None \<Longrightarrow>
    net_step w (w\<lparr>n_conn := (n_conn w)(i \<mapsto> connection_to j, j \<mapsto> connection_to i),
      n_partner := (n_partner w)(i \<mapsto> j, j \<mapsto> i)\<rparr>)"
| net_send: "n_conn w i = Some c \<Longrightarrow> \<not> cs_write_shutdown c \<Longrightarrow> cs_peer_socket_id c = Some j \<Longrightarrow> n_conn w j = Some d \<Longrightarrow>
    \<not> cs_read_shutdown d \<Longrightarrow>
    net_step w (w\<lparr>n_conn := (n_conn w)(j \<mapsto> d\<lparr>cs_recv_buffer := cs_recv_buffer d @ data\<rparr>),
      n_sent := (n_sent w)(i := n_sent w i @ data)\<rparr>)"
| net_receive: "n_conn w i = Some c \<Longrightarrow> \<not> cs_read_shutdown c \<Longrightarrow> cs_recv_buffer c = data @ rest \<Longrightarrow>
    net_step w (w\<lparr>n_conn := (n_conn w)(i \<mapsto> c\<lparr>cs_recv_buffer := rest\<rparr>),
      n_received := (n_received w)(i := n_received w i @ data)\<rparr>)"
| net_shut_read: "n_conn w i = Some c \<Longrightarrow>
    net_step w (w\<lparr>n_conn := (n_conn w)(i \<mapsto> c\<lparr>cs_recv_buffer := [], cs_read_shutdown := True\<rparr>)\<rparr>)"
| net_shut_write: "n_conn w i = Some c \<Longrightarrow>
    net_step w (w\<lparr>n_conn := (conn_modify (\<lambda>d. d\<lparr>cs_peer_write_shutdown := True\<rparr>) (cs_peer_socket_id c) (n_conn w))
      (i \<mapsto> c\<lparr>cs_write_shutdown := True\<rparr>)\<rparr>)"
| net_close: "n_alive w i \<Longrightarrow>
    net_step w (w\<lparr>n_alive := (n_alive w)(i := False),
      n_conn := conn_modify left_alone (Option.bind (n_conn w i) cs_peer_socket_id) ((n_conn w)(i := None))\<rparr>)"

subsection \<open>The invariant\<close>

text \<open>An endpoint is connected to one that is connected to it, its partner.\<close>

definition net_paired :: "socket_net \<Rightarrow> bool" where
  "net_paired w \<longleftrightarrow> (\<forall>i c j. n_conn w i = Some c \<longrightarrow> cs_peer_socket_id c = Some j \<longrightarrow>
     n_partner w i = Some j \<and> (\<exists>d. n_conn w j = Some d \<and> cs_peer_socket_id d = Some i))"

definition net_partners :: "socket_net \<Rightarrow> bool" where
  "net_partners w \<longleftrightarrow> (\<forall>i j. n_partner w i = Some j \<longrightarrow>
     i \<noteq> j \<and> n_partner w j = Some i \<and> n_used w i \<and> (n_alive w i \<longrightarrow> n_conn w i \<noteq> None))"

definition net_ids :: "socket_net \<Rightarrow> bool" where
  "net_ids w \<longleftrightarrow> (\<forall>i. (n_alive w i \<longrightarrow> n_used w i) \<and> (n_conn w i \<noteq> None \<longrightarrow> n_alive w i))"

text \<open>What an endpoint has received, and after it what is buffered for it, is what its partner has sent.\<close>

definition delivered :: "bytes \<Rightarrow> bytes \<Rightarrow> connection_state \<Rightarrow> bool" where
  "delivered sent received c \<longleftrightarrow>
     (if cs_read_shutdown c then prefix received sent else sent = received @ cs_recv_buffer c)"

definition net_fifo :: "socket_net \<Rightarrow> bool" where
  "net_fifo w \<longleftrightarrow> (\<forall>i c. n_conn w i = Some c \<longrightarrow>
     (case n_partner w i of
        None \<Rightarrow> cs_recv_buffer c = []
      | Some j \<Rightarrow> delivered (n_sent w j) (n_received w i) c))"

definition net_idle :: "socket_net \<Rightarrow> bool" where
  "net_idle w \<longleftrightarrow> (\<forall>i. n_partner w i = None \<longrightarrow> n_sent w i = [] \<and> n_received w i = [])"

definition net_inv :: "socket_net \<Rightarrow> bool" where
  "net_inv w \<longleftrightarrow> net_paired w \<and> net_partners w \<and> net_ids w \<and> net_fifo w \<and> net_idle w"

lemma net_inv_new: "net_inv net_new"
  by (simp add: net_inv_def net_new_def net_paired_def net_partners_def net_ids_def net_fifo_def net_idle_def)

lemmas net_defs = net_paired_def net_partners_def net_ids_def net_fifo_def net_idle_def

lemma conn_to_simps [simp]:
  "cs_peer_socket_id connection_default = None" "cs_recv_buffer connection_default = []"
  "cs_peer_socket_id (connection_to j) = Some j" "cs_recv_buffer (connection_to j) = []"
  "cs_read_shutdown (connection_to j) = False"
  by (simp_all add: connection_default_def connection_to_def)

lemma pairedD:
  assumes "net_inv w" "n_conn w i = Some c" "cs_peer_socket_id c = Some j"
  obtains d where "n_conn w j = Some d" "cs_peer_socket_id d = Some i" "n_partner w i = Some j" "n_partner w j = Some i" "i \<noteq> j"
proof -
  have "n_partner w i = Some j" and d: "\<exists>d. n_conn w j = Some d \<and> cs_peer_socket_id d = Some i"
    using assms unfolding net_inv_def net_paired_def by blast+
  moreover then have "n_partner w j = Some i" "i \<noteq> j" using assms(1) unfolding net_inv_def net_partners_def by blast+
  ultimately show thesis using that by blast
qed

lemma partnerD:
  assumes "net_inv w" "n_partner w i = Some j"
  shows "i \<noteq> j" "n_partner w j = Some i" "n_used w i" "n_alive w i \<Longrightarrow> n_conn w i \<noteq> None"
  using assms unfolding net_inv_def net_partners_def by blast+

lemma unconnected_no_partner: "net_inv w \<Longrightarrow> n_alive w i \<Longrightarrow> n_conn w i = None \<Longrightarrow> n_partner w i = None"
  using partnerD(4) [of w i] by (cases "n_partner w i") auto

lemma unused_no_partner: "net_inv w \<Longrightarrow> \<not> n_used w i \<Longrightarrow> n_partner w i = None"
  using partnerD(3) [of w i] by (cases "n_partner w i") auto

lemma no_partner_other: "net_inv w \<Longrightarrow> n_partner w i = None \<Longrightarrow> n_partner w j \<noteq> Some i"
  using partnerD(2) [of w j i] by auto

lemma fifoD:
  "net_inv w \<Longrightarrow> n_conn w i = Some c \<Longrightarrow> n_partner w i = Some j \<Longrightarrow> delivered (n_sent w j) (n_received w i) c"
  "net_inv w \<Longrightarrow> n_conn w i = Some c \<Longrightarrow> n_partner w i = None \<Longrightarrow> cs_recv_buffer c = []"
  unfolding net_inv_def net_fifo_def by fastforce+

lemma connD: "net_inv w \<Longrightarrow> n_conn w i = Some c \<Longrightarrow> n_alive w i" "net_inv w \<Longrightarrow> n_alive w i \<Longrightarrow> n_used w i"
  unfolding net_inv_def net_ids_def by auto

lemma idleD: "net_inv w \<Longrightarrow> n_partner w i = None \<Longrightarrow> n_sent w i = [] \<and> n_received w i = []"
  unfolding net_inv_def net_idle_def by blast

lemma net_invI:
  assumes "\<And>i c j. n_conn w i = Some c \<Longrightarrow> cs_peer_socket_id c = Some j \<Longrightarrow>
        n_partner w i = Some j \<and> (\<exists>d. n_conn w j = Some d \<and> cs_peer_socket_id d = Some i)"
    and "\<And>i j. n_partner w i = Some j \<Longrightarrow>
        i \<noteq> j \<and> n_partner w j = Some i \<and> n_used w i \<and> (n_alive w i \<longrightarrow> n_conn w i \<noteq> None)"
    and "\<And>i. n_alive w i \<Longrightarrow> n_used w i" and "\<And>i c. n_conn w i = Some c \<Longrightarrow> n_alive w i"
    and "\<And>i c. n_conn w i = Some c \<Longrightarrow> n_partner w i = None \<Longrightarrow> cs_recv_buffer c = []"
    and "\<And>i c j. n_conn w i = Some c \<Longrightarrow> n_partner w i = Some j \<Longrightarrow> delivered (n_sent w j) (n_received w i) c"
    and "\<And>i. n_partner w i = None \<Longrightarrow> n_sent w i = [] \<and> n_received w i = []"
  shows "net_inv w"
  unfolding net_inv_def
proof (intro conjI)
  show "net_paired w" unfolding net_paired_def using assms(1) by blast
  show "net_partners w" unfolding net_partners_def using assms(2) by blast
  show "net_ids w" unfolding net_ids_def using assms(3,4) by blast
  show "net_fifo w" unfolding net_fifo_def
  proof (intro allI impI)
    fix i c assume "n_conn w i = Some c"
    then show "case n_partner w i of None \<Rightarrow> cs_recv_buffer c = [] | Some j \<Rightarrow> delivered (n_sent w j) (n_received w i) c"
      using assms(5,6) [of i c] by (cases "n_partner w i") simp_all
  qed
  show "net_idle w" unfolding net_idle_def using assms(7) by blast
qed

lemma net_inv_open:
  assumes w: "net_inv w" and i: "\<not> n_used w i" and c: "c = None \<or> c = Some connection_default"
  shows "net_inv (w\<lparr>n_used := (n_used w)(i := True), n_alive := (n_alive w)(i := True), n_conn := (n_conn w)(i := c)\<rparr>)" (is "net_inv ?w")
proof (rule net_invI)
  have none: "n_partner w i = None" using unused_no_partner [OF w i] .
  have conn: "n_conn w i = None" using connD [OF w, of i] i by (cases "n_conn w i") auto
  show "n_partner ?w k = Some j \<and> (\<exists>e. n_conn ?w j = Some e \<and> cs_peer_socket_id e = Some k)"
    if k: "n_conn ?w k = Some d" and j: "cs_peer_socket_id d = Some j" for k d j
  proof -
    from k j c have "n_conn w k = Some d" by (auto split: if_splits)
    from pairedD [OF w this j] obtain e where "n_conn w j = Some e" "cs_peer_socket_id e = Some k" "n_partner w k = Some j" .
    with conn show ?thesis by auto
  qed
  show "k \<noteq> j \<and> n_partner ?w j = Some k \<and> n_used ?w k \<and> (n_alive ?w k \<longrightarrow> n_conn ?w k \<noteq> None)"
    if "n_partner ?w k = Some j" for k j
    using that none partnerD [OF w, of k j] by auto
  show "n_used ?w k" if "n_alive ?w k" for k using that connD(2) [OF w, of k] by (auto split: if_splits)
  show "n_alive ?w k" if "n_conn ?w k = Some d" for k d using that connD(1) [OF w, of k d] by (auto split: if_splits)
  show "cs_recv_buffer d = []" if "n_conn ?w k = Some d" "n_partner ?w k = None" for k d
    using that c fifoD(2) [OF w, of k d] by (auto split: if_splits)
  show "delivered (n_sent ?w j) (n_received ?w k) d" if "n_conn ?w k = Some d" "n_partner ?w k = Some j" for k d j
    using that none fifoD(1) [OF w, of k d j] by (auto split: if_splits)
  show "n_sent ?w k = [] \<and> n_received ?w k = []" if "n_partner ?w k = None" for k
    using that idleD [OF w, of k] by simp
qed

lemma net_inv_mark:
  assumes w: "net_inv w" and i: "n_alive w i" "n_conn w i = None"
  shows "net_inv (w\<lparr>n_conn := (n_conn w)(i \<mapsto> connection_default)\<rparr>)" (is "net_inv ?w")
proof (rule net_invI)
  have none: "n_partner w i = None" using unconnected_no_partner [OF w i] .
  show "n_partner ?w k = Some j \<and> (\<exists>e. n_conn ?w j = Some e \<and> cs_peer_socket_id e = Some k)"
    if k: "n_conn ?w k = Some d" and j: "cs_peer_socket_id d = Some j" for k d j
  proof -
    from k j have "n_conn w k = Some d" by (auto split: if_splits)
    from pairedD [OF w this j] obtain e where "n_conn w j = Some e" "cs_peer_socket_id e = Some k" "n_partner w k = Some j" .
    with i(2) show ?thesis by auto
  qed
  show "k \<noteq> j \<and> n_partner ?w j = Some k \<and> n_used ?w k \<and> (n_alive ?w k \<longrightarrow> n_conn ?w k \<noteq> None)"
    if "n_partner ?w k = Some j" for k j
    using that none partnerD [OF w, of k j] by auto
  show "n_used ?w k" if "n_alive ?w k" for k using that connD(2) [OF w, of k] by simp
  show "n_alive ?w k" if "n_conn ?w k = Some d" for k d using that i(1) connD(1) [OF w, of k d] by (auto split: if_splits)
  show "cs_recv_buffer d = []" if "n_conn ?w k = Some d" "n_partner ?w k = None" for k d
    using that fifoD(2) [OF w, of k d] by (auto split: if_splits)
  show "delivered (n_sent ?w j) (n_received ?w k) d" if "n_conn ?w k = Some d" "n_partner ?w k = Some j" for k d j
    using that none fifoD(1) [OF w, of k d j] by (auto split: if_splits)
  show "n_sent ?w k = [] \<and> n_received ?w k = []" if "n_partner ?w k = None" for k
    using that idleD [OF w, of k] by simp
qed

lemma net_inv_connect:
  assumes w: "net_inv w" and alive: "n_alive w a" "n_alive w b" and ab: "a \<noteq> b" and conn: "n_conn w a = None" "n_conn w b = None"
  shows "net_inv (w\<lparr>n_conn := (n_conn w)(a \<mapsto> connection_to b, b \<mapsto> connection_to a),
      n_partner := (n_partner w)(a \<mapsto> b, b \<mapsto> a)\<rparr>)" (is "net_inv ?w")
proof (rule net_invI)
  have none: "n_partner w a = None" "n_partner w b = None"
    using unconnected_no_partner [OF w] alive conn by blast+
  have idle: "n_sent w a = []" "n_received w a = []" "n_sent w b = []" "n_received w b = []"
    using idleD [OF w] none by blast+
  have other: "n_partner w k \<noteq> Some a" "n_partner w k \<noteq> Some b" for k
    using no_partner_other [OF w] none by blast+
  show "n_partner ?w k = Some j \<and> (\<exists>e. n_conn ?w j = Some e \<and> cs_peer_socket_id e = Some k)"
    if k: "n_conn ?w k = Some d" and j: "cs_peer_socket_id d = Some j" for k d j
  proof (cases "k = a \<or> k = b")
    case False
    with k have "n_conn w k = Some d" by (auto split: if_splits)
    from pairedD [OF w this j] obtain e where "n_conn w j = Some e" "cs_peer_socket_id e = Some k" "n_partner w k = Some j" .
    with False conn show ?thesis by auto
  qed (use k j ab in \<open>auto split: if_splits\<close>)
  show "k \<noteq> j \<and> n_partner ?w j = Some k \<and> n_used ?w k \<and> (n_alive ?w k \<longrightarrow> n_conn ?w k \<noteq> None)"
    if "n_partner ?w k = Some j" for k j
    using that ab other [of k] partnerD [OF w, of k j] connD(2) [OF w alive(1)] connD(2) [OF w alive(2)]
    by (auto split: if_splits)
  show "n_used ?w k" if "n_alive ?w k" for k using that connD(2) [OF w, of k] by simp
  show "n_alive ?w k" if "n_conn ?w k = Some d" for k d using that alive connD(1) [OF w, of k d] by (auto split: if_splits)
  show "cs_recv_buffer d = []" if "n_conn ?w k = Some d" "n_partner ?w k = None" for k d
    using that fifoD(2) [OF w, of k d] by (auto split: if_splits)
  show "delivered (n_sent ?w j) (n_received ?w k) d" if "n_conn ?w k = Some d" "n_partner ?w k = Some j" for k d j
    using that idle other [of k] fifoD(1) [OF w, of k d j] by (auto simp: delivered_def split: if_splits)
  show "n_sent ?w k = [] \<and> n_received ?w k = []" if "n_partner ?w k = None" for k
    using that idleD [OF w, of k] by (auto split: if_splits)
qed

text \<open>A step that keeps who is connected to whom.\<close>

lemma net_inv_keep_peers:
  assumes w: "net_inv w"
    and same: "n_partner w' = n_partner w" "n_used w' = n_used w" "n_alive w' = n_alive w"
    and peer: "\<And>k. map_option cs_peer_socket_id (n_conn w' k) = map_option cs_peer_socket_id (n_conn w k)"
    and empty: "\<And>k c. n_conn w' k = Some c \<Longrightarrow> n_partner w k = None \<Longrightarrow> cs_recv_buffer c = []"
    and fifo: "\<And>k c j. n_conn w' k = Some c \<Longrightarrow> n_partner w k = Some j \<Longrightarrow> delivered (n_sent w' j) (n_received w' k) c"
    and idle: "\<And>k. n_partner w k = None \<Longrightarrow> n_sent w' k = [] \<and> n_received w' k = []"
  shows "net_inv w'"
proof (rule net_invI)
  have before: "\<exists>c. n_conn w k = Some c \<and> cs_peer_socket_id c = p" if "n_conn w' k = Some d" "cs_peer_socket_id d = p" for k d p
    using that peer [of k] by (cases "n_conn w k") auto
  have after: "\<exists>c. n_conn w' k = Some c \<and> cs_peer_socket_id c = p" if "n_conn w k = Some d" "cs_peer_socket_id d = p" for k d p
    using that peer [of k] by (cases "n_conn w' k") auto
  show "n_partner w' k = Some j \<and> (\<exists>e. n_conn w' j = Some e \<and> cs_peer_socket_id e = Some k)"
    if d: "n_conn w' k = Some d" "cs_peer_socket_id d = Some j" for k d j
  proof -
    from before [OF d] obtain c where "n_conn w k = Some c" "cs_peer_socket_id c = Some j" by blast
    from pairedD [OF w this] obtain e where "n_conn w j = Some e" "cs_peer_socket_id e = Some k" "n_partner w k = Some j" .
    with after [of j e] show ?thesis by (simp add: same)
  qed
  show "k \<noteq> j \<and> n_partner w' j = Some k \<and> n_used w' k \<and> (n_alive w' k \<longrightarrow> n_conn w' k \<noteq> None)"
    if "n_partner w' k = Some j" for k j
    using that partnerD [OF w, of k j] peer [of k] by (auto simp: same)
  show "n_used w' k" if "n_alive w' k" for k using that connD(2) [OF w, of k] by (simp add: same)
  show "n_alive w' k" if "n_conn w' k = Some d" for k d
    using before [OF that refl] connD(1) [OF w, of k] by (auto simp: same)
qed (use empty fifo idle same in auto)

lemma net_inv_send:
  assumes w: "net_inv w" and i: "n_conn w i = Some c" "cs_peer_socket_id c = Some j" and d: "n_conn w j = Some d" "\<not> cs_read_shutdown d"
  shows "net_inv (w\<lparr>n_conn := (n_conn w)(j \<mapsto> d\<lparr>cs_recv_buffer := cs_recv_buffer d @ data\<rparr>),
      n_sent := (n_sent w)(i := n_sent w i @ data)\<rparr>)" (is "net_inv ?w")
proof (rule net_inv_keep_peers [OF w])
  have p: "n_partner w i = Some j" "n_partner w j = Some i" by (rule pairedD [OF w i]; simp)+
  show "cs_recv_buffer e = []" if "n_conn ?w k = Some e" "n_partner w k = None" for k e
    using that p fifoD(2) [OF w, of k e] by (auto split: if_splits)
  show "delivered (n_sent ?w l) (n_received ?w k) e" if e: "n_conn ?w k = Some e" and l: "n_partner w k = Some l" for k e l
  proof (cases "k = j")
    case True
    then show ?thesis using e l p d fifoD(1) [OF w d(1) p(2)] by (auto simp: delivered_def)
  next
    case False
    have "l \<noteq> i" using partnerD(2) [OF w l] p(1) False by auto
    then show ?thesis using e l False fifoD(1) [OF w, of k e l] by simp
  qed
  show "n_sent ?w k = [] \<and> n_received ?w k = []" if "n_partner w k = None" for k
    using that p(1) idleD [OF w, of k] by auto
qed (use d in auto)

lemma net_inv_receive:
  assumes w: "net_inv w" and i: "n_conn w i = Some c" "\<not> cs_read_shutdown c" "cs_recv_buffer c = data @ rest"
  shows "net_inv (w\<lparr>n_conn := (n_conn w)(i \<mapsto> c\<lparr>cs_recv_buffer := rest\<rparr>),
      n_received := (n_received w)(i := n_received w i @ data)\<rparr>)" (is "net_inv ?w")
proof (rule net_inv_keep_peers [OF w])
  show "cs_recv_buffer e = []" if "n_conn ?w k = Some e" "n_partner w k = None" for k e
    using that i fifoD(2) [OF w, of k] by (auto split: if_splits)
  show "delivered (n_sent ?w l) (n_received ?w k) e" if e: "n_conn ?w k = Some e" and l: "n_partner w k = Some l" for k e l
    using e l i fifoD(1) [OF w, of k _ l] by (auto simp: delivered_def split: if_splits)
  show "n_sent ?w k = [] \<and> n_received ?w k = []" if "n_partner w k = None" for k
    using that i fifoD(2) [OF w i(1)] idleD [OF w, of k] by auto
qed (use i in auto)

lemma net_inv_shut_read:
  assumes w: "net_inv w" and i: "n_conn w i = Some c"
  shows "net_inv (w\<lparr>n_conn := (n_conn w)(i \<mapsto> c\<lparr>cs_recv_buffer := [], cs_read_shutdown := True\<rparr>)\<rparr>)" (is "net_inv ?w")
proof (rule net_inv_keep_peers [OF w])
  show "cs_recv_buffer e = []" if "n_conn ?w k = Some e" "n_partner w k = None" for k e
    using that fifoD(2) [OF w, of k e] by (auto split: if_splits)
  show "delivered (n_sent ?w l) (n_received ?w k) e" if e: "n_conn ?w k = Some e" and l: "n_partner w k = Some l" for k e l
    using e l i fifoD(1) [OF w, of k _ l] by (auto simp: delivered_def split: if_splits)
qed (use i idleD [OF w] in auto)

lemma delivered_flags [simp]:
  "delivered s r (c\<lparr>cs_write_shutdown := x\<rparr>) = delivered s r c"
  "delivered s r (c\<lparr>cs_peer_write_shutdown := x\<rparr>) = delivered s r c"
  "delivered s r (c\<lparr>cs_peer_socket_id := p\<rparr>) = delivered s r c"
  by (simp_all add: delivered_def)

lemma net_inv_shut_write:
  assumes w: "net_inv w" and i: "n_conn w i = Some c"
  shows "net_inv (w\<lparr>n_conn := (conn_modify (\<lambda>d. d\<lparr>cs_peer_write_shutdown := True\<rparr>) (cs_peer_socket_id c) (n_conn w))
      (i \<mapsto> c\<lparr>cs_write_shutdown := True\<rparr>)\<rparr>)" (is "net_inv ?w")
proof (rule net_inv_keep_peers [OF w])
  have conn: "\<exists>d. n_conn w k = Some d \<and> cs_recv_buffer e = cs_recv_buffer d \<and> (\<forall>s r. delivered s r e = delivered s r d)"
    if "n_conn ?w k = Some e" for k e
    using that i by (auto simp: conn_modify_def split: if_splits)
  show "map_option cs_peer_socket_id (n_conn ?w k) = map_option cs_peer_socket_id (n_conn w k)" for k
    using i by (auto simp: conn_modify_def option.map_comp comp_def)
  show "cs_recv_buffer e = []" if "n_conn ?w k = Some e" "n_partner w k = None" for k e
    using conn [OF that(1)] that(2) fifoD(2) [OF w, of k] by auto
  show "delivered (n_sent ?w l) (n_received ?w k) e" if e: "n_conn ?w k = Some e" and l: "n_partner w k = Some l" for k e l
    using conn [OF e] l fifoD(1) [OF w, of k _ l] by auto
qed (use idleD [OF w] in auto)

lemma net_inv_close:
  assumes w: "net_inv w" and i: "n_alive w i"
  shows "net_inv (w\<lparr>n_alive := (n_alive w)(i := False),
      n_conn := conn_modify left_alone (Option.bind (n_conn w i) cs_peer_socket_id) ((n_conn w)(i := None))\<rparr>)" (is "net_inv ?w")
proof (rule net_invI)
  have conn: "k \<noteq> i \<and> (\<exists>d. n_conn w k = Some d \<and> cs_recv_buffer e = cs_recv_buffer d \<and> (\<forall>s r. delivered s r e = delivered s r d) \<and>
      (cs_peer_socket_id e = Some j \<longrightarrow> cs_peer_socket_id d = Some j \<and> j \<noteq> i))"
    if e: "n_conn ?w k = Some e" for k e j
  proof -
    from e have k: "k \<noteq> i" by (auto simp: conn_modify_def split: if_splits)
    with e obtain d where d: "n_conn w k = Some d" "e = d \<or> e = left_alone d"
      by (auto simp: conn_modify_def split: if_splits)
    have "j \<noteq> i" if j: "cs_peer_socket_id e = Some j" "cs_peer_socket_id d = Some j"
    proof
      assume "j = i"
      with pairedD [OF w d(1) j(2)] obtain f where "n_conn w i = Some f" "cs_peer_socket_id f = Some k" by metis
      with e k d(1) j \<open>j = i\<close> show False by (auto simp: conn_modify_def left_alone_def)
    qed
    with k d show ?thesis by (auto simp: left_alone_def split: if_splits)
  qed
  have keep: "(n_conn ?w k = None) = (n_conn w k = None)" if "k \<noteq> i" for k using that by (simp add: conn_modify_def)
  show "n_partner ?w k = Some j \<and> (\<exists>f. n_conn ?w j = Some f \<and> cs_peer_socket_id f = Some k)"
    if e: "n_conn ?w k = Some e" "cs_peer_socket_id e = Some j" for k e j
  proof -
    from conn [OF e(1), of j] e(2) obtain d where d: "k \<noteq> i" "n_conn w k = Some d" "cs_peer_socket_id d = Some j" "j \<noteq> i" by blast
    from pairedD [OF w d(2,3)] obtain f where f: "n_conn w j = Some f" "cs_peer_socket_id f = Some k" "n_partner w k = Some j" .
    have "Option.bind (n_conn w i) cs_peer_socket_id \<noteq> Some j"
    proof
      assume "Option.bind (n_conn w i) cs_peer_socket_id = Some j"
      then obtain g where "n_conn w i = Some g" "cs_peer_socket_id g = Some j" by (auto simp: Option.bind_eq_Some_conv)
      from pairedD [OF w this] f d(1) show False by auto
    qed
    then have "\<exists>f'. n_conn ?w j = Some f' \<and> cs_peer_socket_id f' = Some k" using f d by (simp add: conn_modify_def)
    with f(3) show ?thesis by simp
  qed
  show "k \<noteq> j \<and> n_partner ?w j = Some k \<and> n_used ?w k \<and> (n_alive ?w k \<longrightarrow> n_conn ?w k \<noteq> None)"
    if "n_partner ?w k = Some j" for k j
    using that partnerD [OF w, of k j] keep [of k] by auto
  show "n_used ?w k" if "n_alive ?w k" for k using that connD(2) [OF w, of k] by (auto split: if_splits)
  show "n_alive ?w k" if "n_conn ?w k = Some e" for k e using conn [OF that, of i] connD(1) [OF w, of k] by auto
  show "cs_recv_buffer e = []" if "n_conn ?w k = Some e" "n_partner ?w k = None" for k e
    using conn [OF that(1), of i] that(2) fifoD(2) [OF w, of k] by auto
  show "delivered (n_sent ?w l) (n_received ?w k) e" if "n_conn ?w k = Some e" "n_partner ?w k = Some l" for k e l
    using conn [OF that(1), of i] that(2) fifoD(1) [OF w, of k _ l] by auto
qed (use idleD [OF w] in auto)

lemma net_inv_step: "net_inv w \<Longrightarrow> net_step w w' \<Longrightarrow> net_inv w'"
  by (erule net_step.cases; simp only:)
     (simp_all only: net_inv_open net_inv_mark net_inv_connect net_inv_send net_inv_receive net_inv_shut_read
        net_inv_shut_write net_inv_close not_False_eq_True simp_thms)

interpretation net: invariant_system net_new net_step net_inv
  by unfold_locales (rule net_inv_new, rule net_inv_step)

end
