(* ===== verification/Socket_Stream.thy ===== *)
theory Socket_Stream
  imports Socket_Remove Socket_Net
begin

text \<open>
  The socket table implements the network of \<^verbatim>\<open>Socket_Net\<close>: whatever operations are called on it, in whatever
  order, what happens to its stream connections is a run of the network. So a connection delivers what
  was sent, in order.
\<close>

subsection \<open>Calls and histories\<close>

datatype socket_call =
    Call_allocate u32 socket_spec socket_state
  | Call_update_state socket_id socket_state
  | Call_bind_inet socket_id inet_socket_address
  | Call_set_option socket_id datagram_socket_option bool
  | Call_add_membership socket_id socket_multicast_membership
  | Call_drop_membership socket_id socket_multicast_membership
  | Call_bind_unix socket_id string
  | Call_listen socket_id nat
  | Call_enqueue socket_id inet_socket_address
  | Call_accept socket_id
  | Call_connect_pair socket_id socket_id
  | Call_connect_inet socket_id inet_socket_address
  | Call_connect_unix socket_id string
  | Call_send_to socket_id inet_socket_address bytes
  | Call_recv_datagram socket_id nat
  | Call_write socket_id bytes
  | Call_read socket_id nat
  | Call_shutdown socket_id socket_shutdown
  | Call_remove socket_id
  | Call_remove_all u32

fun socket_apply :: "socket_call \<Rightarrow> socket_table \<Rightarrow> socket_table" where
  "socket_apply (Call_allocate pid spec state) t = snd (socket_allocate_with_state pid spec state t)"
| "socket_apply (Call_update_state i state) t = snd (socket_update_state i state t)"
| "socket_apply (Call_bind_inet i address) t = snd (bind_inet i address t)"
| "socket_apply (Call_set_option i opt enabled) t = snd (set_datagram_socket_option i opt enabled t)"
| "socket_apply (Call_add_membership i m) t = snd (add_multicast_membership i m t)"
| "socket_apply (Call_drop_membership i m) t = snd (drop_multicast_membership i m t)"
| "socket_apply (Call_bind_unix i path) t = snd (bind_unix i path t)"
| "socket_apply (Call_listen i backlog) t = snd (socket_listen i backlog t)"
| "socket_apply (Call_enqueue i address) t = snd (enqueue_incoming_tcp_connection i address t)"
| "socket_apply (Call_accept i) t = snd (socket_accept i t)"
| "socket_apply (Call_connect_pair i j) t = snd (connect_pair i j t)"
| "socket_apply (Call_connect_inet i address) t = snd (connect_to_bound_inet_stream i address t)"
| "socket_apply (Call_connect_unix i path) t = snd (connect_to_bound_unix_stream i path t)"
| "socket_apply (Call_send_to i address data) t = snd (send_to_bound_udp_socket i address data t)"
| "socket_apply (Call_recv_datagram i n) t = snd (recv_datagram i n t)"
| "socket_apply (Call_write i data) t = snd (socket_write i data t)"
| "socket_apply (Call_read i n) t = snd (socket_read i n t)"
| "socket_apply (Call_shutdown i how) t = snd (socket_shut_down i how t)"
| "socket_apply (Call_remove i) t = (case socket_remove i t of None \<Rightarrow> t | Some (_, t1) \<Rightarrow> t1)"
| "socket_apply (Call_remove_all pid) t = (case remove_all_for_pid pid t of None \<Rightarrow> t | Some (_, t1) \<Rightarrow> t1)"

text \<open>The bytes a call accepts from the writer \<open>k\<close>, and those it hands to the reader \<open>k\<close>.\<close>

definition accepted_from :: "socket_call \<Rightarrow> socket_table \<Rightarrow> socket_id \<Rightarrow> bytes" where
  "accepted_from c t k =
     (case c of
        Call_write i data \<Rightarrow> (case fst (socket_write i data t) of Inr _ \<Rightarrow> if k = i then data else [] | Inl _ \<Rightarrow> [])
      | _ \<Rightarrow> [])"

definition handed_to :: "socket_call \<Rightarrow> socket_table \<Rightarrow> socket_id \<Rightarrow> bytes" where
  "handed_to c t k =
     (case c of
        Call_read i n \<Rightarrow> (case fst (socket_read i n t) of Inr (Some data) \<Rightarrow> if k = i then data else [] | _ \<Rightarrow> [])
      | _ \<Rightarrow> [])"

definition conn_of :: "socket_table \<Rightarrow> socket_id \<Rightarrow> connection_state option" where
  "conn_of t i = Option.bind (bt_get (st_sockets t) i) so_connection_state"

text \<open>The last peer the table recorded for each socket.\<close>

definition last_peers :: "(socket_id \<Rightarrow> socket_id option) \<Rightarrow> (socket_id \<Rightarrow> connection_state option) \<Rightarrow> socket_id \<Rightarrow> socket_id option" where
  "last_peers old conn i = (case Option.bind (conn i) cs_peer_socket_id of None \<Rightarrow> old i | Some j \<Rightarrow> Some j)"

record socket_history =
  h_table :: socket_table
  h_sent :: "socket_id \<Rightarrow> bytes"
  h_received :: "socket_id \<Rightarrow> bytes"
  h_partner :: "socket_id \<Rightarrow> socket_id option"

definition history_new :: socket_history where
  "history_new = \<lparr>h_table = socket_table_new, h_sent = (\<lambda>_. []), h_received = (\<lambda>_. []), h_partner = (\<lambda>_. None)\<rparr>"

definition history_call :: "socket_call \<Rightarrow> socket_history \<Rightarrow> socket_history" where
  "history_call c h =
     (let t = h_table h; t1 = socket_apply c t
      in \<lparr>h_table = t1, h_sent = (\<lambda>k. h_sent h k @ accepted_from c t k), h_received = (\<lambda>k. h_received h k @ handed_to c t k),
          h_partner = last_peers (h_partner h) (conn_of t1)\<rparr>)"

definition history_of :: "socket_call list \<Rightarrow> socket_history" where
  "history_of calls = fold history_call calls history_new"

subsection \<open>The simulation\<close>

definition next_fresh :: "socket_table \<Rightarrow> socket_id" where
  "next_fresh t = (if st_next_socket_id t = 0 then 1 else st_next_socket_id t)"

text \<open>A socket with a connection is connected, and one with a queue of pending connections is listening.\<close>

definition state_ok :: "socket_record \<Rightarrow> bool" where
  "state_ok r \<longleftrightarrow> (so_connection_state r \<noteq> None \<longrightarrow> so_state r = Connected) \<and>
     (so_listener_state r \<noteq> None \<longrightarrow> so_state r = Listening)"

definition states_ok :: "socket_table \<Rightarrow> bool" where
  "states_ok t \<longleftrightarrow> (\<forall>i r. bt_get (st_sockets t) i = Some r \<longrightarrow> state_ok r)"

definition represents :: "socket_table \<Rightarrow> socket_net \<Rightarrow> bool" where
  "represents t w \<longleftrightarrow> n_conn w = conn_of t \<and> n_alive w = (\<lambda>i. bt_get (st_sockets t) i \<noteq> None) \<and>
     (\<forall>i. n_used w i \<longrightarrow> i < next_fresh t) \<and> states_ok t"

text \<open>From \<open>w\<close> the network can get to where it represents \<open>t'\<close>, with the given bytes sent and received on the way.\<close>

definition simulated :: "socket_table \<Rightarrow> (socket_id \<Rightarrow> bytes) \<Rightarrow> (socket_id \<Rightarrow> bytes) \<Rightarrow> socket_net \<Rightarrow> bool" where
  "simulated t' sent received w \<longleftrightarrow> (\<exists>w'. net_step\<^sup>*\<^sup>* w w' \<and> represents t' w' \<and> n_sent w' = (\<lambda>k. n_sent w k @ sent k) \<and>
     n_received w' = (\<lambda>k. n_received w k @ received k) \<and> n_partner w' = last_peers (n_partner w) (conn_of t'))"

text \<open>Most operations leave every connection alone.\<close>

definition quiet :: "socket_table \<Rightarrow> socket_table \<Rightarrow> bool" where
  "quiet t t' \<longleftrightarrow> (\<forall>i. (bt_get (st_sockets t') i = None) = (bt_get (st_sockets t) i = None)) \<and> conn_of t' = conn_of t \<and>
     next_fresh t \<le> next_fresh t' \<and> (states_ok t \<longrightarrow> states_ok t')"

lemma last_peers_same:
  assumes "net_inv w" "n_conn w = conn" "n_partner w = p"
  shows "last_peers p conn = p"
proof
  fix i
  show "last_peers p conn i = p i"
  proof (cases "Option.bind (conn i) cs_peer_socket_id")
    case (Some j)
    then obtain c where "conn i = Some c" "cs_peer_socket_id c = Some j" by (auto simp: Option.bind_eq_Some_conv)
    then have "n_partner w i = Some j" using pairedD [OF assms(1), of i c j] assms(2) by metis
    with Some assms(3) show ?thesis by (simp add: last_peers_def)
  qed (simp add: last_peers_def)
qed

lemma represents_quiet: "represents t w \<Longrightarrow> quiet t t' \<Longrightarrow> represents t' w"
  unfolding represents_def quiet_def by (auto intro: less_le_trans)

lemma simulated_quiet:
  assumes "net_inv w" "represents t w" "quiet t t'"
  shows "simulated t' (\<lambda>_. []) (\<lambda>_. []) w"
proof -
  have "represents t' w" using assms(2,3) by (rule represents_quiet)
  moreover have "last_peers (n_partner w) (conn_of t') = n_partner w"
    using calculation assms(1) by (intro last_peers_same) (auto simp: represents_def)
  ultimately show ?thesis unfolding simulated_def by auto
qed

text \<open>Operations that end in one step of the network.\<close>

lemma simulated_step:
  assumes "net_inv w" "net_step w w'" "represents t' w'" "n_sent w' = (\<lambda>k. n_sent w k @ sent k)"
    "n_received w' = (\<lambda>k. n_received w k @ received k)" "n_partner w' = n_partner w"
  shows "simulated t' sent received w"
proof -
  have "last_peers (n_partner w) (conn_of t') = n_partner w'"
    using assms net_inv_step [OF assms(1,2)] by (metis last_peers_same represents_def)
  then show ?thesis using assms unfolding simulated_def by (intro exI [of _ w']) auto
qed

lemma conn_of_insert:
  "conn_of (t\<lparr>st_sockets := bt_insert i r m\<rparr>) = (\<lambda>k. if k = i then so_connection_state r else Option.bind (bt_get m k) so_connection_state)"
  by (auto simp: conn_of_def fun_eq_iff)

subsection \<open>Operations that leave connections alone\<close>

lemma quiet_refl [simp, intro]: "quiet t t"
  by (simp add: quiet_def)

lemma quiet_insert:
  assumes "bt_get (st_sockets t) i = Some r" "st_sockets t' = bt_insert i r' (st_sockets t)"
    "st_next_socket_id t' = st_next_socket_id t" "so_connection_state r' = so_connection_state r"
    "state_ok r \<longrightarrow> state_ok r'"
  shows "quiet t t'"
  unfolding quiet_def
proof (intro conjI allI impI)
  show "(bt_get (st_sockets t') k = None) = (bt_get (st_sockets t) k = None)" for k using assms(1,2) by simp
  show "conn_of t' = conn_of t" using assms(1,2,4) by (auto simp: conn_of_def fun_eq_iff)
  show "next_fresh t \<le> next_fresh t'" using assms(3) by (simp add: next_fresh_def)
  show "states_ok t'" if "states_ok t" using that assms by (auto simp: states_ok_def)
qed

lemma states_okD: "states_ok t \<Longrightarrow> bt_get (st_sockets t) i = Some r \<Longrightarrow> so_state r \<noteq> Connected \<Longrightarrow> so_connection_state r = None"
  unfolding states_ok_def state_ok_def by blast

lemma next_register_bound [simp]: "st_next_socket_id (register_bound_inet_socket spec a i t) = st_next_socket_id t"
  by (simp add: register_bound_inet_socket_def)

lemma quiet_bind_inet: "states_ok t \<Longrightarrow> quiet t (snd (bind_inet i a t))"
  by (auto simp: bind_inet_def Let_def split: option.splits simp: state_ok_def listener_of_def ok_or_def intro!: quiet_insert dest: states_okD)

lemma quiet_bind_unix: "states_ok t \<Longrightarrow> quiet t (snd (bind_unix i p t))"
  by (auto simp: bind_unix_def Let_def split: option.splits sum.splits simp: state_ok_def listener_of_def ok_or_def intro!: quiet_insert dest: states_okD)

lemma quiet_set_option: "quiet t (snd (set_datagram_socket_option i opt enabled t))"
  by (auto simp: set_datagram_socket_option_def Let_def split: option.splits sum.splits simp: state_ok_def listener_of_def ok_or_def intro!: quiet_insert)

lemma quiet_add_membership: "quiet t (snd (add_multicast_membership i m t))"
  by (auto simp: add_multicast_membership_def Let_def split: option.splits sum.splits simp: state_ok_def listener_of_def ok_or_def intro!: quiet_insert)

lemma quiet_drop_membership: "quiet t (snd (drop_multicast_membership i m t))"
  by (auto simp: drop_multicast_membership_def Let_def split: option.splits sum.splits simp: state_ok_def listener_of_def ok_or_def intro!: quiet_insert)

lemma quiet_listen: "states_ok t \<Longrightarrow> quiet t (snd (socket_listen i backlog t))"
  by (auto simp: socket_listen_def Let_def split: option.splits simp: state_ok_def listener_of_def ok_or_def intro!: quiet_insert dest: states_okD)

lemma quiet_enqueue: "quiet t (snd (enqueue_incoming_tcp_connection i a t))"
  by (auto simp: enqueue_incoming_tcp_connection_def Let_def split: option.splits sum.splits simp: state_ok_def listener_of_def ok_or_def intro!: quiet_insert)

lemma quiet_send_to: "quiet t (snd (send_to_bound_udp_socket i a data t))"
  by (auto simp: send_to_bound_udp_socket_def Let_def split: option.splits sum.splits simp: state_ok_def listener_of_def ok_or_def intro!: quiet_insert)

lemma quiet_recv_datagram: "quiet t (snd (recv_datagram i n t))"
  by (auto simp: recv_datagram_def Let_def split: option.splits sum.splits list.splits simp: state_ok_def listener_of_def ok_or_def intro!: quiet_insert)

subsection \<open>New sockets\<close>

definition usable :: "socket_table \<Rightarrow> bool" where
  "usable t \<longleftrightarrow> st_next_socket_id t \<noteq> - 1"

lemma next_socket_id_eq: "next_socket_id t = (next_fresh t, t\<lparr>st_next_socket_id := word_saturating_add (next_fresh t) 1\<rparr>)"
  by (simp add: next_socket_id_def next_fresh_def Let_def)

lemma word_less_Suc:
  assumes "(x :: u64) \<noteq> - 1"
  shows "x < x + 1"
proof -
  from assms have "x < - 1" using word_order.not_eq_extremum [of x] by simp
  then show ?thesis unfolding word_less_nat_alt
    by (simp add: unat_word_ariths unsigned_minus_1_eq_mask mask_eq_exp_minus_1)
qed

lemma next_fresh_usable:
  assumes "usable t"
  shows "next_fresh t < word_saturating_add (next_fresh t) 1" "word_saturating_add (next_fresh t) 1 \<noteq> 0"
proof -
  have "next_fresh t \<noteq> - 1" using assms by (auto simp: usable_def next_fresh_def)
  then have "next_fresh t < - 1" using word_order.not_eq_extremum [of "next_fresh t"] by simp
  with word_less_Suc [OF \<open>next_fresh t \<noteq> - 1\<close>] show *: "next_fresh t < word_saturating_add (next_fresh t) 1"
    unfolding word_saturating_add_def by presburger
  then show "word_saturating_add (next_fresh t) 1 \<noteq> 0" by auto
qed

lemma fresh_unused: "represents t w \<Longrightarrow> \<not> n_used w (next_fresh t)"
  unfolding represents_def by blast

lemma fresh_absent: "net_inv w \<Longrightarrow> represents t w \<Longrightarrow> bt_get (st_sockets t) (next_fresh t) = None"
  using fresh_unused [of t w] connD(2) [of w "next_fresh t"]
  by (cases "bt_get (st_sockets t) (next_fresh t)") (auto simp: represents_def)

abbreviation opened :: "socket_id \<Rightarrow> connection_state option \<Rightarrow> socket_net \<Rightarrow> socket_net" where
  "opened i c w \<equiv> w\<lparr>n_used := (n_used w)(i := True), n_alive := (n_alive w)(i := True), n_conn := (n_conn w)(i := c)\<rparr>"

lemma represents_opened:
  assumes "usable t" "represents t w" "st_sockets t' = bt_insert (next_fresh t) r (st_sockets t)"
    "st_next_socket_id t' = word_saturating_add (next_fresh t) 1"
    "state_ok r"
  shows "represents t' (opened (next_fresh t) (so_connection_state r) w)"
  unfolding represents_def
proof (intro conjI allI impI)
  note fresh = next_fresh_usable [OF assms(1)]
  have next_t': "next_fresh t' = word_saturating_add (next_fresh t) 1" using fresh assms(4) by (simp add: next_fresh_def)
  show "i < next_fresh t'" if "n_used (opened (next_fresh t) (so_connection_state r) w) i" for i
    using that assms(2) fresh(1) unfolding next_t' represents_def by (auto split: if_splits intro: less_trans)
  show "states_ok t'" using assms by (auto simp: represents_def states_ok_def)
qed (use assms in \<open>auto simp: represents_def conn_of_def fun_eq_iff\<close>)

lemma simulated_open:
  assumes "net_inv w" "usable t" "represents t w" "st_sockets t' = bt_insert (next_fresh t) r (st_sockets t)"
    "st_next_socket_id t' = word_saturating_add (next_fresh t) 1" "state_ok r"
    "so_connection_state r = None \<or> so_connection_state r = Some connection_default"
  shows "simulated t' (\<lambda>_. []) (\<lambda>_. []) w"
proof (rule simulated_step [OF assms(1)])
  show "net_step w (opened (next_fresh t) (so_connection_state r) w)"
    using fresh_unused [OF assms(3)] assms(7) by (rule net_open)
  show "represents t' (opened (next_fresh t) (so_connection_state r) w)"
    using assms by (intro represents_opened) auto
qed simp_all

lemma default_connection_cases:
  "default_connection_state spec state = None \<or> default_connection_state spec state = Some connection_default"
  by (simp add: default_connection_state_def)

lemma default_connection_connected: "state = Connected \<or> default_connection_state spec state = None"
  by (simp add: default_connection_state_def)

lemma next_own_socket [simp]: "st_next_socket_id (own_socket p i t) = st_next_socket_id t"
  by (simp add: own_socket_def)

lemma simulated_allocate:
  assumes "net_inv w" "usable t" "represents t w"
  shows "simulated (snd (socket_allocate_with_state pid spec state t)) (\<lambda>_. []) (\<lambda>_. []) w"
  using assms default_connection_cases [of spec state] default_connection_connected [of state spec]
  by (auto simp: socket_allocate_with_state_def next_socket_id_eq put_socket_def Let_def state_ok_def intro!: simulated_open)

lemma simulated_accept:
  assumes w: "net_inv w" and t: "usable t" "represents t w"
  shows "simulated (snd (socket_accept i t)) (\<lambda>_. []) (\<lambda>_. []) w"
proof (cases "\<exists>r ls p ps. bt_get (st_sockets t) i = Some r \<and> listener_of i r = Inr ls \<and> ls_pending_accepts ls = p # ps")
  case False
  then have "snd (socket_accept i t) = t"
    by (auto simp: socket_accept_def split: option.splits sum.splits list.splits)
  then show ?thesis using simulated_quiet [OF w t(2) quiet_refl] by simp
next
  case True
  then obtain r ls p ps where r: "bt_get (st_sockets t) i = Some r" "listener_of i r = Inr ls" "ls_pending_accepts ls = p # ps" by blast
  let ?t = "t\<lparr>st_sockets := bt_insert i (r\<lparr>so_listener_state := Some (ls\<lparr>ls_pending_accepts := ps\<rparr>)\<rparr>) (st_sockets t)\<rparr>"
  have q: "quiet t ?t"
    by (rule quiet_insert [OF r(1), where r' = "r\<lparr>so_listener_state := Some (ls\<lparr>ls_pending_accepts := ps\<rparr>)\<rparr>"])
       (use r(2) in \<open>simp_all add: state_ok_def listener_of_def split: if_splits\<close>)
  show ?thesis
  proof (cases "pc_accepted_socket_id p")
    case None
    have "usable ?t" using t(1) by (simp add: usable_def)
    from simulated_open [OF w this represents_quiet [OF t(2) q]] default_connection_cases [of "so_spec r" Connected] show ?thesis
      by (simp add: socket_accept_def r None next_socket_id_eq put_socket_def state_ok_def Let_def)
  next
    case (Some a)
    then have "snd (socket_accept i t) = ?t" by (simp add: socket_accept_def r Let_def)
    then show ?thesis using simulated_quiet [OF w t(2) q] by simp
  qed
qed

subsection \<open>Connecting\<close>

lemma simulated_connect:
  assumes w: "net_inv w" and alive: "n_alive w i" "n_alive w j" "i \<noteq> j" and conn: "n_conn w i = None" "n_conn w j = None"
    and t': "represents t' (w\<lparr>n_conn := (n_conn w)(i \<mapsto> connection_to j, j \<mapsto> connection_to i),
      n_partner := (n_partner w)(i \<mapsto> j, j \<mapsto> i)\<rparr>)" (is "represents t' ?w")
  shows "simulated t' (\<lambda>_. []) (\<lambda>_. []) w"
proof -
  have conn': "conn_of t' = (n_conn w)(i \<mapsto> connection_to j, j \<mapsto> connection_to i)"
    using t' by (simp add: represents_def)
  have "last_peers (n_partner w) (conn_of t') k = n_partner ?w k" for k
  proof (cases "k = i \<or> k = j")
    case True
    then show ?thesis unfolding conn' using alive(3) by (auto simp: last_peers_def)
  next
    case False
    have "last_peers (n_partner ?w) (conn_of t') = n_partner ?w"
      unfolding conn' by (rule last_peers_same [OF net_inv_connect [OF w alive conn]]) simp_all
    then have "last_peers (n_partner ?w) (conn_of t') k = n_partner ?w k" by simp
    with False show ?thesis
      by (auto simp: last_peers_def split: option.splits)
  qed
  then have "n_partner ?w = last_peers (n_partner w) (conn_of t')" by auto
  then show ?thesis
    using t' net_connect [OF alive conn] unfolding simulated_def by (intro exI [of _ ?w]) auto
qed

lemma simulated_after:
  assumes "net_step w w1" "n_sent w1 = n_sent w" "n_received w1 = n_received w" "n_partner w1 = n_partner w"
    "simulated t' sent received w1"
  shows "simulated t' sent received w"
proof -
  from assms(5) obtain w' where "net_step\<^sup>*\<^sup>* w1 w'" "represents t' w'" "n_sent w' = (\<lambda>k. n_sent w1 k @ sent k)"
      "n_received w' = (\<lambda>k. n_received w1 k @ received k)" "n_partner w' = last_peers (n_partner w1) (conn_of t')"
    unfolding simulated_def by blast
  with assms(1-4) show ?thesis unfolding simulated_def
    by (intro exI [of _ w']) (simp add: converse_rtranclp_into_rtranclp)
qed

lemma simulated_connect_pair:
  assumes w: "net_inv w" and t: "represents t w"
  shows "simulated (snd (connect_pair i j t)) (\<lambda>_. []) (\<lambda>_. []) w"
proof (cases "i \<noteq> j \<and> (\<exists>a b. bt_get (st_sockets t) i = Some a \<and> bt_get (st_sockets t) j = Some b \<and> validate_connect_pair a b = Inr ())")
  case False
  then have "snd (connect_pair i j t) = t" by (auto simp: connect_pair_def split: option.splits sum.splits)
  then show ?thesis using simulated_quiet [OF w t quiet_refl] by simp
next
  case True
  then obtain a b where ij: "i \<noteq> j" and ab: "bt_get (st_sockets t) i = Some a" "bt_get (st_sockets t) j = Some b"
      and valid: "validate_connect_pair a b = Inr ()" by blast
  have "so_connection_state a = None" "so_connection_state b = None"
    using valid t ab states_okD [of t] by (auto simp: validate_connect_pair_def represents_def split: if_splits)
  then show ?thesis using t ij ab valid
    by (intro simulated_connect [OF w, of i j])
       (auto simp: connect_pair_def represents_def conn_of_def states_ok_def state_ok_def next_fresh_def Let_def fun_eq_iff)
qed

lemma quiet_skip_id:
  assumes "usable t"
  shows "quiet t (snd (next_socket_id t))"
proof -
  have "next_fresh (snd (next_socket_id t)) = word_saturating_add (next_fresh t) 1"
    using next_fresh_usable(2) [OF assms] unfolding next_socket_id_eq by (subst next_fresh_def) simp
  then have "next_fresh t \<le> next_fresh (snd (next_socket_id t))" using next_fresh_usable(1) [OF assms] by simp
  then show ?thesis by (simp add: quiet_def conn_of_def states_ok_def next_socket_id_eq fun_eq_iff)
qed

text \<open>A connection to a listener either changes nothing but the next identifier or connects the client.\<close>

lemma connect_to_listener_cases:
  obtains "snd (connect_to_listener i l endpoints t) = t"
  | "snd (connect_to_listener i l endpoints t) = snd (next_socket_id t)"
  | client listener ls la pa lp pp where "i \<noteq> l" "bt_get (st_sockets t) i = Some client" "bt_get (st_sockets t) l = Some listener"
    "so_state client \<noteq> Connected" "so_state listener = Listening"
    "st_sockets (snd (connect_to_listener i l endpoints t)) =
       bt_insert (next_fresh t) (accepted_record (next_fresh t) i listener la pa lp pp)
         (bt_insert i (connected_client (next_fresh t) la lp client) (bt_insert l (listener\<lparr>so_listener_state := ls\<rparr>) (st_sockets t)))"
    "st_next_socket_id (snd (connect_to_listener i l endpoints t)) = word_saturating_add (next_fresh t) 1"
proof (cases "i = l \<or> bt_get (st_sockets t) i = None")
  case True
  then have "snd (connect_to_listener i l endpoints t) = t" by (auto simp: connect_to_listener_def)
  then show thesis by (rule that(1))
next
  case client: False
  then obtain client where c: "bt_get (st_sockets t) i = Some client" by auto
  show thesis
  proof (cases "\<exists>listener ls. bt_get (st_sockets t) l = Some listener \<and> validate_connect_to_listener client listener = Inr () \<and>
      so_listener_state listener = Some ls \<and> \<not> length (ls_pending_accepts ls) \<ge> ls_backlog ls")
    case False
    then have "snd (connect_to_listener i l endpoints t) = snd (next_socket_id t)"
      using c client by (cases "bt_get (st_sockets t) l") (auto simp: connect_to_listener_def next_socket_id_eq split: option.splits sum.splits)
    then show thesis by (rule that(2))
  next
    case True
    then obtain listener ls where l: "bt_get (st_sockets t) l = Some listener" "validate_connect_to_listener client listener = Inr ()"
        "so_listener_state listener = Some ls" "\<not> length (ls_pending_accepts ls) \<ge> ls_backlog ls" by blast
    obtain la pa lp pp where ends: "endpoints client listener = (la, pa, lp, pp)" by (cases "endpoints client listener")
    have "so_state client \<noteq> Connected" "so_state listener = Listening"
      using l(2) by (auto simp: validate_connect_to_listener_def split: if_splits)
    with l c client ends show thesis
      by (intro that(3) [of client listener la pa lp pp
            "Some (push_pending \<lparr>pc_peer_address = pa, pc_peer_unix_path = pp, pc_accepted_socket_id = Some (next_fresh t)\<rparr> ls)"])
         (simp_all add: connect_to_listener_def next_socket_id_eq Let_def)
  qed
qed

lemma represents_connected:
  assumes t: "represents t w" and usable: "usable t" and a: "bt_get (st_sockets t) (next_fresh t) = None"
    and il: "i \<noteq> l" "bt_get (st_sockets t) i = Some client" "bt_get (st_sockets t) l = Some listener"
    and conn: "so_connection_state client = None" "so_connection_state listener = None"
    and t': "st_sockets t' = bt_insert (next_fresh t) acc (bt_insert i client' (bt_insert l listener' (st_sockets t)))"
      "st_next_socket_id t' = word_saturating_add (next_fresh t) 1"
    and acc: "so_connection_state acc = Some (connection_to i)" "state_ok acc"
      "so_connection_state client' = Some (connection_to (next_fresh t))" "state_ok client'"
      "so_connection_state listener' = None" "state_ok listener'"
    and w1: "w1 = opened (next_fresh t) None w"
  shows "represents t' (w1\<lparr>n_conn := (n_conn w1)(i \<mapsto> connection_to (next_fresh t), next_fresh t \<mapsto> connection_to i),
    n_partner := (n_partner w1)(i \<mapsto> next_fresh t, next_fresh t \<mapsto> i)\<rparr>)" (is "represents t' ?w")
  unfolding represents_def
proof (intro conjI allI impI)
  have ne: "next_fresh t \<noteq> i" "next_fresh t \<noteq> l" using a il by auto
  note fresh = next_fresh_usable [OF usable]
  show "n_conn ?w = conn_of t'"
    using t ne il conn acc by (auto simp: w1 conn_of_def t' represents_def fun_eq_iff)
  show "n_alive ?w = (\<lambda>k. bt_get (st_sockets t') k \<noteq> None)"
    using t il by (auto simp: w1 t' represents_def fun_eq_iff)
  have "next_fresh t' = word_saturating_add (next_fresh t) 1" using fresh(2) t'(2) by (subst next_fresh_def) simp
  then show "k < next_fresh t'" if "n_used ?w k" for k
    using that t fresh(1) by (auto simp: w1 represents_def split: if_splits intro: less_trans)
  show "states_ok t'"
    using t acc by (auto simp: states_ok_def represents_def t' split: if_splits)
qed

lemma simulated_connect_to_listener:
  assumes w: "net_inv w" and t: "usable t" "represents t w"
  shows "simulated (snd (connect_to_listener i l endpoints t)) (\<lambda>_. []) (\<lambda>_. []) w"
proof (cases rule: connect_to_listener_cases [of i l endpoints t])
  case 1
  then show ?thesis using simulated_quiet [OF w t(2) quiet_refl] by simp
next
  case 2
  then show ?thesis using simulated_quiet [OF w t(2) quiet_skip_id [OF t(1)]] by simp
next
  case (3 client listener ls la pa lp pp)
  let ?a = "next_fresh t" and ?t' = "snd (connect_to_listener i l endpoints t)"
  let ?w1 = "opened ?a None w"
  have conn: "so_connection_state client = None" "so_connection_state listener = None"
    using 3 t(2) states_okD [of t] by (auto simp: represents_def)
  note a = fresh_absent [OF w t(2)]
  have step: "net_step w ?w1" using fresh_unused [OF t(2)] by (intro net_open) simp_all
  have rep: "represents ?t' (?w1\<lparr>n_conn := (n_conn ?w1)(i \<mapsto> connection_to ?a, ?a \<mapsto> connection_to i),
      n_partner := (n_partner ?w1)(i \<mapsto> ?a, ?a \<mapsto> i)\<rparr>)"
    using conn by (intro represents_connected [OF t(2,1) a 3(1-3) conn 3(6,7)]) (simp_all add: accepted_record_def connected_client_def state_ok_def 3(5))
  have "simulated ?t' (\<lambda>_. []) (\<lambda>_. []) ?w1"
  proof (rule simulated_connect [OF net_inv_step [OF w step] _ _ _ _ _ rep])
    show "i \<noteq> ?a" using a 3 by auto
    then show "n_conn ?w1 i = None" "n_alive ?w1 i" using 3 conn t(2) by (simp_all add: represents_def conn_of_def)
  qed simp_all
  then show ?thesis by (rule simulated_after [OF step, rotated 3]) simp_all
qed

subsection \<open>Changing one connection\<close>

text \<open>An insertion that changes the connection of a socket to \<open>c\<close>.\<close>

lemma represents_conn_insert:
  assumes "represents t w" "bt_get (st_sockets t) i = Some r" "st_sockets t' = bt_insert i r' (st_sockets t)"
    "st_next_socket_id t' = st_next_socket_id t" "so_connection_state r' = Some c" "state_ok r'"
    "n_conn w' = (n_conn w)(i \<mapsto> c)" "n_alive w' = n_alive w" "n_used w' = n_used w"
  shows "represents t' w'"
  using assms by (auto simp: represents_def conn_of_def states_ok_def next_fresh_def fun_eq_iff)

lemma represents_conn_put:
  assumes "represents t w" "bt_get (st_sockets t) i = Some r" "so_state r = Connected"
    "n_conn w' = (n_conn w)(i \<mapsto> c)" "n_alive w' = n_alive w" "n_used w' = n_used w"
  shows "represents (t\<lparr>st_sockets := bt_insert i (r\<lparr>so_connection_state := Some c\<rparr>) (st_sockets t)\<rparr>) w'"
proof (rule represents_conn_insert [OF assms(1,2), where r' = "r\<lparr>so_connection_state := Some c\<rparr>"])
  have "state_ok r" using assms(1,2) by (simp add: represents_def states_ok_def)
  then show "state_ok (r\<lparr>so_connection_state := Some c\<rparr>)" using assms(3) by (simp add: state_ok_def)
qed (use assms in simp_all)

lemma conn_of_Some: "bt_get (st_sockets t) i = Some r \<Longrightarrow> conn_of t i = so_connection_state r"
  by (simp add: conn_of_def)

lemma simulated_update_state:
  assumes w: "net_inv w" and t: "represents t w"
  shows "simulated (snd (socket_update_state i state t)) (\<lambda>_. []) (\<lambda>_. []) w"
proof (cases "\<exists>r. bt_get (st_sockets t) i = Some r \<and> validate_state_transition (so_state r) state = Inr ()")
  case False
  then have "snd (socket_update_state i state t) = t" by (auto simp: socket_update_state_def split: option.splits sum.splits)
  then show ?thesis using simulated_quiet [OF w t quiet_refl] by simp
next
  case True
  then obtain r where r: "bt_get (st_sockets t) i = Some r" and valid: "validate_state_transition (so_state r) state = Inr ()" by blast
  have conn: "so_state r \<noteq> Connected \<Longrightarrow> so_connection_state r = None" using t r states_okD [of t i r] by (simp add: represents_def)
  let ?t' = "snd (socket_update_state i state t)"
  show ?thesis
  proof (cases "state = Connected \<and> supports_connection_lifecycle (so_spec r) \<and> so_connection_state r = None")
    case True
    then have t': "st_sockets ?t' = bt_insert i (r\<lparr>so_state := Connected, so_listener_state := None,
          so_connection_state := Some connection_default\<rparr>) (st_sockets t)" "st_next_socket_id ?t' = st_next_socket_id t"
      using r valid by (simp_all add: socket_update_state_def unwrap_or_def Let_def)
    show ?thesis
    proof (rule simulated_step [OF w])
      show "net_step w (w\<lparr>n_conn := (n_conn w)(i \<mapsto> connection_default)\<rparr>)"
        using True r t by (intro net_mark) (simp_all add: represents_def conn_of_Some)
      show "represents ?t' (w\<lparr>n_conn := (n_conn w)(i \<mapsto> connection_default)\<rparr>)"
        by (rule represents_conn_insert [OF t r t']) (simp_all add: state_ok_def)
    qed simp_all
  next
    case False
    obtain r' where r': "st_sockets ?t' = bt_insert i r' (st_sockets t)" "so_connection_state r' = so_connection_state r"
        "so_state r' = state" "so_listener_state r' = (if state = Listening then so_listener_state r else None)"
    proof (rule that)
      show "so_connection_state (the (bt_get (st_sockets ?t') i)) = so_connection_state r"
        "so_state (the (bt_get (st_sockets ?t') i)) = state"
        "so_listener_state (the (bt_get (st_sockets ?t') i)) = (if state = Listening then so_listener_state r else None)"
        "st_sockets ?t' = bt_insert i (the (bt_get (st_sockets ?t') i)) (st_sockets t)"
        using r valid False conn
        by (auto simp: socket_update_state_def validate_state_transition_def unwrap_or_def Let_def split: if_splits option.splits)
    qed
    have "state = Connected" if "so_state r = Connected"
      using that valid by (auto simp: validate_state_transition_def split: if_splits)
    then have "quiet t ?t'" using r' r valid
      by (intro quiet_insert [OF r r'(1)]) (auto simp: state_ok_def socket_update_state_def Let_def split: sum.splits)
    then show ?thesis by (rule simulated_quiet [OF w t])
  qed
qed

lemma accepted_from_other [simp]: "\<not> (\<exists>i data. c = Call_write i data) \<Longrightarrow> accepted_from c t = (\<lambda>_. [])"
  by (cases c) (simp_all add: accepted_from_def fun_eq_iff)

lemma handed_to_other [simp]: "\<not> (\<exists>i n. c = Call_read i n) \<Longrightarrow> handed_to c t = (\<lambda>_. [])"
  by (cases c) (simp_all add: handed_to_def fun_eq_iff)

lemma simulated_write:
  assumes w: "net_inv w" and t: "represents t w"
  shows "simulated (snd (socket_write i data t)) (accepted_from (Call_write i data) t) (\<lambda>_. []) w"
proof (cases "fst (socket_write i data t)")
  case (Inl e)
  then have "snd (socket_write i data t) = t" "accepted_from (Call_write i data) t = (\<lambda>_. [])"
    by (auto simp: socket_write_def accepted_from_def fun_eq_iff split: option.splits if_splits)
  then show ?thesis using simulated_quiet [OF w t quiet_refl] by simp
next
  case (Inr n)
  then obtain r c j peer pc where r: "bt_get (st_sockets t) i = Some r" "so_connection_state r = Some c" "\<not> cs_write_shutdown c"
      "cs_peer_socket_id c = Some j"
    and p: "bt_get (st_sockets t) j = Some peer" "so_connection_state peer = Some pc" "\<not> cs_read_shutdown pc"
    and t': "snd (socket_write i data t) = t\<lparr>st_sockets := bt_insert j
       (peer\<lparr>so_connection_state := Some (pc\<lparr>cs_recv_buffer := cs_recv_buffer pc @ data\<rparr>)\<rparr>) (st_sockets t)\<rparr>"
    by (auto simp: socket_write_def split: option.splits if_splits)
  have conn: "n_conn w i = Some c" "n_conn w j = Some pc" using t r p by (simp_all add: represents_def conn_of_Some)
  show ?thesis
  proof (rule simulated_step [OF w])
    show "net_step w (w\<lparr>n_conn := (n_conn w)(j \<mapsto> pc\<lparr>cs_recv_buffer := cs_recv_buffer pc @ data\<rparr>),
        n_sent := (n_sent w)(i := n_sent w i @ data)\<rparr>)" (is "net_step w ?w")
      using conn r p by (intro net_send)
    have "so_state peer = Connected" using t p by (auto simp: represents_def states_ok_def state_ok_def)
    then show "represents (snd (socket_write i data t)) ?w"
      unfolding t' by (rule represents_conn_put [OF t p(1)]) simp_all
    show "n_sent ?w = (\<lambda>k. n_sent w k @ accepted_from (Call_write i data) t k)"
      using Inr by (simp add: accepted_from_def fun_eq_iff)
  qed simp_all
qed

lemma socket_read_data:
  assumes "0 < n" "bt_get (st_sockets t) i = Some r" "so_state r = Connected" "so_connection_state r = Some c"
    "\<not> cs_read_shutdown c" "cs_recv_buffer c \<noteq> []"
  shows "socket_read i n t = (Inr (Some (take (min (length (cs_recv_buffer c)) n) (cs_recv_buffer c))),
      t\<lparr>st_sockets := bt_insert i (r\<lparr>so_connection_state :=
        Some (c\<lparr>cs_recv_buffer := drop (min (length (cs_recv_buffer c)) n) (cs_recv_buffer c)\<rparr>)\<rparr>) (st_sockets t)\<rparr>)"
  using assms by (simp add: socket_read_def Let_def)

lemma socket_read_nothing:
  assumes "\<not> (\<exists>r c. 0 < n \<and> bt_get (st_sockets t) i = Some r \<and> so_state r = Connected \<and> so_connection_state r = Some c \<and>
    \<not> cs_read_shutdown c \<and> cs_recv_buffer c \<noteq> [])"
  shows "snd (socket_read i n t) = t" "fst (socket_read i n t) = Inr (Some data) \<Longrightarrow> data = []"
  using assms by (auto simp: socket_read_def Let_def split: option.splits if_splits)

lemma simulated_read:
  assumes w: "net_inv w" and t: "represents t w"
  shows "simulated (snd (socket_read i n t)) (\<lambda>_. []) (handed_to (Call_read i n) t) w"
proof (cases "\<exists>r c. 0 < n \<and> bt_get (st_sockets t) i = Some r \<and> so_state r = Connected \<and> so_connection_state r = Some c \<and>
    \<not> cs_read_shutdown c \<and> cs_recv_buffer c \<noteq> []")
  case False
  note none = socket_read_nothing [OF False]
  have "handed_to (Call_read i n) t = (\<lambda>_. [])"
    using none(2) by (auto simp: handed_to_def fun_eq_iff split: sum.splits option.splits)
  then show ?thesis using simulated_quiet [OF w t quiet_refl] none(1) by simp
next
  case True
  then obtain r c where n: "0 < n" and r: "bt_get (st_sockets t) i = Some r" "so_state r = Connected" "so_connection_state r = Some c"
    "\<not> cs_read_shutdown c" "cs_recv_buffer c \<noteq> []" by blast
  note read = socket_read_data [OF n r]
  let ?m = "min (length (cs_recv_buffer c)) n"
  show ?thesis
  proof (rule simulated_step [OF w])
    show "net_step w (w\<lparr>n_conn := (n_conn w)(i \<mapsto> c\<lparr>cs_recv_buffer := drop ?m (cs_recv_buffer c)\<rparr>),
        n_received := (n_received w)(i := n_received w i @ take ?m (cs_recv_buffer c))\<rparr>)" (is "net_step w ?w")
      using t r by (intro net_receive) (simp_all add: represents_def conn_of_Some)
    show "represents (snd (socket_read i n t)) ?w"
      unfolding read snd_conv using r(2) by (rule represents_conn_put [OF t r(1)]) simp_all
    show "n_received ?w = (\<lambda>k. n_received w k @ handed_to (Call_read i n) t k)"
      using read by (simp add: handed_to_def fun_eq_iff)
  qed simp_all
qed

subsection \<open>Shutting down\<close>

lemma conn_modify_peer:
  "Option.bind (bt_get (modify_peer f p m) k) so_connection_state =
     conn_modify f p (\<lambda>k. Option.bind (bt_get m k) so_connection_state) k"
  by (cases "bt_get m k") (simp_all add: get_modify_peer conn_modify_def)

lemma represents_shut_write:
  assumes "represents t w" "bt_get (st_sockets t) i = Some r" "so_state r = Connected"
    "n_conn w' = (conn_modify f p (n_conn w))(i \<mapsto> c)" "n_alive w' = n_alive w" "n_used w' = n_used w"
  shows "represents (t\<lparr>st_sockets := bt_insert i (r\<lparr>so_connection_state := Some c\<rparr>) (modify_peer f p (st_sockets t))\<rparr>) w'"
proof -
  let ?t = "t\<lparr>st_sockets := bt_insert i (r\<lparr>so_connection_state := Some c\<rparr>) (modify_peer f p (st_sockets t))\<rparr>"
  have ok: "state_ok k" if "bt_get (st_sockets t) j = Some k" for j k
    using that assms(1) by (simp add: represents_def states_ok_def)
  have "conn_of ?t = n_conn w'"
    using assms(1,4) by (auto simp: conn_of_def [abs_def] conn_modify_peer conn_modify_def represents_def fun_eq_iff)
  moreover have "states_ok ?t" unfolding states_ok_def
  proof (intro allI impI)
    fix j k assume "bt_get (st_sockets ?t) j = Some k"
    then show "state_ok k"
      using ok [OF assms(2)] ok [of j] assms(3) by (auto simp: get_modify_peer state_ok_def split: if_splits)
  qed
  moreover have "n_alive w' = (\<lambda>k. bt_get (st_sockets ?t) k \<noteq> None)"
    using assms(1,2,5) by (auto simp: represents_def get_modify_peer fun_eq_iff)
  moreover have "next_fresh ?t = next_fresh t" by (simp add: next_fresh_def)
  ultimately show ?thesis using assms(1,6) by (auto simp: represents_def)
qed

lemma simulated_shutdown:
  assumes w: "net_inv w" and t: "represents t w"
  shows "simulated (snd (socket_shut_down i how t)) (\<lambda>_. []) (\<lambda>_. []) w"
proof (cases "\<exists>r c. bt_get (st_sockets t) i = Some r \<and> so_state r = Connected \<and> so_connection_state r = Some c")
  case False
  then have "snd (socket_shut_down i how t) = t" by (auto simp: socket_shut_down_def split: option.splits)
  then show ?thesis using simulated_quiet [OF w t quiet_refl] by simp
next
  case True
  then obtain r c where r: "bt_get (st_sockets t) i = Some r" "so_state r = Connected" "so_connection_state r = Some c" by blast
  then have conn: "n_conn w i = Some c" using t by (simp add: represents_def conn_of_Some)
  let ?c1 = "c\<lparr>cs_recv_buffer := [], cs_read_shutdown := True\<rparr>" and ?f = "\<lambda>d. d\<lparr>cs_peer_write_shutdown := True\<rparr>"
  let ?w1 = "w\<lparr>n_conn := (n_conn w)(i \<mapsto> ?c1)\<rparr>"
  have read: "net_step w ?w1" using conn by (rule net_shut_read)
  show ?thesis
  proof (cases how)
    case ShutRead
    have "represents (snd (socket_shut_down i how t)) ?w1"
      using r represents_conn_put [OF t r(1,2)] by (simp add: socket_shut_down_def ShutRead Let_def)
    from simulated_step [OF w read this] show ?thesis by simp
  next
    case ShutWrite
    let ?w = "w\<lparr>n_conn := (conn_modify ?f (cs_peer_socket_id c) (n_conn w))(i \<mapsto> c\<lparr>cs_write_shutdown := True\<rparr>)\<rparr>"
    have "represents (snd (socket_shut_down i how t)) ?w"
      using r represents_shut_write [OF t r(1,2)] by (simp add: socket_shut_down_def ShutWrite Let_def)
    from simulated_step [OF w net_shut_write [OF conn] this] show ?thesis by simp
  next
    case ShutBoth
    let ?w2 = "?w1\<lparr>n_conn := (conn_modify ?f (cs_peer_socket_id ?c1) (n_conn ?w1))(i \<mapsto> ?c1\<lparr>cs_write_shutdown := True\<rparr>)\<rparr>"
    have "n_conn ?w2 = (conn_modify ?f (cs_peer_socket_id c) (n_conn w))(i \<mapsto> ?c1\<lparr>cs_write_shutdown := True\<rparr>)"
      by (auto simp: conn_modify_def fun_eq_iff)
    then have "represents (snd (socket_shut_down i how t)) ?w2"
      using r represents_shut_write [OF t r(1,2)] by (simp add: socket_shut_down_def ShutBoth Let_def)
    moreover have "net_step ?w1 ?w2" by (rule net_shut_write) simp
    ultimately have "simulated (snd (socket_shut_down i how t)) (\<lambda>_. []) (\<lambda>_. []) ?w1"
      using simulated_step [OF net_inv_step [OF w read], of ?w2] by simp
    then show ?thesis by (rule simulated_after [OF read, rotated 3]) simp_all
  qed
qed

subsection \<open>Removing\<close>

text \<open>A run that only closes endpoints.\<close>

definition closed :: "socket_table \<Rightarrow> socket_net \<Rightarrow> bool" where
  "closed t' w \<longleftrightarrow> (\<exists>w'. net_step\<^sup>*\<^sup>* w w' \<and> represents t' w' \<and> n_sent w' = n_sent w \<and> n_received w' = n_received w \<and>
     n_partner w' = n_partner w)"

lemma simulated_closed:
  assumes "net_inv w" "closed t' w"
  shows "simulated t' (\<lambda>_. []) (\<lambda>_. []) w"
proof -
  from assms(2) obtain w' where w': "net_step\<^sup>*\<^sup>* w w'" "represents t' w'" "n_sent w' = n_sent w" "n_received w' = n_received w"
      "n_partner w' = n_partner w" unfolding closed_def by blast
  have "net_inv w'" using net.run_inv [OF w'(1) assms(1)] .
  then have "last_peers (n_partner w) (conn_of t') = n_partner w"
    by (rule last_peers_same) (use w' in \<open>simp_all add: represents_def\<close>)
  with w' show ?thesis unfolding simulated_def by (intro exI [of _ w']) simp
qed

lemma closed_refl: "represents t w \<Longrightarrow> closed t w"
  unfolding closed_def by blast

lemma closed_trans:
  assumes "closed t w" "\<And>w'. net_inv w' \<Longrightarrow> represents t w' \<Longrightarrow> closed t' w'" "net_inv w"
  shows "closed t' w"
proof -
  from assms(1) obtain w' where w': "net_step\<^sup>*\<^sup>* w w'" "represents t w'" "n_sent w' = n_sent w" "n_received w' = n_received w"
      "n_partner w' = n_partner w" unfolding closed_def by blast
  from assms(2) [OF net.run_inv [OF w'(1) assms(3)] w'(2)] obtain w'' where "net_step\<^sup>*\<^sup>* w' w''" "represents t' w''"
      "n_sent w'' = n_sent w'" "n_received w'' = n_received w'" "n_partner w'' = n_partner w'" unfolding closed_def by blast
  with w' show ?thesis unfolding closed_def by (intro exI [of _ w'']) (simp add: rtranclp_trans)
qed

text \<open>The peer of a removed socket points back to it, so it always loses its peer.\<close>

lemma peer_removed_left_alone:
  assumes w: "net_inv w"
  shows "conn_modify (peer_removed i) (Option.bind (n_conn w i) cs_peer_socket_id) ((n_conn w)(i := None)) =
    conn_modify left_alone (Option.bind (n_conn w i) cs_peer_socket_id) ((n_conn w)(i := None))"
proof
  fix k
  show "conn_modify (peer_removed i) (Option.bind (n_conn w i) cs_peer_socket_id) ((n_conn w)(i := None)) k =
    conn_modify left_alone (Option.bind (n_conn w i) cs_peer_socket_id) ((n_conn w)(i := None)) k"
  proof (cases "Option.bind (n_conn w i) cs_peer_socket_id = Some k")
    case True
    then obtain c where "n_conn w i = Some c" "cs_peer_socket_id c = Some k" by (auto simp: Option.bind_eq_Some_conv)
    from pairedD [OF w this] obtain d where "n_conn w k = Some d" "cs_peer_socket_id d = Some i" "i \<noteq> k" .
    with True show ?thesis by (simp add: conn_modify_def peer_removed_def left_alone_def)
  qed (simp add: conn_modify_def)
qed

lemma closed_one:
  assumes w: "net_inv w" and t: "represents t w" "bt_get (st_sockets t) i = Some r"
    "st_sockets t' = modify_peer (peer_removed i) (Option.bind (so_connection_state r) cs_peer_socket_id) (bt_remove i (st_sockets t))"
    "st_next_socket_id t' = st_next_socket_id t"
  shows "closed t' w"
proof -
  let ?w = "w\<lparr>n_alive := (n_alive w)(i := False),
    n_conn := conn_modify left_alone (Option.bind (n_conn w i) cs_peer_socket_id) ((n_conn w)(i := None))\<rparr>"
  have conn: "n_conn w = conn_of t" using t(1) by (simp add: represents_def)
  have "net_step w ?w" using t(1,2) by (intro net_close) (simp add: represents_def)
  moreover have "represents t' ?w" unfolding represents_def
  proof (intro conjI allI impI)
    have "(\<lambda>k. Option.bind (bt_get (bt_remove i (st_sockets t)) k) so_connection_state) = (conn_of t)(i := None)"
      by (auto simp: conn_of_def fun_eq_iff)
    then have "conn_of t' = conn_modify (peer_removed i) (Option.bind (n_conn w i) cs_peer_socket_id) ((n_conn w)(i := None))"
      using t(2) by (simp add: conn conn_of_def [of t'] conn_of_Some t(3) conn_modify_peer conn_modify_def fun_eq_iff)
    then show "n_conn ?w = conn_of t'" using peer_removed_left_alone [OF w] by simp
    show "n_alive ?w = (\<lambda>k. bt_get (st_sockets t') k \<noteq> None)"
      using t(1) by (auto simp: represents_def t(3) get_modify_peer fun_eq_iff)
    have "next_fresh t' = next_fresh t" using t(4) by (simp add: next_fresh_def)
    then show "k < next_fresh t'" if "n_used ?w k" for k using that t(1) by (simp add: represents_def)
    have "state_ok r" if "bt_get (st_sockets t) k = Some r" for k r
      using that t(1) by (simp add: represents_def states_ok_def)
    then show "states_ok t'"
      by (auto simp: states_ok_def t(3) get_modify_peer state_ok_def split: if_splits)
  qed
  ultimately show ?thesis unfolding closed_def by (intro exI [of _ ?w]) simp
qed

text \<open>A socket with sockets waiting at it has no connection, so its own removal is complete when their removal starts.\<close>

lemma closed_each:
  assumes "\<And>i t t' r w. f i t = Some (r, t') \<Longrightarrow> net_inv w \<Longrightarrow> represents t w \<Longrightarrow> closed t' w"
    and "remove_each f is t = Some (rs, t')" "net_inv w" "represents t w"
  shows "closed t' w"
  using assms(2-)
proof (induction "is" arbitrary: t rs w)
  case Nil
  then show ?case by (simp add: closed_refl)
next
  case (Cons i "is")
  from Cons.prems(1) obtain r t1 rs1 where f: "f i t = Some (r, t1)" "remove_each f is t1 = Some (rs1, t')"
    by (auto split: option.splits)
  from closed_trans [OF assms(1) [OF f(1) Cons.prems(2,3)] Cons.IH [OF f(2)] Cons.prems(2)] show ?case .
qed

lemma represents_same_sockets:
  "represents t w \<Longrightarrow> st_sockets t' = st_sockets t \<Longrightarrow> st_next_socket_id t' = st_next_socket_id t \<Longrightarrow> represents t' w"
  by (erule represents_quiet) (simp add: quiet_def conn_of_def states_ok_def next_fresh_def fun_eq_iff)

lemma finish_removal_simps:
  "st_sockets (finish_removal i r t) =
     modify_peer (peer_removed i) (Option.bind (so_connection_state r) cs_peer_socket_id) (st_sockets t)"
  "st_next_socket_id (finish_removal i r t) = st_next_socket_id t"
  by (simp_all add: finish_removal_def disconnect_peer_def Let_def)

lemma closed_same_sockets:
  "closed t w \<Longrightarrow> st_sockets t' = st_sockets t \<Longrightarrow> st_next_socket_id t' = st_next_socket_id t \<Longrightarrow> closed t' w"
  unfolding closed_def using represents_same_sockets by blast

lemma closed_remove_in: "remove_socket_in n i t = Some (x, t') \<Longrightarrow> net_inv w \<Longrightarrow> represents t w \<Longrightarrow> closed t' w"
proof (induction n arbitrary: i t x t' w)
  case (Suc n)
  show ?case
  proof (cases "bt_get (st_sockets t) i")
    case None
    then show ?thesis using Suc.prems by (simp add: closed_refl)
  next
    case (Some r)
    from Suc.prems(1) obtain rs t3 where each: "remove_each (remove_socket_in n) (pending_socket_ids r) (taken_out i r t) = Some (rs, t3)"
        and t': "t' = finish_removal i r t3"
      by (auto simp: remove_socket_in_present [OF Some])
    show ?thesis
    proof (cases "pending_socket_ids r = []")
      case True
      then have "t' = finish_removal i r (taken_out i r t)" using each t' by simp
      then show ?thesis by (intro closed_one [OF Suc.prems(2,3) Some]) (simp_all add: finish_removal_simps)
    next
      case False
      have "state_ok r" using Suc.prems(3) Some by (simp add: represents_def states_ok_def)
      with False have conn: "so_connection_state r = None"
        by (auto simp: state_ok_def pending_socket_ids_def split: option.splits)
      have "closed (taken_out i r t) w"
        by (rule closed_one [OF Suc.prems(2,3) Some]) (simp_all add: conn modify_peer_def)
      from closed_trans [OF this closed_each [OF Suc.IH each] Suc.prems(2)] have "closed t3 w" .
      then show ?thesis by (rule closed_same_sockets) (simp_all add: t' finish_removal_simps conn modify_peer_def)
    qed
  qed
qed simp

lemma closed_remove: "remove_socket i t = Some (x, t') \<Longrightarrow> net_inv w \<Longrightarrow> represents t w \<Longrightarrow> closed t' w"
  unfolding remove_socket_def by (rule closed_remove_in)

lemma simulated_remove:
  assumes "net_inv w" "represents t w"
  shows "simulated (socket_apply (Call_remove i) t) (\<lambda>_. []) (\<lambda>_. []) w"
proof -
  obtain x t' where t': "remove_socket i t = Some (x, t')" by (rule remove_socket_enough)
  from simulated_closed [OF assms(1) closed_remove [OF t' assms]] t' show ?thesis by (simp add: socket_remove_def)
qed

lemma simulated_remove_all:
  assumes w: "net_inv w" "represents t w"
  shows "simulated (socket_apply (Call_remove_all pid) t) (\<lambda>_. []) (\<lambda>_. []) w"
proof (cases "bt_get (st_by_owner t) pid")
  case None
  then show ?thesis using simulated_quiet [OF w quiet_refl] by (simp add: remove_all_for_pid_def)
next
  case (Some ids)
  let ?t = "t\<lparr>st_by_owner := bt_remove pid (st_by_owner t)\<rparr>"
  obtain rs t' where t': "remove_each remove_socket (bs_elems ids) ?t = Some (rs, t')"
    using remove_each_socket_total by blast
  have "represents ?t w" by (rule represents_same_sockets [OF w(2)]) simp_all
  from closed_each [OF closed_remove t' w(1) this] have "closed t' w" .
  with t' Some show ?thesis by (simp add: remove_all_for_pid_def simulated_closed [OF w(1)])
qed

subsection \<open>Identifiers only grow\<close>

lemma word_saturating_add_ge: "(x :: u64) \<le> word_saturating_add x 1"
  using word_less_Suc [of x] by (cases "x = - 1") (auto simp: word_saturating_add_def word_order.extremum_unique)

lemma next_le_skip: "st_next_socket_id t \<le> word_saturating_add (next_fresh t) 1"
proof -
  have "st_next_socket_id t \<le> next_fresh t" by (simp add: next_fresh_def)
  then show ?thesis using word_saturating_add_ge by (rule order_trans)
qed

lemma next_remove_each:
  assumes "\<And>i t t' r. f i t = Some (r, t') \<Longrightarrow> st_next_socket_id t' = st_next_socket_id t"
  shows "remove_each f is t = Some (rs, t') \<Longrightarrow> st_next_socket_id t' = st_next_socket_id t"
proof (induction "is" arbitrary: t rs)
  case (Cons i "is")
  from Cons.prems obtain r t1 rs1 where f: "f i t = Some (r, t1)" "remove_each f is t1 = Some (rs1, t')"
    by (auto split: option.splits)
  from Cons.IH [OF f(2)] assms [OF f(1)] show ?case by simp
qed simp

lemma next_remove_in: "remove_socket_in n i t = Some (x, t') \<Longrightarrow> st_next_socket_id t' = st_next_socket_id t"
proof (induction n arbitrary: i t x t')
  case (Suc n)
  show ?case
  proof (cases "bt_get (st_sockets t) i")
    case (Some r)
    from Suc.prems obtain rs t3 where "remove_each (remove_socket_in n) (pending_socket_ids r) (taken_out i r t) = Some (rs, t3)"
        and t': "t' = finish_removal i r t3"
      by (auto simp: remove_socket_in_present [OF Some])
    from next_remove_each [OF Suc.IH this(1)] t' show ?thesis by (simp add: finish_removal_simps)
  qed (use Suc.prems in simp)
qed simp

lemma next_remove: "remove_socket i t = Some (x, t') \<Longrightarrow> st_next_socket_id t' = st_next_socket_id t"
  unfolding remove_socket_def by (rule next_remove_in)

lemma next_connect_to_listener: "st_next_socket_id t \<le> st_next_socket_id (snd (connect_to_listener i l endpoints t))"
  by (cases rule: connect_to_listener_cases [of i l endpoints t]) (simp_all add: next_socket_id_eq next_le_skip)

lemma next_accept: "st_next_socket_id t \<le> st_next_socket_id (snd (socket_accept i t))"
  using next_le_skip [of t]
  by (auto simp: socket_accept_def next_socket_id_eq put_socket_def next_fresh_def Let_def split: option.splits sum.splits list.splits)

lemma next_mono: "st_next_socket_id t \<le> st_next_socket_id (socket_apply c t)"
proof (cases c)
  case (Call_allocate pid spec state)
  then show ?thesis by (simp add: socket_allocate_with_state_def next_socket_id_eq put_socket_def next_le_skip Let_def)
next
  case (Call_connect_inet i a)
  then show ?thesis by (simp add: connect_to_bound_inet_stream_def next_connect_to_listener Let_def split: option.splits)
next
  case (Call_connect_unix i p)
  then show ?thesis by (simp add: connect_to_bound_unix_stream_def next_connect_to_listener split: option.splits sum.splits)
next
  case (Call_remove i)
  obtain x t' where "remove_socket i t = Some (x, t')" by (rule remove_socket_enough)
  with next_remove [OF this] show ?thesis by (simp add: Call_remove socket_remove_def)
next
  case (Call_remove_all pid)
  show ?thesis
  proof (cases "bt_get (st_by_owner t) pid")
    case (Some ids)
    obtain rs t' where t': "remove_each remove_socket (bs_elems ids) (t\<lparr>st_by_owner := bt_remove pid (st_by_owner t)\<rparr>) = Some (rs, t')"
      using remove_each_socket_total by blast
    from next_remove_each [OF next_remove t'] t' Some show ?thesis by (simp add: Call_remove_all remove_all_for_pid_def)
  qed (simp add: Call_remove_all remove_all_for_pid_def)
qed (simp_all add: next_accept socket_update_state_def bind_inet_def set_datagram_socket_option_def add_multicast_membership_def
    drop_multicast_membership_def bind_unix_def socket_listen_def enqueue_incoming_tcp_connection_def connect_pair_def
    send_to_bound_udp_socket_def recv_datagram_def socket_write_def socket_read_def socket_shut_down_def Let_def
    split: option.splits sum.splits list.splits)

subsection \<open>Every run is a run of the network\<close>

lemma simulated_call:
  assumes w: "net_inv w" "represents t w" and usable: "usable t"
  shows "simulated (socket_apply c t) (accepted_from c t) (handed_to c t) w"
proof -
  have ok: "states_ok t" using w(2) by (simp add: represents_def)
  show ?thesis
  proof (cases c)
    case (Call_connect_inet i a)
    then show ?thesis
      using simulated_connect_to_listener [OF w(1) usable w(2)] simulated_quiet [OF w quiet_refl]
      by (simp add: connect_to_bound_inet_stream_def Let_def split: option.splits)
  next
    case (Call_connect_unix i p)
    then show ?thesis
      using simulated_connect_to_listener [OF w(1) usable w(2)] simulated_quiet [OF w quiet_refl]
      by (simp add: connect_to_bound_unix_stream_def split: option.splits sum.splits)
  next
    case (Call_write i data)
    then show ?thesis using simulated_write [OF w] by simp
  next
    case (Call_read i n)
    then show ?thesis using simulated_read [OF w] by simp
  next
    case (Call_remove i)
    then show ?thesis using simulated_remove [OF w] by simp
  next
    case (Call_remove_all pid)
    then show ?thesis using simulated_remove_all [OF w] by simp
  qed (simp_all add: simulated_allocate [OF w(1) usable w(2)] simulated_update_state [OF w] simulated_accept [OF w(1) usable w(2)]
    simulated_connect_pair [OF w] simulated_shutdown [OF w] simulated_quiet [OF w] quiet_bind_inet [OF ok]
    quiet_bind_unix [OF ok] quiet_set_option quiet_add_membership quiet_drop_membership quiet_listen [OF ok] quiet_enqueue
    quiet_send_to quiet_recv_datagram)
qed

text \<open>The network that stands for a history: it represents the table and has the same record of what was sent.\<close>

definition history_represents :: "socket_history \<Rightarrow> socket_net \<Rightarrow> bool" where
  "history_represents h w \<longleftrightarrow> represents (h_table h) w \<and> n_sent w = h_sent h \<and> n_received w = h_received h \<and> n_partner w = h_partner h"

lemma history_snoc: "history_of (calls @ [c]) = history_call c (history_of calls)"
  by (simp add: history_of_def)

lemma history_refines:
  "usable (h_table (history_of calls)) \<Longrightarrow> \<exists>w. net_step\<^sup>*\<^sup>* net_new w \<and> history_represents (history_of calls) w"
proof (induction calls rule: rev_induct)
  case Nil
  have "represents socket_table_new net_new"
    by (simp add: represents_def net_new_def socket_table_new_def conn_of_def states_ok_def fun_eq_iff)
  then show ?case
    by (intro exI [of _ net_new]) (simp add: history_represents_def history_of_def history_new_def net_new_def)
next
  case (snoc c calls)
  let ?h = "history_of calls"
  have "st_next_socket_id (h_table ?h) \<le> st_next_socket_id (h_table (history_of (calls @ [c])))"
    using next_mono by (simp add: history_snoc history_call_def Let_def)
  with snoc.prems have usable: "usable (h_table ?h)" by (auto simp: usable_def word_order.extremum_unique)
  from snoc.IH [OF this] obtain w where w: "net_step\<^sup>*\<^sup>* net_new w" "history_represents ?h w" by blast
  from simulated_call [OF net.reachable_inv [OF w(1)] _ usable, of c] w(2) obtain w' where
    "net_step\<^sup>*\<^sup>* w w'" "represents (socket_apply c (h_table ?h)) w'" "n_sent w' = (\<lambda>k. n_sent w k @ accepted_from c (h_table ?h) k)"
    "n_received w' = (\<lambda>k. n_received w k @ handed_to c (h_table ?h) k)"
    "n_partner w' = last_peers (n_partner w) (conn_of (socket_apply c (h_table ?h)))"
    unfolding simulated_def history_represents_def by blast
  with w show ?case
    by (intro exI [of _ w']) (simp add: history_snoc history_call_def history_represents_def Let_def)
qed

definition tcp_spec :: socket_spec where
  "tcp_spec = \<lparr>spec_domain = Inet, spec_type = Stream\<rparr>"

text \<open>Two sockets are connected, one writes three bytes, the other reads two and the writer is removed.\<close>

definition example_calls :: "socket_call list" where
  "example_calls = [Call_allocate 7 tcp_spec Created, Call_allocate 8 tcp_spec Created, Call_connect_pair 1 2,
     Call_write 1 [10, 20, 30], Call_read 2 2, Call_remove 1]"

text \<open>
  C39. The socket table implements a network of paired endpoints. Whatever operations are called on an
  empty table, in whatever order and with whatever arguments (binding, listening, accepting, both kinds
  of connecting, reading, writing, shutting down, removing one socket or all of a process), what they do
  to stream connections is a run of the network, which ends with the same connections, the same partners
  and the same bytes accepted and delivered, as long as the identifiers of 64 bits are not used up.
\<close>

theorem socket_table_refines_network:
  assumes "usable (h_table (history_of calls))"
  shows "\<exists>w. net_step\<^sup>*\<^sup>* net_new w \<and> n_conn w = conn_of (h_table (history_of calls)) \<and>
    n_partner w = h_partner (history_of calls) \<and> n_sent w = h_sent (history_of calls) \<and>
    n_received w = h_received (history_of calls)"
proof -
  from history_refines [OF assms] obtain w where "net_step\<^sup>*\<^sup>* net_new w" "history_represents (history_of calls) w" by blast
  then show ?thesis by (intro exI [of _ w]) (simp add: history_represents_def represents_def)
qed

theorem socket_table_refines_network_witness:
  "\<exists>w. net_step\<^sup>*\<^sup>* net_new w \<and> n_conn w = conn_of (h_table (history_of example_calls)) \<and>
    n_partner w = h_partner (history_of example_calls) \<and> n_sent w = h_sent (history_of example_calls) \<and>
    n_received w = h_received (history_of example_calls)"
proof (rule socket_table_refines_network)
  show "usable (h_table (history_of example_calls))" by code_simp
qed

text \<open>
  C40. A stream connection delivers what was sent, in order and without loss or invention. After any run of
  the table, what a socket has read, followed by what is still buffered for it, is what its partner has
  written, also when the partner has shut down or was removed since; once the reader has shut down its
  side, what it had read is a prefix.
\<close>

theorem socket_stream_fifo:
  assumes "usable (h_table (history_of calls))" "h_partner (history_of calls) b = Some a"
    "conn_of (h_table (history_of calls)) b = Some c"
  shows "if cs_read_shutdown c then prefix (h_received (history_of calls) b) (h_sent (history_of calls) a)
    else h_sent (history_of calls) a = h_received (history_of calls) b @ cs_recv_buffer c"
proof -
  from history_refines [OF assms(1)] obtain w where w: "net_step\<^sup>*\<^sup>* net_new w" "history_represents (history_of calls) w" by blast
  then have "delivered (n_sent w a) (n_received w b) c"
    using assms(2,3) fifoD(1) [OF net.reachable_inv [OF w(1)], of b c a] by (simp add: history_represents_def represents_def)
  with w(2) show ?thesis by (simp add: delivered_def history_represents_def)
qed

theorem socket_stream_fifo_witness:
  "h_sent (history_of example_calls) 1 = [10, 20, 30] \<and> h_received (history_of example_calls) 2 = [10, 20] \<and>
   h_sent (history_of example_calls) 1 = h_received (history_of example_calls) 2 @ [30]"
proof -
  let ?h = "history_of example_calls"
  let ?c = "\<lparr>cs_peer_socket_id = None, cs_recv_buffer = [30], cs_read_shutdown = False, cs_write_shutdown = False, cs_peer_write_shutdown = True\<rparr>"
  have "usable (h_table ?h)" "h_partner ?h 2 = Some 1" "conn_of (h_table ?h) 2 = Some ?c" by code_simp+
  from socket_stream_fifo [OF this] have "h_sent ?h 1 = h_received ?h 2 @ [30]" by simp
  moreover have "h_sent ?h 1 = [10, 20, 30]" "h_received ?h 2 = [10, 20]" by code_simp+
  ultimately show ?thesis by simp
qed

end
