(* ===== verification/Spec2Isabelle.thy ===== *)
theory Spec2Isabelle
  imports Poll User Fd_Refs File_Lock Pipe_Stream Process_Exit Glob Permissions_Fs
    Resource Command_Registry Socket_Stream
begin

text \<open>
  A verification of the kernel crate of agent-os (\<^verbatim>\<open>src/crates/kernel/src\<close>): the in-process operating system
  kernel that guest programs run on. All file names below are of that directory.

  \<^bold>\<open>The program and its parts.\<close> A virtual machine has one kernel. The kernel facade (\<^verbatim>\<open>kernel.rs\<close>) owns a
  process table, descriptor tables, pipes, pseudo-terminals, sockets and a file system, and dispatches
  each system call to them. Descriptors (\<^verbatim>\<open>fd_table.rs\<close>) share descriptions with a reference count; a
  description stands for a file, a pipe end (\<^verbatim>\<open>pipe_manager.rs\<close>), a terminal end or a socket. The process
  table (\<^verbatim>\<open>process_table.rs\<close>) holds parents, groups, sessions and signals and calls external drivers. The
  file system is any implementation of the trait \<^verbatim>\<open>VirtualFileSystem\<close> (\<^verbatim>\<open>vfs.rs\<close>), usually the in-memory one
  behind the permission checks of \<^verbatim>\<open>permissions.rs\<close>. Limits are checked by \<^verbatim>\<open>resource_accounting.rs\<close>.

  \<^bold>\<open>How code becomes definitions.\<close> A struct is a record, an enum a datatype. \<^verbatim>\<open>u8\<close>, \<^verbatim>\<open>u16\<close>, \<^verbatim>\<open>u32\<close> and \<^verbatim>\<open>u64\<close> are
  words, so additions wrap or saturate as the code says; \<^verbatim>\<open>usize\<close> is \<^typ>\<open>nat\<close>, with \<open>usize_max\<close> where it
  saturates; a string is its bytes. A method on a state behind a mutex is a function on that state that
  returns the result with the new state; a \<^verbatim>\<open>Result\<close> is a sum with the error on the left. The code
  \<open>PANIC\<close> marks a failed \<^verbatim>\<open>expect\<close>. A \<^verbatim>\<open>BTreeMap\<close> is a sorted association list, because the code depends on
  its order. Shared \<^verbatim>\<open>Arc\<close> objects live in an explicit store. A loop around a condition variable is one
  function for a pass under the lock, and a step relation over worlds in which callers sleep, wake and
  time out. The clock, drivers, policies and wrapped file systems are arguments.

  \<^bold>\<open>Theories.\<close>
  \<^item> \<^verbatim>\<open>Prelude\<close>: errors, results, integer helpers and the locale of transition systems with an invariant,
    which every run-level theorem interprets. \<^verbatim>\<open>BTree_Map\<close>: maps and sets of the standard library.
  \<^item> \<^verbatim>\<open>Poll\<close> and \<^verbatim>\<open>User\<close>: \<^verbatim>\<open>poll.rs\<close> and \<^verbatim>\<open>user.rs\<close>.
  \<^item> \<^verbatim>\<open>Fd_Table\<close> has the operations of \<^verbatim>\<open>ProcessFdTable\<close> and \<^verbatim>\<open>FdTableManager\<close>. \<^verbatim>\<open>Fd_Refs\<close> shows that the
    count of a description is never below the number of descriptors that refer to it, when it is equal,
    and what \<^verbatim>\<open>open\<close>, \<^verbatim>\<open>dup\<close> and \<^verbatim>\<open>fcntl\<close> return.
  \<^item> \<^verbatim>\<open>File_Lock\<close>: the advisory locks of \<^verbatim>\<open>fd_table.rs\<close> with their sleeping callers; mutual exclusion and
    when a wake-up can be lost.
  \<^item> \<^verbatim>\<open>Byte_Queue\<close> is the interface of chunked buffers. \<^verbatim>\<open>Pipe\<close> has the operations of \<^verbatim>\<open>PipeManager\<close>, and
    \<^verbatim>\<open>Pipe_Stream\<close> shows that a pipe is a byte stream, and the races in which it is not.
  \<^item> \<^verbatim>\<open>Process_Table\<close> has the operations of \<^verbatim>\<open>ProcessTable\<close>; \<^verbatim>\<open>Process_Inv\<close>, \<^verbatim>\<open>Process_Spec\<close> and
    \<^verbatim>\<open>Process_Exit\<close> show its invariants over all runs and what waiting, masking, exiting and terminating do.
  \<^item> \<^verbatim>\<open>Vfs_Path\<close>, \<^verbatim>\<open>Memory_Fs\<close> and \<^verbatim>\<open>Vfs_Ops\<close>: paths, \<^verbatim>\<open>MemoryFileSystem\<close> and the trait, as a record of
    operations. \<^verbatim>\<open>Vfs_Tree\<close>, \<^verbatim>\<open>Memory_Fs_Inv\<close>, \<^verbatim>\<open>Memory_Fs_Safe\<close>, \<^verbatim>\<open>Memory_Fs_Runs\<close> and \<^verbatim>\<open>Memory_Fs_Data\<close> show
    that the index is a tree, link counts are right, nothing panics, and data written is read back.
  \<^item> \<^verbatim>\<open>Glob\<close>, \<^verbatim>\<open>Permissions\<close> and \<^verbatim>\<open>Permissions_Fs\<close>: \<^verbatim>\<open>permissions.rs\<close>. The matcher decides the language of its
    pattern; reads of the wrapped file system are confined to what the policy allows.
  \<^item> \<^verbatim>\<open>Resource\<close>: limits and the walk that measures a file system, which ends. \<^verbatim>\<open>Command_Registry\<close>: which driver
    runs a command.
  \<^item> \<^verbatim>\<open>Socket_Table\<close> has the operations of \<^verbatim>\<open>SocketTable\<close>. \<^verbatim>\<open>Socket_Remove\<close> shows that the recursive removal
    ends and satisfies the equation of the source. \<^verbatim>\<open>Socket_Net\<close> specifies stream connections as a network
    of paired endpoints, and \<^verbatim>\<open>Socket_Stream\<close> shows that every run of the table is a run of the network,
    so that connections deliver what was sent.

  \<^bold>\<open>Fuel.\<close> Resolving a path counts the links it follows, with the limit of the source, so it needs no fuel.
  \<^verbatim>\<open>measure_path_usage\<close> takes fuel for the depth of directories; more than the longest path is enough for the
  in-memory file system, since each level makes the path longer. \<^verbatim>\<open>remove_socket\<close> takes one more than the
  number of sockets; each call takes its socket out first, so this is always enough and more changes
  nothing. In both, running out is the value \<^const>\<open>None\<close> and is proved not to happen.

  \<^bold>\<open>Assumptions.\<close> Theorems about runs of the socket table hold while the counter of identifiers has not
  reached its maximum, after which it stays there and identifiers repeat. Mutexes make an operation
  atomic; a poisoned mutex is entered as the code does. \<^verbatim>\<open>trim\<close> knows ASCII white space only.

  \<^bold>\<open>Not modelled.\<close>
  \<^item> Pseudo-terminals (\<^verbatim>\<open>pty.rs\<close>), and with them the snapshot of \<^verbatim>\<open>resource_accounting.rs\<close>, which counts them.
  \<^item> The facade \<^verbatim>\<open>kernel.rs\<close>, which delegates to the parts above under their locks, and the mount table,
    overlay, root and device file systems, which are further implementations of the trait.
  \<^item> \<^verbatim>\<open>dns.rs\<close>: it assembles the configuration of a resolver library, whose behaviour it is.
  \<^item> The other crates: the V8 runtime and the execution engines drive foreign engines, the sidecars and the
    client exchange messages over host sockets and pipes through asynchronous libraries, and the bridge
    is a set of traits.
\<close>

end
